(* ===== verification/Prelude.thy ===== *)
theory Prelude
  imports Main "HOL-Library.Word" "HOL-Library.Signed_Division"
begin

unbundle bit_operations_syntax

text \<open>
  Shared vocabulary of the development: bytes and C buffers, the outcome of a piece of C
  (it may return, hit undefined behaviour or never return), big-endian words, the conversion
  of a timeout in milliseconds, and the generic lemmas on these that the component theories
  use. Nothing here models a particular source file but the timeout conversion, which
  \<^verbatim>\<open>tcp.c\<close>, \<^verbatim>\<open>vxi11.c\<close> and the DNS-SD files all write out in the same two lines.
\<close>

named_theorems c_defs \<open>definitions the component proofs unfold\<close>
named_theorems c_cases \<open>inversion of a sequence of C statements that returned\<close>

section \<open>Outcomes of C code\<close>

text \<open>
  A \<^emph>\<open>fault\<close> is what the C standard calls undefined behaviour. \<open>None\<close> stands for code that
  does not return (a loop that runs for ever), so a claim that a function returns is a claim
  of the form \<open>f x = ret y\<close>.
\<close>

datatype fault =
    Null_Deref
  | Out_Of_Bounds
  | Use_After_Free
  | Double_Free
  | Bad_Pointer

type_synonym 'a c = "(fault + 'a) option"

abbreviation ret :: "'a \<Rightarrow> 'a c" where
  "ret x \<equiv> Some (Inr x)"

abbreviation fail :: "fault \<Rightarrow> 'a c" where
  "fail e \<equiv> Some (Inl e)"

definition cbind :: "'a c \<Rightarrow> ('a \<Rightarrow> 'b c) \<Rightarrow> 'b c" where
  "cbind m f = (case m of None \<Rightarrow> None | Some (Inl e) \<Rightarrow> fail e | Some (Inr x) \<Rightarrow> f x)"

section \<open>Bytes, buffers and words\<close>

type_synonym byte = "8 word"
type_synonym bytes = "8 word list"

text \<open>The bytes of a string literal, without the terminating NUL.\<close>

definition str_bytes :: "string \<Rightarrow> bytes" where
  "str_bytes s = map (\<lambda>ch. of_nat (of_char ch)) s"

text \<open>A store of a run of bytes at an index of a buffer, and a load of one byte.\<close>

definition overwrite :: "'a list \<Rightarrow> nat \<Rightarrow> 'a list \<Rightarrow> 'a list" where
  "overwrite buf off bs = take off buf @ bs @ drop (off + length bs) buf"

definition buf_write :: "bytes \<Rightarrow> int \<Rightarrow> bytes \<Rightarrow> bytes c" where
  "buf_write buf off bs =
     (if bs = [] then ret buf
      else if 0 \<le> off \<and> nat off + length bs \<le> length buf then ret (overwrite buf (nat off) bs)
      else fail Out_Of_Bounds)"

definition buf_read :: "bytes \<Rightarrow> int \<Rightarrow> byte c" where
  "buf_read buf i =
     (if 0 \<le> i \<and> nat i < length buf then ret (buf ! nat i) else fail Out_Of_Bounds)"

text \<open>The \<open>len\<close> bytes that start at \<open>off\<close>, as a system call that takes a pointer and a length reads them.\<close>

definition buf_slice :: "bytes \<Rightarrow> int \<Rightarrow> int \<Rightarrow> bytes c" where
  "buf_slice buf off len =
     (if 0 \<le> off \<and> 0 \<le> len \<and> nat off + nat len \<le> length buf
      then ret (take (nat len) (drop (nat off) buf)) else fail Out_Of_Bounds)"

text \<open>The NUL-terminated string a buffer holds, as \<^verbatim>\<open>strlen\<close>, \<^verbatim>\<open>strstr\<close> and \<^verbatim>\<open>strcat\<close> read it.\<close>

definition c_string :: "bytes \<Rightarrow> bytes c" where
  "c_string buf = (if 0 \<in> set buf then ret (takeWhile (\<lambda>b. b \<noteq> 0) buf) else fail Out_Of_Bounds)"

text \<open>Big-endian words, the unit of XDR.\<close>

definition be32 :: "32 word \<Rightarrow> bytes" where
  "be32 w = [ucast (drop_bit 24 w), ucast (drop_bit 16 w), ucast (drop_bit 8 w), ucast w]"

fun get32 :: "bytes \<Rightarrow> 32 word" where
  "get32 (a # b # c # d # _) =
     push_bit 24 (ucast a) OR push_bit 16 (ucast b) OR push_bit 8 (ucast c) OR ucast d"
| "get32 _ = 0"

text \<open>The conversion of a C \<^verbatim>\<open>int\<close> to \<^verbatim>\<open>size_t\<close>, and the decimal digits \<^verbatim>\<open>sprintf\<close> prints for \<^verbatim>\<open>%d\<close>.\<close>

definition size_t :: "int \<Rightarrow> int" where
  "size_t n = n mod 2 ^ 64"

fun show_nat :: "nat \<Rightarrow> string" where
  "show_nat n = (if n < 10 then [char_of (n + 48)] else show_nat (n div 10) @ [char_of (n mod 10 + 48)])"

declare show_nat.simps [simp del]

definition show_int :: "int \<Rightarrow> string" where
  "show_int i = (if i < 0 then CHR ''-'' # show_nat (nat (- i)) else show_nat (nat i))"

section \<open>Timeouts\<close>

text \<open>
  \<^verbatim>\<open>tv.tv_sec = timeout / 1000; tv.tv_usec = (timeout % 1000) * 1000;\<close> with C's division,
  which truncates towards zero.
\<close>

record timeval =
  tv_sec :: int
  tv_usec :: int

definition ms_to_timeval :: "int \<Rightarrow> timeval" where
  "ms_to_timeval timeout = \<lparr>tv_sec = timeout sdiv 1000, tv_usec = (timeout smod 1000) * 1000\<rparr>"

section \<open>Lemmas\<close>

lemma cbind_simps [simp]:
  "cbind None f = None"
  "cbind (fail e) f = fail e"
  "cbind (ret x) f = f x"
  by (simp_all add: cbind_def)

lemma cbind_ret_iff [c_cases]: "cbind m f = ret y \<longleftrightarrow> (\<exists>x. m = ret x \<and> f x = ret y)"
  by (auto simp: cbind_def split: option.splits sum.splits)

lemma cbind_fail_iff:
  "cbind m f = fail e \<longleftrightarrow> m = fail e \<or> (\<exists>x. m = ret x \<and> f x = fail e)"
  by (auto simp: cbind_def split: option.splits sum.splits)

lemma cbind_ret_right [simp]: "cbind x (\<lambda>(a, b, c). ret (a, b, c)) = x"
  by (auto simp: cbind_def split: option.split sum.split)

lemma cbind_assoc [simp]: "cbind (cbind m f) g = cbind m (\<lambda>x. cbind (f x) g)"
  by (auto simp: cbind_def split: option.splits sum.splits)

lemma length_be32 [simp]: "length (be32 w) = 4"
  by (simp add: be32_def)

lemma be32_not_Nil [simp]: "be32 w \<noteq> []"
  by (simp add: be32_def)

lemma get32_be32 [simp]: "get32 (be32 w @ r) = w"
proof -
  have "push_bit 24 (ucast (ucast (drop_bit 24 w) :: byte)) OR
      push_bit 16 (ucast (ucast (drop_bit 16 w) :: byte)) OR
      push_bit 8 (ucast (ucast (drop_bit 8 w) :: byte)) OR ucast (ucast w :: byte) = w"
    by (rule bit_word_eqI) (auto simp: bit_simps not_le intro: ccontr)
  then show ?thesis by (simp add: be32_def)
qed

lemma be32_eq_iff [simp]: "be32 v = be32 w \<longleftrightarrow> v = w"
  by (metis append_Nil2 get32_be32)

lemma length_overwrite [simp]:
  "off + length bs \<le> length buf \<Longrightarrow> length (overwrite buf off bs) = length buf"
  by (simp add: overwrite_def)

lemma take_overwrite:
  "off \<le> length buf \<Longrightarrow> take (off + length bs) (overwrite buf off bs) = take off buf @ bs"
  by (simp add: overwrite_def)

lemma take_overwrite_prefix:
  "off \<le> length buf \<Longrightarrow> n \<le> off \<Longrightarrow> take n (overwrite buf off bs) = take n buf"
  by (simp add: overwrite_def min_absorb1)

lemma drop_overwrite:
  "off + length bs \<le> length buf \<Longrightarrow> off + length bs \<le> n \<Longrightarrow>
    drop n (overwrite buf off bs) = drop n buf"
  by (simp add: overwrite_def drop_append)

lemma overwrite_append:
  assumes "off + length as + length bs \<le> length buf"
  shows "overwrite (overwrite buf off as) (off + length as) bs = overwrite buf off (as @ bs)"
  using assms by (simp add: overwrite_def min_absorb2 ac_simps)

lemma overwrite_Nil [simp]: "overwrite buf off [] = buf"
  by (simp add: overwrite_def)

lemma buf_write_ret_iff [c_cases]:
  "buf_write buf off bs = ret buf' \<longleftrightarrow>
     (if bs = [] then buf' = buf
      else 0 \<le> off \<and> nat off + length bs \<le> length buf \<and> buf' = overwrite buf (nat off) bs)"
  by (auto simp: buf_write_def)

lemma length_buf_write: "buf_write buf off bs = ret buf' \<Longrightarrow> length buf' = length buf"
  by (auto simp: buf_write_ret_iff split: if_splits)

lemma buf_write_in_range:
  "0 \<le> off \<Longrightarrow> nat off + length bs \<le> length buf \<Longrightarrow>
    buf_write buf off bs = ret (overwrite buf (nat off) bs)"
  by (simp add: buf_write_def)

lemma buf_slice_in_range:
  "0 \<le> off \<Longrightarrow> 0 \<le> len \<Longrightarrow> nat off + nat len \<le> length buf \<Longrightarrow>
    buf_slice buf off len = ret (take (nat len) (drop (nat off) buf))"
  by (simp add: buf_slice_def)

lemma size_t_nonneg [simp]: "0 \<le> n \<Longrightarrow> n < 2 ^ 64 \<Longrightarrow> size_t n = n"
  by (simp add: size_t_def)

lemma sdiv_nonneg: "0 \<le> (a::int) \<Longrightarrow> 0 < b \<Longrightarrow> a sdiv b = a div b"
  by (simp add: signed_divide_int_def sgn_if)

lemma smod_nonneg: "0 \<le> (a::int) \<Longrightarrow> 0 < b \<Longrightarrow> a smod b = a mod b"
  by (cases "a = 0") (simp_all add: signed_modulo_int_def)

end
