(* ===== verification/Vxi11core.thy ===== *)
theory Vxi11core
  imports Prelude
begin

text \<open>
  The data of the VXI-11 core and abort channels, as \<^verbatim>\<open>src/src/vxi11core.h\<close> declares it:
  one record per struct (its fields prefixed with the struct's initials, since several structs
  share field names), the RPC procedure numbers, and the tagged union that a \<^verbatim>\<open>caddr_t\<close> or
  \<^verbatim>\<open>void *\<close> to one of them stands for. A C \<^verbatim>\<open>int\<close>, \<^verbatim>\<open>u_int\<close>, \<^verbatim>\<open>bool_t\<close> or enum is a
  32-bit word, read as signed where the code does.
\<close>

type_synonym c_int = "32 word"
type_synonym u_int = "32 word"
type_synonym bool_t = "32 word"
type_synonym u_short = "16 word"
type_synonym Device_Link = "32 word"
type_synonym Device_Flags = "32 word"
type_synonym Device_ErrorCode = "32 word"

text \<open>
  The enum is kept as the integer C stores it in: the code reads it through a cast to
  \<^verbatim>\<open>enum_t *\<close>, so a decoded value need not be one of the two constants.
\<close>

type_synonym Device_AddrFamily = "32 word"

definition DEVICE_TCP :: Device_AddrFamily where "DEVICE_TCP = 0"
definition DEVICE_UDP :: Device_AddrFamily where "DEVICE_UDP = 1"

text \<open>A counted run of bytes, \<^verbatim>\<open>struct { u_int data_len; char *data_val; }\<close>; a null pointer is \<open>None\<close>.\<close>

record opaque =
  op_len :: u_int
  op_val :: "bytes option"

record Device_Error =
  de_error :: Device_ErrorCode

record Create_LinkParms =
  clp_clientId :: c_int
  clp_lockDevice :: bool_t
  clp_lock_timeout :: u_int
  clp_device :: "bytes option"

record Create_LinkResp =
  clr_error :: Device_ErrorCode
  clr_lid :: Device_Link
  clr_abortPort :: u_short
  clr_maxRecvSize :: u_int

record Device_WriteParms =
  dwp_lid :: Device_Link
  dwp_io_timeout :: u_int
  dwp_lock_timeout :: u_int
  dwp_flags :: Device_Flags
  dwp_data :: opaque

record Device_WriteResp =
  dwr_error :: Device_ErrorCode
  dwr_size :: u_int

record Device_ReadParms =
  drp_lid :: Device_Link
  drp_requestSize :: u_int
  drp_io_timeout :: u_int
  drp_lock_timeout :: u_int
  drp_flags :: Device_Flags
  drp_termChar :: byte

record Device_ReadResp =
  drr_error :: Device_ErrorCode
  drr_reason :: c_int
  drr_data :: opaque

record Device_ReadStbResp =
  dsr_error :: Device_ErrorCode
  dsr_stb :: byte

record Device_GenericParms =
  dgp_lid :: Device_Link
  dgp_flags :: Device_Flags
  dgp_lock_timeout :: u_int
  dgp_io_timeout :: u_int

record Device_RemoteFunc =
  drf_hostAddr :: u_int
  drf_hostPort :: u_int
  drf_progNum :: u_int
  drf_progVers :: u_int
  drf_progFamily :: Device_AddrFamily

record Device_EnableSrqParms =
  dep_lid :: Device_Link
  dep_enable :: bool_t
  dep_handle :: opaque

record Device_LockParms =
  dlp_lid :: Device_Link
  dlp_flags :: Device_Flags
  dlp_lock_timeout :: u_int

record Device_DocmdParms =
  ddp_lid :: Device_Link
  ddp_flags :: Device_Flags
  ddp_io_timeout :: u_int
  ddp_lock_timeout :: u_int
  ddp_cmd :: c_int
  ddp_network_order :: bool_t
  ddp_datasize :: c_int
  ddp_data_in :: opaque

record Device_DocmdResp =
  ddr_error :: Device_ErrorCode
  ddr_data_out :: opaque

text \<open>Programs, versions and procedure numbers.\<close>

definition DEVICE_ASYNC :: nat where "DEVICE_ASYNC = 0x0607B0"
definition DEVICE_ASYNC_VERSION :: nat where "DEVICE_ASYNC_VERSION = 1"
definition DEVICE_CORE :: nat where "DEVICE_CORE = 0x0607AF"
definition DEVICE_CORE_VERSION :: nat where "DEVICE_CORE_VERSION = 1"

definition device_abort :: nat where "device_abort = 1"
definition create_link :: nat where "create_link = 10"
definition device_write :: nat where "device_write = 11"
definition device_read :: nat where "device_read = 12"
definition device_readstb :: nat where "device_readstb = 13"
definition device_trigger :: nat where "device_trigger = 14"
definition device_clear :: nat where "device_clear = 15"
definition device_remote :: nat where "device_remote = 16"
definition device_local :: nat where "device_local = 17"
definition device_lock :: nat where "device_lock = 18"
definition device_unlock :: nat where "device_unlock = 19"
definition device_enable_srq :: nat where "device_enable_srq = 20"
definition device_docmd :: nat where "device_docmd = 22"
definition destroy_link :: nat where "destroy_link = 23"
definition create_intr_chan :: nat where "create_intr_chan = 25"
definition destroy_intr_chan :: nat where "destroy_intr_chan = 26"

lemmas proc_numbers =
  device_abort_def create_link_def device_write_def device_read_def device_readstb_def
  device_trigger_def device_clear_def device_remote_def device_local_def device_lock_def
  device_unlock_def device_enable_srq_def device_docmd_def destroy_link_def
  create_intr_chan_def destroy_intr_chan_def

text \<open>An object behind an untyped pointer: the argument or the result of a remote procedure.\<close>

datatype rpc_obj =
    Obj_void
  | Obj_Device_Link Device_Link
  | Obj_Device_Error Device_Error
  | Obj_Create_LinkParms Create_LinkParms
  | Obj_Create_LinkResp Create_LinkResp
  | Obj_Device_WriteParms Device_WriteParms
  | Obj_Device_WriteResp Device_WriteResp
  | Obj_Device_ReadParms Device_ReadParms
  | Obj_Device_ReadResp Device_ReadResp
  | Obj_Device_ReadStbResp Device_ReadStbResp
  | Obj_Device_GenericParms Device_GenericParms
  | Obj_Device_RemoteFunc Device_RemoteFunc
  | Obj_Device_EnableSrqParms Device_EnableSrqParms
  | Obj_Device_LockParms Device_LockParms
  | Obj_Device_DocmdParms Device_DocmdParms
  | Obj_Device_DocmdResp Device_DocmdResp

end
