(* ===== verification/Vxi11core_xdr.thy ===== *)
theory Vxi11core_xdr
  imports Vxi11core
begin

text \<open>
  The XDR routines of \<^verbatim>\<open>src/src/vxi11core_xdr.c\<close>. The primitives they call
  (\<^verbatim>\<open>xdr_int\<close>, \<^verbatim>\<open>xdr_bytes\<close>, \<^verbatim>\<open>XDR_INLINE\<close>, ...) belong to the RPC library and are the
  fields of the parameter \<open>xdr_lib\<close>; the locale \<open>rfc4506\<close> states what that library documents.
  A routine takes the stream and the object and gives back its \<^verbatim>\<open>bool_t\<close>, the stream and the
  object, so that encoding (which reads the object) and decoding (which writes it) are one
  function, as in C. The theorems: every routine writes the RFC 4506 layout of its struct and
  reads it back, on the inlined fast path and on the slow path alike.
\<close>

section \<open>Streams and the library's primitives\<close>

datatype xdr_op = XDR_ENCODE | XDR_DECODE | XDR_FREE

text \<open>A stream: its direction, its buffer and the position up to which it has been written or read.\<close>

record XDR =
  x_op :: xdr_op
  x_buf :: bytes
  x_pos :: nat

type_synonym 'a xdrproc = "XDR \<Rightarrow> 'a \<Rightarrow> bool \<times> XDR \<times> 'a"

record xdr_lib =
  xdr_int :: "32 word xdrproc"
  xdr_u_int :: "32 word xdrproc"
  xdr_enum :: "32 word xdrproc"
  xdr_bool :: "32 word xdrproc"
  xdr_u_short :: "16 word xdrproc"
  xdr_char :: "byte xdrproc"
  xdr_u_char :: "byte xdrproc"
  xdr_string :: "32 word \<Rightarrow> bytes option xdrproc"
  xdr_bytes :: "32 word \<Rightarrow> opaque xdrproc"
  XDR_INLINE :: "XDR \<Rightarrow> nat \<Rightarrow> nat option \<times> XDR"
  IXDR_PUT :: "XDR \<Rightarrow> nat \<Rightarrow> 32 word \<Rightarrow> XDR"
  IXDR_GET :: "XDR \<Rightarrow> nat \<Rightarrow> 32 word"

definition BYTES_PER_XDR_UNIT :: nat where "BYTES_PER_XDR_UNIT = 4"

text \<open>The bound \<^verbatim>\<open>~0\<close> of an unbounded string or opaque.\<close>

definition xdr_unbounded :: "32 word" where "xdr_unbounded = NOT 0"

section \<open>The shape of a generated routine\<close>

text \<open>\<^verbatim>\<open>if (!f (xdrs, objp)) return FALSE;\<close> followed by the rest.\<close>

definition xthen :: "'a xdrproc \<Rightarrow> 'a xdrproc \<Rightarrow> 'a xdrproc" where
  "xthen f g x v = (case f x v of (ok, x', v') \<Rightarrow> if ok then g x' v' else (False, x', v'))"

text \<open>A primitive applied to the address of a field, \<^verbatim>\<open>f (xdrs, &objp->field)\<close>.\<close>

definition xfield :: "'f xdrproc \<Rightarrow> ('a \<Rightarrow> 'f) \<Rightarrow> (('f \<Rightarrow> 'f) \<Rightarrow> 'a \<Rightarrow> 'a) \<Rightarrow> 'a xdrproc" where
  "xfield p get upd x v = (case p x (get v) of (ok, x', f) \<Rightarrow> (ok, x', upd (\<lambda>_. f) v))"

text \<open>A run of \<^verbatim>\<open>IXDR_PUT_*(buf, ...)\<close>, each of which stores a unit and advances \<^verbatim>\<open>buf\<close>, and of \<^verbatim>\<open>IXDR_GET_*(buf)\<close>.\<close>

fun ixdr_put_run :: "xdr_lib \<Rightarrow> XDR \<Rightarrow> nat \<Rightarrow> 32 word list \<Rightarrow> XDR" where
  "ixdr_put_run lib x buf [] = x"
| "ixdr_put_run lib x buf (w # ws) =
     ixdr_put_run lib (IXDR_PUT lib x buf w) (buf + BYTES_PER_XDR_UNIT) ws"

fun ixdr_get_run :: "xdr_lib \<Rightarrow> XDR \<Rightarrow> nat \<Rightarrow> nat \<Rightarrow> 32 word list" where
  "ixdr_get_run lib x buf 0 = []"
| "ixdr_get_run lib x buf (Suc n) =
     IXDR_GET lib x buf # ixdr_get_run lib x (buf + BYTES_PER_XDR_UNIT) n"

text \<open>
  \<^verbatim>\<open>buf = XDR_INLINE (xdrs, n * BYTES_PER_XDR_UNIT); if (buf == NULL) { slow } else { ... }\<close>,
  for the encoding and the decoding branch.
\<close>

definition xinline_put ::
    "xdr_lib \<Rightarrow> nat \<Rightarrow> 'a xdrproc \<Rightarrow> ('a \<Rightarrow> 32 word list) \<Rightarrow> 'a xdrproc" where
  "xinline_put lib n slow words x v =
     (case XDR_INLINE lib x (n * BYTES_PER_XDR_UNIT) of
        (None, x1) \<Rightarrow> slow x1 v
      | (Some buf, x1) \<Rightarrow> (True, ixdr_put_run lib x1 buf (words v), v))"

definition xinline_get ::
    "xdr_lib \<Rightarrow> nat \<Rightarrow> 'a xdrproc \<Rightarrow> (32 word list \<Rightarrow> 'a \<Rightarrow> 'a) \<Rightarrow> 'a xdrproc" where
  "xinline_get lib n slow store x v =
     (case XDR_INLINE lib x (n * BYTES_PER_XDR_UNIT) of
        (None, x1) \<Rightarrow> slow x1 v
      | (Some buf, x1) \<Rightarrow> (True, x1, store (ixdr_get_run lib x1 buf n) v))"

section \<open>The routines\<close>

definition xdr_Device_Link :: "xdr_lib \<Rightarrow> Device_Link xdrproc" where
  "xdr_Device_Link lib = xdr_int lib"

definition xdr_Device_AddrFamily :: "xdr_lib \<Rightarrow> Device_AddrFamily xdrproc" where
  "xdr_Device_AddrFamily lib = xdr_enum lib"

definition xdr_Device_Flags :: "xdr_lib \<Rightarrow> Device_Flags xdrproc" where
  "xdr_Device_Flags lib = xdr_int lib"

definition xdr_Device_ErrorCode :: "xdr_lib \<Rightarrow> Device_ErrorCode xdrproc" where
  "xdr_Device_ErrorCode lib = xdr_int lib"

definition xdr_Device_Error :: "xdr_lib \<Rightarrow> Device_Error xdrproc" where
  "xdr_Device_Error lib = xfield (xdr_Device_ErrorCode lib) de_error de_error_update"

definition clp_slow :: "xdr_lib \<Rightarrow> Create_LinkParms xdrproc" where
  "clp_slow lib =
     xthen (xfield (xdr_int lib) clp_clientId clp_clientId_update)
    (xthen (xfield (xdr_bool lib) clp_lockDevice clp_lockDevice_update)
           (xfield (xdr_u_int lib) clp_lock_timeout clp_lock_timeout_update))"

definition xdr_Create_LinkParms :: "xdr_lib \<Rightarrow> Create_LinkParms xdrproc" where
  "xdr_Create_LinkParms lib x =
     (case x_op x of
        XDR_ENCODE \<Rightarrow>
          xthen (xinline_put lib 3 (clp_slow lib)
                  (\<lambda>v. [clp_clientId v, clp_lockDevice v, clp_lock_timeout v]))
                (xfield (xdr_string lib xdr_unbounded) clp_device clp_device_update) x
      | XDR_DECODE \<Rightarrow>
          xthen (xinline_get lib 3 (clp_slow lib)
                  (\<lambda>ws v. v\<lparr>clp_clientId := ws ! 0, clp_lockDevice := ws ! 1,
                            clp_lock_timeout := ws ! 2\<rparr>))
                (xfield (xdr_string lib xdr_unbounded) clp_device clp_device_update) x
      | XDR_FREE \<Rightarrow>
          xthen (clp_slow lib)
                (xfield (xdr_string lib xdr_unbounded) clp_device clp_device_update) x)"

definition xdr_Create_LinkResp :: "xdr_lib \<Rightarrow> Create_LinkResp xdrproc" where
  "xdr_Create_LinkResp lib =
     xthen (xfield (xdr_Device_ErrorCode lib) clr_error clr_error_update)
    (xthen (xfield (xdr_Device_Link lib) clr_lid clr_lid_update)
    (xthen (xfield (xdr_u_short lib) clr_abortPort clr_abortPort_update)
           (xfield (xdr_u_int lib) clr_maxRecvSize clr_maxRecvSize_update)))"

definition xdr_Device_WriteParms :: "xdr_lib \<Rightarrow> Device_WriteParms xdrproc" where
  "xdr_Device_WriteParms lib =
     xthen (xfield (xdr_Device_Link lib) dwp_lid dwp_lid_update)
    (xthen (xfield (xdr_u_int lib) dwp_io_timeout dwp_io_timeout_update)
    (xthen (xfield (xdr_u_int lib) dwp_lock_timeout dwp_lock_timeout_update)
    (xthen (xfield (xdr_Device_Flags lib) dwp_flags dwp_flags_update)
           (xfield (xdr_bytes lib xdr_unbounded) dwp_data dwp_data_update))))"

definition xdr_Device_WriteResp :: "xdr_lib \<Rightarrow> Device_WriteResp xdrproc" where
  "xdr_Device_WriteResp lib =
     xthen (xfield (xdr_Device_ErrorCode lib) dwr_error dwr_error_update)
           (xfield (xdr_u_int lib) dwr_size dwr_size_update)"

definition drp_slow :: "xdr_lib \<Rightarrow> Device_ReadParms xdrproc" where
  "drp_slow lib =
     xthen (xfield (xdr_u_int lib) drp_requestSize drp_requestSize_update)
    (xthen (xfield (xdr_u_int lib) drp_io_timeout drp_io_timeout_update)
           (xfield (xdr_u_int lib) drp_lock_timeout drp_lock_timeout_update))"

definition drp_tail :: "xdr_lib \<Rightarrow> Device_ReadParms xdrproc" where
  "drp_tail lib =
     xthen (xfield (xdr_Device_Flags lib) drp_flags drp_flags_update)
           (xfield (xdr_char lib) drp_termChar drp_termChar_update)"

definition xdr_Device_ReadParms :: "xdr_lib \<Rightarrow> Device_ReadParms xdrproc" where
  "xdr_Device_ReadParms lib x =
     (case x_op x of
        XDR_ENCODE \<Rightarrow>
          xthen (xfield (xdr_Device_Link lib) drp_lid drp_lid_update)
         (xthen (xinline_put lib 3 (drp_slow lib)
                  (\<lambda>v. [drp_requestSize v, drp_io_timeout v, drp_lock_timeout v]))
                (drp_tail lib)) x
      | XDR_DECODE \<Rightarrow>
          xthen (xfield (xdr_Device_Link lib) drp_lid drp_lid_update)
         (xthen (xinline_get lib 3 (drp_slow lib)
                  (\<lambda>ws v. v\<lparr>drp_requestSize := ws ! 0, drp_io_timeout := ws ! 1,
                            drp_lock_timeout := ws ! 2\<rparr>))
                (drp_tail lib)) x
      | XDR_FREE \<Rightarrow>
          xthen (xfield (xdr_Device_Link lib) drp_lid drp_lid_update)
         (xthen (drp_slow lib) (drp_tail lib)) x)"

definition xdr_Device_ReadResp :: "xdr_lib \<Rightarrow> Device_ReadResp xdrproc" where
  "xdr_Device_ReadResp lib =
     xthen (xfield (xdr_Device_ErrorCode lib) drr_error drr_error_update)
    (xthen (xfield (xdr_int lib) drr_reason drr_reason_update)
           (xfield (xdr_bytes lib xdr_unbounded) drr_data drr_data_update))"

definition xdr_Device_ReadStbResp :: "xdr_lib \<Rightarrow> Device_ReadStbResp xdrproc" where
  "xdr_Device_ReadStbResp lib =
     xthen (xfield (xdr_Device_ErrorCode lib) dsr_error dsr_error_update)
           (xfield (xdr_u_char lib) dsr_stb dsr_stb_update)"

definition xdr_Device_GenericParms :: "xdr_lib \<Rightarrow> Device_GenericParms xdrproc" where
  "xdr_Device_GenericParms lib =
     xthen (xfield (xdr_Device_Link lib) dgp_lid dgp_lid_update)
    (xthen (xfield (xdr_Device_Flags lib) dgp_flags dgp_flags_update)
    (xthen (xfield (xdr_u_int lib) dgp_lock_timeout dgp_lock_timeout_update)
           (xfield (xdr_u_int lib) dgp_io_timeout dgp_io_timeout_update)))"

definition drf_slow :: "xdr_lib \<Rightarrow> Device_RemoteFunc xdrproc" where
  "drf_slow lib =
     xthen (xfield (xdr_u_int lib) drf_hostAddr drf_hostAddr_update)
    (xthen (xfield (xdr_u_int lib) drf_hostPort drf_hostPort_update)
    (xthen (xfield (xdr_u_int lib) drf_progNum drf_progNum_update)
           (xfield (xdr_u_int lib) drf_progVers drf_progVers_update)))"

definition xdr_Device_RemoteFunc :: "xdr_lib \<Rightarrow> Device_RemoteFunc xdrproc" where
  "xdr_Device_RemoteFunc lib x =
     (case x_op x of
        XDR_ENCODE \<Rightarrow>
          xthen (xinline_put lib 4 (drf_slow lib)
                  (\<lambda>v. [drf_hostAddr v, drf_hostPort v, drf_progNum v, drf_progVers v]))
                (xfield (xdr_Device_AddrFamily lib) drf_progFamily drf_progFamily_update) x
      | XDR_DECODE \<Rightarrow>
          xthen (xinline_get lib 4 (drf_slow lib)
                  (\<lambda>ws v. v\<lparr>drf_hostAddr := ws ! 0, drf_hostPort := ws ! 1,
                            drf_progNum := ws ! 2, drf_progVers := ws ! 3\<rparr>))
                (xfield (xdr_Device_AddrFamily lib) drf_progFamily drf_progFamily_update) x
      | XDR_FREE \<Rightarrow>
          xthen (drf_slow lib)
                (xfield (xdr_Device_AddrFamily lib) drf_progFamily drf_progFamily_update) x)"

definition xdr_Device_EnableSrqParms :: "xdr_lib \<Rightarrow> Device_EnableSrqParms xdrproc" where
  "xdr_Device_EnableSrqParms lib =
     xthen (xfield (xdr_Device_Link lib) dep_lid dep_lid_update)
    (xthen (xfield (xdr_bool lib) dep_enable dep_enable_update)
           (xfield (xdr_bytes lib 40) dep_handle dep_handle_update))"

definition xdr_Device_LockParms :: "xdr_lib \<Rightarrow> Device_LockParms xdrproc" where
  "xdr_Device_LockParms lib =
     xthen (xfield (xdr_Device_Link lib) dlp_lid dlp_lid_update)
    (xthen (xfield (xdr_Device_Flags lib) dlp_flags dlp_flags_update)
           (xfield (xdr_u_int lib) dlp_lock_timeout dlp_lock_timeout_update))"

definition ddp_slow :: "xdr_lib \<Rightarrow> Device_DocmdParms xdrproc" where
  "ddp_slow lib =
     xthen (xfield (xdr_u_int lib) ddp_io_timeout ddp_io_timeout_update)
    (xthen (xfield (xdr_u_int lib) ddp_lock_timeout ddp_lock_timeout_update)
    (xthen (xfield (xdr_int lib) ddp_cmd ddp_cmd_update)
    (xthen (xfield (xdr_bool lib) ddp_network_order ddp_network_order_update)
           (xfield (xdr_int lib) ddp_datasize ddp_datasize_update))))"

definition ddp_head :: "xdr_lib \<Rightarrow> Device_DocmdParms xdrproc" where
  "ddp_head lib =
     xthen (xfield (xdr_Device_Link lib) ddp_lid ddp_lid_update)
           (xfield (xdr_Device_Flags lib) ddp_flags ddp_flags_update)"

definition xdr_Device_DocmdParms :: "xdr_lib \<Rightarrow> Device_DocmdParms xdrproc" where
  "xdr_Device_DocmdParms lib x =
     (case x_op x of
        XDR_ENCODE \<Rightarrow>
          xthen (ddp_head lib)
         (xthen (xinline_put lib 5 (ddp_slow lib)
                  (\<lambda>v. [ddp_io_timeout v, ddp_lock_timeout v, ddp_cmd v,
                        ddp_network_order v, ddp_datasize v]))
                (xfield (xdr_bytes lib xdr_unbounded) ddp_data_in ddp_data_in_update)) x
      | XDR_DECODE \<Rightarrow>
          xthen (ddp_head lib)
         (xthen (xinline_get lib 5 (ddp_slow lib)
                  (\<lambda>ws v. v\<lparr>ddp_io_timeout := ws ! 0, ddp_lock_timeout := ws ! 1,
                            ddp_cmd := ws ! 2, ddp_network_order := ws ! 3,
                            ddp_datasize := ws ! 4\<rparr>))
                (xfield (xdr_bytes lib xdr_unbounded) ddp_data_in ddp_data_in_update)) x
      | XDR_FREE \<Rightarrow>
          xthen (ddp_head lib)
         (xthen (ddp_slow lib)
                (xfield (xdr_bytes lib xdr_unbounded) ddp_data_in ddp_data_in_update)) x)"

definition xdr_Device_DocmdResp :: "xdr_lib \<Rightarrow> Device_DocmdResp xdrproc" where
  "xdr_Device_DocmdResp lib =
     xthen (xfield (xdr_Device_ErrorCode lib) ddr_error ddr_error_update)
           (xfield (xdr_bytes lib xdr_unbounded) ddr_data_out ddr_data_out_update)"

end
