(* ===== verification/Environ.thy ===== *)
theory Environ
  imports Vxi11core_xdr
begin

text \<open>
  The world outside liblxi. Every call the library makes to the operating system, to the RPC
  library or to a callback of the application is an event; a run of the model extends a
  history, the list of the events so far. What a call returns is given by a parameter: a record
  of functions from the history (and the call's arguments) to its results, so one record is one
  possible behaviour of the outside world, and a theorem about all records is a theorem about
  every behaviour. The functions named \<open>sys_...\<close> make the call: they ask the parameter and
  append the event.
\<close>

section \<open>Addresses and events\<close>

record sockaddr_in =
  sin_port :: "16 word"
  s_addr :: "32 word"

datatype sock_type = SOCK_STREAM | SOCK_DGRAM

datatype sock_option = SO_BROADCAST | SO_RCVTIMEO timeval

text \<open>An RPC client handle; \<open>None\<close> is the null pointer.\<close>

type_synonym CLIENT = "nat option"

datatype event =
    Ev_socket sock_type int
  | Ev_getfl int int
  | Ev_setfl int int int
  | Ev_getaddrinfo string string int
  | Ev_connect int sockaddr_in int
  | Ev_select_write int timeval int
  | Ev_select_read int timeval int
  | Ev_getsockopt int int int
  | Ev_setsockopt int sock_option int
  | Ev_close int
  | Ev_shutdown int
  | Ev_send int bytes int
  | Ev_recv int nat int int bytes
  | Ev_bind int
  | Ev_sendto int bytes sockaddr_in
  | Ev_recvfrom int nat int
  | Ev_getifaddrs
  | Ev_freeifaddrs
  | Ev_clnt_create string nat nat CLIENT
  | Ev_clnt_call nat nat rpc_obj int rpc_obj
  | Ev_clnt_destroy nat
  | Ev_thread_start
  | Ev_status_alloc bool
  | Ev_thread_cancel
  | Ev_stderr_mute
  | Ev_stderr_restore
  | Cb_broadcast string string
  | Cb_device string bytes
  | Cb_service string string string int

type_synonym hist = "event list"

section \<open>Sockets\<close>

record addrinfo =
  ai_family :: int
  ai_addr :: "32 word"

text \<open>An entry of the list \<^verbatim>\<open>getifaddrs\<close> builds; a null pointer is \<open>None\<close>.\<close>

record ifaddrs =
  ifa_name :: "string option"
  ifa_family :: "int option"
  ifa_broadaddr :: "32 word option"

record posix =
  px_socket :: "hist \<Rightarrow> sock_type \<Rightarrow> int"
  px_getfl :: "hist \<Rightarrow> int \<Rightarrow> int"
  px_setfl :: "hist \<Rightarrow> int \<Rightarrow> int \<Rightarrow> int"
  px_inet_addr :: "string \<Rightarrow> 32 word"
  px_inet_ntoa :: "32 word \<Rightarrow> string"
  px_getaddrinfo :: "hist \<Rightarrow> string \<Rightarrow> string \<Rightarrow> int \<times> addrinfo"
  px_connect :: "hist \<Rightarrow> int \<Rightarrow> sockaddr_in \<Rightarrow> int \<times> int"
  px_select :: "hist \<Rightarrow> bool \<Rightarrow> int \<Rightarrow> timeval \<Rightarrow> int"
  px_getsockopt :: "hist \<Rightarrow> int \<Rightarrow> int \<times> int"
  px_setsockopt :: "hist \<Rightarrow> int \<Rightarrow> sock_option \<Rightarrow> int"
  px_send :: "hist \<Rightarrow> int \<Rightarrow> bytes \<Rightarrow> int"
  px_recv :: "hist \<Rightarrow> int \<Rightarrow> nat \<Rightarrow> int \<Rightarrow> int \<times> bytes"
  px_recvfrom :: "hist \<Rightarrow> int \<Rightarrow> nat \<Rightarrow> int \<times> 32 word"
  px_getifaddrs :: "hist \<Rightarrow> ifaddrs list option"

text \<open>The constants of the platform's headers the sources name, with their Linux values.\<close>

definition AF_INET :: int where "AF_INET = 2"
definition EINPROGRESS :: int where "EINPROGRESS = 115"
definition ETIMEDOUT :: int where "ETIMEDOUT = 110"
definition EINVAL :: int where "EINVAL = 22"
definition O_NONBLOCK :: int where "O_NONBLOCK = 2048"
definition MSG_DONTWAIT :: int where "MSG_DONTWAIT = 64"
definition INADDR_NONE :: "32 word" where "INADDR_NONE = NOT 0"
definition INADDR_ANY :: "32 word" where "INADDR_ANY = 0"

definition sys_socket :: "posix \<Rightarrow> sock_type \<Rightarrow> hist \<Rightarrow> int \<times> hist" where
  "sys_socket os ty h = (let fd = px_socket os h ty in (fd, h @ [Ev_socket ty fd]))"

definition sys_getfl :: "posix \<Rightarrow> int \<Rightarrow> hist \<Rightarrow> int \<times> hist" where
  "sys_getfl os fd h = (let r = px_getfl os h fd in (r, h @ [Ev_getfl fd r]))"

definition sys_setfl :: "posix \<Rightarrow> int \<Rightarrow> int \<Rightarrow> hist \<Rightarrow> int \<times> hist" where
  "sys_setfl os fd fl h = (let r = px_setfl os h fd fl in (r, h @ [Ev_setfl fd fl r]))"

definition sys_getaddrinfo :: "posix \<Rightarrow> string \<Rightarrow> string \<Rightarrow> hist \<Rightarrow> int \<times> addrinfo \<times> hist" where
  "sys_getaddrinfo os node service h =
     (let (r, ai) = px_getaddrinfo os h node service in (r, ai, h @ [Ev_getaddrinfo node service r]))"

definition sys_connect :: "posix \<Rightarrow> int \<Rightarrow> sockaddr_in \<Rightarrow> hist \<Rightarrow> int \<times> int \<times> hist" where
  "sys_connect os fd a h = (let (r, errno) = px_connect os h fd a in (r, errno, h @ [Ev_connect fd a r]))"

definition sys_select_write :: "posix \<Rightarrow> int \<Rightarrow> timeval \<Rightarrow> hist \<Rightarrow> int \<times> hist" where
  "sys_select_write os fd tv h = (let r = px_select os h True fd tv in (r, h @ [Ev_select_write fd tv r]))"

definition sys_select_read :: "posix \<Rightarrow> int \<Rightarrow> timeval \<Rightarrow> hist \<Rightarrow> int \<times> hist" where
  "sys_select_read os fd tv h = (let r = px_select os h False fd tv in (r, h @ [Ev_select_read fd tv r]))"

definition sys_getsockopt :: "posix \<Rightarrow> int \<Rightarrow> hist \<Rightarrow> int \<times> int \<times> hist" where
  "sys_getsockopt os fd h = (let (r, opt) = px_getsockopt os h fd in (r, opt, h @ [Ev_getsockopt fd r opt]))"

definition sys_setsockopt :: "posix \<Rightarrow> int \<Rightarrow> sock_option \<Rightarrow> hist \<Rightarrow> int \<times> hist" where
  "sys_setsockopt os fd opt h = (let r = px_setsockopt os h fd opt in (r, h @ [Ev_setsockopt fd opt r]))"

definition sys_close :: "int \<Rightarrow> hist \<Rightarrow> hist" where
  "sys_close fd h = h @ [Ev_close fd]"

definition sys_send :: "posix \<Rightarrow> int \<Rightarrow> bytes \<Rightarrow> hist \<Rightarrow> int \<times> hist" where
  "sys_send os fd bs h = (let r = px_send os h fd bs in (r, h @ [Ev_send fd bs r]))"

definition sys_recv :: "posix \<Rightarrow> int \<Rightarrow> nat \<Rightarrow> int \<Rightarrow> hist \<Rightarrow> int \<times> bytes \<times> hist" where
  "sys_recv os fd len fl h =
     (let (r, bs) = px_recv os h fd len fl in (r, bs, h @ [Ev_recv fd len fl r bs]))"

definition sys_recvfrom :: "posix \<Rightarrow> int \<Rightarrow> nat \<Rightarrow> hist \<Rightarrow> int \<times> 32 word \<times> hist" where
  "sys_recvfrom os fd len h =
     (let (r, from) = px_recvfrom os h fd len in (r, from, h @ [Ev_recvfrom fd len r]))"

definition sys_getifaddrs :: "posix \<Rightarrow> hist \<Rightarrow> ifaddrs list option \<times> hist" where
  "sys_getifaddrs os h = (px_getifaddrs os h, h @ [Ev_getifaddrs])"

lemmas sys_defs =
  sys_socket_def sys_getfl_def sys_setfl_def sys_getaddrinfo_def sys_connect_def
  sys_select_write_def sys_select_read_def sys_getsockopt_def sys_setsockopt_def sys_close_def
  sys_send_def sys_recv_def sys_recvfrom_def sys_getifaddrs_def

text \<open>
  What the manual pages promise of the two transfer calls: they transfer no more than they were
  asked to, and \<^verbatim>\<open>recv\<close> stores exactly the bytes it counts.
\<close>

definition send_bounded :: "posix \<Rightarrow> bool" where
  "send_bounded os \<longleftrightarrow> (\<forall>h fd bs. px_send os h fd bs \<le> int (length bs))"

definition recv_bounded :: "posix \<Rightarrow> bool" where
  "recv_bounded os \<longleftrightarrow> (\<forall>h fd len fl n bs. px_recv os h fd len fl = (n, bs) \<longrightarrow>
     n \<le> int len \<and> length bs = nat n)"

lemma sys_send_bounded:
  "send_bounded os \<Longrightarrow> sys_send os fd bs h = (n, h') \<Longrightarrow>
    n \<le> int (length bs) \<and> h' = h @ [Ev_send fd bs n]"
  by (auto simp: send_bounded_def sys_send_def Let_def)

lemma sys_recv_bounded:
  "recv_bounded os \<Longrightarrow> sys_recv os fd len fl h = (n, bs, h') \<Longrightarrow>
    n \<le> int len \<and> length bs = nat n \<and> h' = h @ [Ev_recv fd len fl n bs]"
  by (auto simp: recv_bounded_def sys_recv_def Let_def split: prod.splits)

section \<open>Remote procedure calls\<close>

definition RPC_SUCCESS :: int where "RPC_SUCCESS = 0"

text \<open>
  \<^verbatim>\<open>clnt_call\<close> receives the XDR routines and the two objects behind untyped pointers; it
  encodes the argument, performs the call and decodes into the result object.
\<close>

record rpc =
  rpc_create :: "hist \<Rightarrow> string \<Rightarrow> nat \<Rightarrow> nat \<Rightarrow> string \<Rightarrow> CLIENT"
  rpc_call :: "hist \<Rightarrow> nat \<Rightarrow> nat \<Rightarrow> rpc_obj xdrproc \<Rightarrow> rpc_obj \<Rightarrow> rpc_obj xdrproc \<Rightarrow> rpc_obj \<Rightarrow>
     timeval \<Rightarrow> int \<times> rpc_obj"

definition sys_clnt_create :: "rpc \<Rightarrow> string \<Rightarrow> nat \<Rightarrow> nat \<Rightarrow> string \<Rightarrow> hist \<Rightarrow> CLIENT \<times> hist" where
  "sys_clnt_create net host prog vers proto h =
     (let cl = rpc_create net h host prog vers proto in (cl, h @ [Ev_clnt_create host prog vers cl]))"

text \<open>The macro \<^verbatim>\<open>clnt_call\<close> and the call \<^verbatim>\<open>clnt_destroy\<close> go through the handle's table of operations.\<close>

definition sys_clnt_call ::
    "rpc \<Rightarrow> CLIENT \<Rightarrow> nat \<Rightarrow> rpc_obj xdrproc \<Rightarrow> rpc_obj \<Rightarrow> rpc_obj xdrproc \<Rightarrow> rpc_obj \<Rightarrow> timeval \<Rightarrow>
     hist \<Rightarrow> (int \<times> rpc_obj \<times> hist) c" where
  "sys_clnt_call net clnt proc xargs argsp xres resp tv h =
     (case clnt of
        None \<Rightarrow> fail Null_Deref
      | Some cl \<Rightarrow>
          let (stat, res) = rpc_call net h cl proc xargs argsp xres resp tv
          in ret (stat, res, h @ [Ev_clnt_call cl proc argsp stat res]))"

definition sys_clnt_destroy :: "CLIENT \<Rightarrow> hist \<Rightarrow> hist c" where
  "sys_clnt_destroy clnt h =
     (case clnt of None \<Rightarrow> fail Null_Deref | Some cl \<Rightarrow> ret (h @ [Ev_clnt_destroy cl]))"

section \<open>Callbacks of the application\<close>

text \<open>\<^verbatim>\<open>lxi_info_t\<close>: which of the three callbacks the application registered.\<close>

record lxi_info =
  info_broadcast :: bool
  info_device :: bool
  info_service :: bool

end
