(* ===== verification/Peers.thy ===== *)
theory Peers
  imports Environ
begin

text \<open>
  Concrete outside worlds, to apply the theorems to: an operating system on which everything
  fails, and one whose peer takes and delivers data in given pieces. They model no source file.
\<close>

definition quiet_posix :: posix where
  "quiet_posix =
     \<lparr>px_socket = (\<lambda>_ _. -1),
      px_getfl = (\<lambda>_ _. -1),
      px_setfl = (\<lambda>_ _ _. -1),
      px_inet_addr = (\<lambda>_. INADDR_NONE),
      px_inet_ntoa = (\<lambda>_. ''0.0.0.0''),
      px_getaddrinfo = (\<lambda>_ _ _. (-2, \<lparr>ai_family = 0, ai_addr = 0\<rparr>)),
      px_connect = (\<lambda>_ _ _. (-1, 0)),
      px_select = (\<lambda>_ _ _ _. 0),
      px_getsockopt = (\<lambda>_ _. (-1, 0)),
      px_setsockopt = (\<lambda>_ _ _. -1),
      px_send = (\<lambda>_ _ _. -1),
      px_recv = (\<lambda>_ _ _ _. (-1, [])),
      px_recvfrom = (\<lambda>_ _ _. (-1, 0)),
      px_getifaddrs = (\<lambda>_. None)\<rparr>"

definition recv_count :: "hist \<Rightarrow> nat" where
  "recv_count h = length (filter (\<lambda>e. case e of Ev_recv _ _ _ _ _ \<Rightarrow> True | _ \<Rightarrow> False) h)"

definition chunk_recv :: "bytes list \<Rightarrow> hist \<Rightarrow> int \<Rightarrow> nat \<Rightarrow> int \<Rightarrow> int \<times> bytes" where
  "chunk_recv chunks h fd len fl =
     (if recv_count h < length chunks
      then let bs = take len (chunks ! recv_count h) in (int (length bs), bs)
      else (-1, []))"

definition chunk_send :: "nat \<Rightarrow> hist \<Rightarrow> int \<Rightarrow> bytes \<Rightarrow> int" where
  "chunk_send k h fd bs = int (min k (length bs))"

text \<open>A peer that accepts connections, takes at most \<open>k\<close> bytes a call and delivers the given pieces.\<close>

definition chunk_posix :: "nat \<Rightarrow> bytes list \<Rightarrow> posix" where
  "chunk_posix k chunks =
     quiet_posix\<lparr>px_socket := (\<lambda>_ _. 3), px_getfl := (\<lambda>_ _. 2), px_setfl := (\<lambda>_ _ _. 0),
       px_inet_addr := (\<lambda>_. 0x0A2A002A), px_connect := (\<lambda>_ _ _. (0, 0)),
       px_select := (\<lambda>_ _ _ _. 1), px_getsockopt := (\<lambda>_ _. (0, 0)),
       px_send := chunk_send k, px_recv := chunk_recv chunks\<rparr>"

lemmas peer_defs =
  quiet_posix_def recv_count_def chunk_recv_def chunk_send_def chunk_posix_def

lemma chunk_posix_send_bounded: "send_bounded (chunk_posix k chunks)"
  by (simp add: send_bounded_def chunk_posix_def chunk_send_def)

lemma chunk_posix_recv_bounded: "recv_bounded (chunk_posix k chunks)"
  by (auto simp: recv_bounded_def chunk_posix_def chunk_recv_def Let_def split: if_splits)

end
