(* ===== verification/Tcp.thy ===== *)
theory Tcp
  imports Peers
begin

text \<open>
  The raw TCP backend, \<^verbatim>\<open>src/src/tcp.c\<close>: connecting with a timeout, sending and receiving.
  Sockets are the parameter \<open>posix\<close>. The theorems: receiving stays inside the caller's buffer
  and returns, sending returns and reports the whole length, which failures of connecting close
  the socket, and what the two transfer loops do with the pointer they advance.
\<close>

record tcp_data =
  server_socket :: int

text \<open>\<^verbatim>\<open>FD_SET\<close> writes a bit of a fixed array of 1024.\<close>

definition FD_SETSIZE :: int where "FD_SETSIZE = 1024"

definition FD_SET :: "int \<Rightarrow> unit c" where
  "FD_SET fd = (if 0 \<le> fd \<and> fd < FD_SETSIZE then ret () else fail Out_Of_Bounds)"

section \<open>Connecting\<close>

definition tcp_resolve :: "posix \<Rightarrow> string \<Rightarrow> int \<Rightarrow> hist \<Rightarrow> 32 word option \<times> hist" where
  "tcp_resolve os address port h =
     (let a = px_inet_addr os address in
      if a = INADDR_NONE
      then let (status, res, h) = sys_getaddrinfo os address (show_int port) h in
           if status \<noteq> 0 then (None, h)
           else if ai_family res \<noteq> AF_INET then (None, h)
           else (Some (ai_addr res), h)
      else (Some a, h))"

definition tcp_establish ::
    "posix \<Rightarrow> int \<Rightarrow> int \<Rightarrow> sockaddr_in \<Rightarrow> timeval \<Rightarrow> hist \<Rightarrow> (int \<times> hist) c" where
  "tcp_establish os fd opt server_address tv h =
     (let (result, errno, h) = sys_connect os fd server_address h in
      cbind (if result < 0
             then if errno = EINPROGRESS
                  then cbind (FD_SET fd) (\<lambda>_. ret (sys_select_write os fd tv h))
                  else ret (result, h)
             else ret (1, h))
        (\<lambda>(result, h).
          let (r, h) = sys_setfl os fd opt h in
          if r < 0 then ret (-1, sys_close fd h)
          else if result < 0 then ret (-1, sys_close fd h)
          else if result = 0 then ret (-1, sys_close fd h)
          else let (r, opt, h) = sys_getsockopt os fd h in
               if r \<noteq> 0 then ret (-1, sys_close fd h)
               else ret (0, h)))"

text \<open>\<^verbatim>\<open>data\<close> is a pointer, \<open>None\<close> the null pointer: the new socket is stored through it at once.\<close>

definition tcp_connect ::
    "posix \<Rightarrow> tcp_data option \<Rightarrow> string \<Rightarrow> int \<Rightarrow> string option \<Rightarrow> int \<Rightarrow> hist \<Rightarrow>
     (int \<times> tcp_data option \<times> hist) c" where
  "tcp_connect os data address port name timeout h =
     (let (fd, h) = sys_socket os SOCK_STREAM h in
      case data of
        None \<Rightarrow> fail Null_Deref
      | Some d \<Rightarrow>
          let d = d\<lparr>server_socket := fd\<rparr> in
          if fd < 0 then ret (-1, Some d, h)
          else let (opt, h) = sys_getfl os fd h in
          if opt < 0 then ret (-1, Some d, h)
          else let (r, h) = sys_setfl os fd (opt OR O_NONBLOCK) h in
          if r < 0 then ret (-1, Some d, h)
          else case tcp_resolve os address port h of
                 (None, h) \<Rightarrow> ret (-1, Some d, h)
               | (Some a, h) \<Rightarrow>
                   cbind (tcp_establish os fd opt \<lparr>sin_port = word_of_int port, s_addr = a\<rparr>
                            (ms_to_timeval timeout) h)
                     (\<lambda>(r, h). ret (r, Some d, h)))"

definition tcp_disconnect :: "tcp_data \<Rightarrow> hist \<Rightarrow> int \<times> hist" where
  "tcp_disconnect d h = (0, sys_close (server_socket d) h)"

section \<open>Sending\<close>

text \<open>The body of the \<^verbatim>\<open>do ... while (length > 0)\<close> loop: note that the pointer is \<^verbatim>\<open>message + n\<close>.\<close>

partial_function (option) tcp_send_loop ::
    "posix \<Rightarrow> int \<Rightarrow> bytes \<Rightarrow> int \<Rightarrow> int \<Rightarrow> int \<Rightarrow> hist \<Rightarrow> (int \<times> hist) c" where
  "tcp_send_loop os fd message n len bytes_sent h =
     (case buf_slice message n (size_t len) of
        None \<Rightarrow> None
      | Some (Inl e) \<Rightarrow> fail e
      | Some (Inr bs) \<Rightarrow>
          (case sys_send os fd bs h of
             (n, h) \<Rightarrow>
               if n < 0 then ret (-1, h)
               else if 0 < len - n then tcp_send_loop os fd message n (len - n) (bytes_sent + n) h
               else ret (bytes_sent + n, h)))"

definition tcp_send ::
    "posix \<Rightarrow> tcp_data \<Rightarrow> bytes \<Rightarrow> int \<Rightarrow> int \<Rightarrow> hist \<Rightarrow> (int \<times> hist) c" where
  "tcp_send os d message len timeout h =
     (let tv = ms_to_timeval timeout; fd = server_socket d in
      cbind (FD_SET fd) (\<lambda>_.
      let (status, h) = sys_select_write os fd tv h in
      if status = -1 then ret (-1, h)
      else if status \<noteq> 0 then tcp_send_loop os fd message 0 len 0 h
      else ret (-1, h)))"

section \<open>Receiving\<close>

partial_function (option) tcp_recv_loop ::
    "posix \<Rightarrow> int \<Rightarrow> int \<Rightarrow> bytes \<Rightarrow> int \<Rightarrow> int \<Rightarrow> int \<Rightarrow> hist \<Rightarrow> (int \<times> bytes \<times> hist) c" where
  "tcp_recv_loop os fd flags message n len bytes_received h =
     (case sys_recv os fd (nat (size_t len)) flags h of
        (r, bs, h) \<Rightarrow>
          if r < 0 then ret (bytes_received, message, h)
          else (case buf_write message n bs of
                  None \<Rightarrow> None
                | Some (Inl e) \<Rightarrow> fail e
                | Some (Inr message) \<Rightarrow>
                    if 0 < r then tcp_recv_loop os fd flags message r (len - r) (bytes_received + r) h
                    else ret (bytes_received + r, message, h)))"

definition tcp_receive_flags ::
    "posix \<Rightarrow> tcp_data \<Rightarrow> bytes \<Rightarrow> int \<Rightarrow> int \<Rightarrow> int \<Rightarrow> hist \<Rightarrow> (int \<times> bytes \<times> hist) c" where
  "tcp_receive_flags os d message len timeout flags h =
     (let tv = ms_to_timeval timeout; fd = server_socket d in
      cbind (FD_SET fd) (\<lambda>_.
      let (status, h) = sys_select_read os fd tv h in
      if status = -1 then ret (-1, message, h)
      else if status \<noteq> 0 then tcp_recv_loop os fd flags message 0 len 0 h
      else ret (-1, message, h)))"

definition tcp_receive ::
    "posix \<Rightarrow> tcp_data \<Rightarrow> bytes \<Rightarrow> int \<Rightarrow> int \<Rightarrow> hist \<Rightarrow> (int \<times> bytes \<times> hist) c" where
  "tcp_receive os d message len timeout h = tcp_receive_flags os d message len timeout MSG_DONTWAIT h"

definition tcp_receive_wait ::
    "posix \<Rightarrow> tcp_data \<Rightarrow> bytes \<Rightarrow> int \<Rightarrow> int \<Rightarrow> hist \<Rightarrow> (int \<times> bytes \<times> hist) c" where
  "tcp_receive_wait os d message len timeout h = tcp_receive_flags os d message len timeout 0 h"

section \<open>Receiving stays inside the buffer\<close>

text \<open>The bytes the receive calls of a history delivered, and the calls that delivered some.\<close>

definition received :: "hist \<Rightarrow> bytes" where
  "received h = concat (map (\<lambda>e. case e of Ev_recv _ _ _ n bs \<Rightarrow> take (nat n) bs | _ \<Rightarrow> []) h)"

definition is_piece :: "event \<Rightarrow> bool" where
  "is_piece e = (case e of Ev_recv _ _ _ n _ \<Rightarrow> 0 < n | _ \<Rightarrow> False)"

lemma received_simps [simp]:
  "received [] = []"
  "received (Ev_recv fd len fl n bs # h) = take (nat n) bs @ received h"
  "received (Ev_select_read fd tv r # h) = received h"
  by (simp_all add: received_def)

lemma is_piece_simps [simp]:
  "is_piece (Ev_recv fd len fl n bs) = (0 < n)" "\<not> is_piece (Ev_select_read fd tv r)"
  by (simp_all add: is_piece_def)

lemma received_Cons: "received (e # h) = received [e] @ received h"
  by (simp add: received_def)

lemma received_not_piece: "\<not> is_piece e \<Longrightarrow> received [e] = []"
  by (cases e) (simp_all add: received_def is_piece_def)

lemma received_no_piece: "filter is_piece h = [] \<Longrightarrow> received h = []"
proof (induction h)
  case (Cons e h)
  then show ?case using received_not_piece [of e] by (subst received_Cons) (simp split: if_splits)
qed simp

text \<open>
  The pieces a history delivers, and where the receive loop puts them: the pointer is \<^verbatim>\<open>message + n\<close> with \<open>n\<close> the size of
  the piece before, not the sum of all before.
\<close>

definition recv_pieces :: "hist \<Rightarrow> bytes list" where
  "recv_pieces h =
     concat (map (\<lambda>e. case e of Ev_recv _ _ _ n bs \<Rightarrow> if 0 < n then [take (nat n) bs] else [] | _ \<Rightarrow> []) h)"

fun stored_from :: "nat \<Rightarrow> bytes list \<Rightarrow> bytes \<Rightarrow> bytes" where
  "stored_from n [] message = message"
| "stored_from n (p # ps) message = stored_from (length p) ps (overwrite message n p)"

lemma recv_pieces_simps [simp]:
  "recv_pieces [] = []"
  "recv_pieces (Ev_recv fd len fl n bs # h) = (if 0 < n then [take (nat n) bs] else []) @ recv_pieces h"
  "recv_pieces (Ev_select_read fd tv r # h) = recv_pieces h"
  by (simp_all add: recv_pieces_def)

text \<open>
  The invariant of the loop: the last count \<open>n\<close> and what is left to receive fit in the
  requested length together. What the calls delivered is counted; a first piece is stored at \<open>n\<close>.
\<close>

lemma tcp_recv_loop_ok:
  assumes os: "recv_bounded os"
  shows "0 \<le> n \<Longrightarrow> 0 \<le> len \<Longrightarrow> n \<le> got \<Longrightarrow> got + len = tot \<Longrightarrow> tot < 2 ^ 31 \<Longrightarrow>
    nat tot \<le> length message \<Longrightarrow>
    \<exists>r message' new. tcp_recv_loop os fd fl message n len got h = ret (r, message', h @ new) \<and>
      got \<le> r \<and> r \<le> tot \<and> length message' = length message \<and>
      drop (nat tot) message' = drop (nat tot) message \<and> r = got + int (length (received new)) \<and>
      (length (filter is_piece new) \<le> 1 \<longrightarrow> message' = overwrite message (nat n) (received new)) \<and>
      concat (recv_pieces new) = received new \<and> message' = stored_from (nat n) (recv_pieces new) message"
proof (induction "nat len" arbitrary: n len got h message rule: less_induct)
  case less
  obtain r bs h1 where rv: "sys_recv os fd (nat len) fl h = (r, bs, h1)"
    by (metis prod_cases3)
  with sys_recv_bounded [OF os rv] have r: "r \<le> len" "length bs = nat r"
    and h1: "h1 = h @ [Ev_recv fd (nat len) fl r bs]" using less.prems by auto
  note unf = tcp_recv_loop.simps [of os fd fl message n len got h]
  show ?case
  proof (cases "r \<le> 0")
    case True
    with rv r h1 less.prems show ?thesis
      by (auto simp: unf buf_write_def)
  next
    case False
    let ?m = "overwrite message (nat n) bs"
    have fit: "nat n + length bs \<le> nat tot" using False r less.prems by linarith
    have w: "buf_write message n bs = ret ?m"
      using fit less.prems by (intro buf_write_in_range) linarith+
    have m: "length ?m = length message" "drop (nat tot) ?m = drop (nat tot) message"
      using fit less.prems by (simp_all add: drop_overwrite)
    obtain r' message' new where
      run: "tcp_recv_loop os fd fl ?m r (len - r) (got + r) h1 = ret (r', message', h1 @ new)"
      and rest: "got + r \<le> r'" "r' \<le> tot" "length message' = length ?m"
        "drop (nat tot) message' = drop (nat tot) ?m" "r' = got + r + int (length (received new))"
        "length (filter is_piece new) \<le> 1 \<longrightarrow> message' = overwrite ?m (nat r) (received new)"
        "concat (recv_pieces new) = received new" "message' = stored_from (nat r) (recv_pieces new) ?m"
      using less.hyps [of "len - r" r "got + r" ?m h1] False r less.prems m by auto
    have one: "message' = ?m \<and> received new = []" if "filter is_piece new = []"
      using rest(6) received_no_piece [OF that] that by simp
    have "tcp_recv_loop os fd fl message n len got h = ret (r', message', h @ (Ev_recv fd (nat len) fl r bs # new))"
      using False rv w h1 run less.prems by (simp add: unf)
    then show ?thesis
      using False r m rest one by (intro exI [of _ r'] exI [of _ message']
          exI [of _ "Ev_recv fd (nat len) fl r bs # new"]) auto
  qed
qed

lemma FD_SET_ok [simp]: "0 \<le> fd \<Longrightarrow> fd < FD_SETSIZE \<Longrightarrow> FD_SET fd = ret ()"
  by (simp add: FD_SET_def)

lemma tcp_receive_flags_ok:
  assumes "recv_bounded os" and "0 \<le> server_socket d" and "server_socket d < FD_SETSIZE"
    and "0 \<le> len" and "len < 2 ^ 31" and "nat len \<le> length message"
  shows "\<exists>r message' new. tcp_receive_flags os d message len timeout fl h = ret (r, message', h @ new) \<and>
    -1 \<le> r \<and> r \<le> len \<and> length message' = length message \<and>
    drop (nat len) message' = drop (nat len) message"
proof -
  obtain st h1 where sel: "sys_select_read os (server_socket d) (ms_to_timeval timeout) h = (st, h1)"
    by force
  then have h1: "h1 = h @ [Ev_select_read (server_socket d) (ms_to_timeval timeout) st]"
    by (auto simp: sys_select_read_def Let_def)
  have "\<exists>r message' new.
      tcp_recv_loop os (server_socket d) fl message 0 len 0 h1 = ret (r, message', h1 @ new) \<and>
      0 \<le> r \<and> r \<le> len \<and> length message' = length message \<and>
      drop (nat len) message' = drop (nat len) message"
    using tcp_recv_loop_ok [OF assms(1), of 0 len 0 len message] assms(4-6) by fastforce
  with assms sel h1 show ?thesis
    by (cases "st = -1 \<or> st = 0") (auto simp: tcp_receive_flags_def)
qed

text \<open>
  C9. \<^verbatim>\<open>tcp_receive\<close> returns on every input, whatever pieces the data arrives in: it never
  writes outside the first \<open>len\<close> bytes of the caller's buffer, it returns -1 or a count of at
  most \<open>len\<close>, and no undefined behaviour occurs.
\<close>

theorem tcp_receive_in_bounds:
  assumes "recv_bounded os" and "0 \<le> server_socket d" and "server_socket d < FD_SETSIZE"
    and "0 \<le> len" and "len < 2 ^ 31" and "nat len \<le> length message"
  shows "\<exists>r message' h'. tcp_receive os d message len timeout h = ret (r, message', h') \<and>
    -1 \<le> r \<and> r \<le> len \<and> length message' = length message \<and>
    drop (nat len) message' = drop (nat len) message"
  unfolding tcp_receive_def using tcp_receive_flags_ok [OF assms] by blast

theorem tcp_receive_in_bounds_witness:
  "\<exists>r message' h'. tcp_receive (chunk_posix 2 [[1, 2], [3, 4], [5, 6]]) \<lparr>server_socket = 3\<rparr>
      (replicate 8 0) 6 1000 [] = ret (r, message', h') \<and>
    -1 \<le> r \<and> r \<le> 6 \<and> length message' = length (replicate 8 (0 :: byte)) \<and>
    drop (nat 6) message' = drop (nat 6) (replicate 8 0)"
  by (rule tcp_receive_in_bounds) (simp_all add: chunk_posix_recv_bounded FD_SETSIZE_def)

section \<open>Sending\<close>

definition send_progress :: "posix \<Rightarrow> bool" where
  "send_progress os \<longleftrightarrow> (\<forall>h fd bs. bs \<noteq> [] \<longrightarrow> px_send os h fd bs \<noteq> 0)"

text \<open>The bytes the peer is handed by the send calls of a history.\<close>

definition wire :: "hist \<Rightarrow> bytes" where
  "wire h = concat (map (\<lambda>e. case e of Ev_send _ bs n \<Rightarrow> take (nat n) bs | _ \<Rightarrow> []) h)"

lemma wire_simps [simp]:
  "wire [] = []" "wire (a @ b) = wire a @ wire b"
  "wire [Ev_send fd bs n] = take (nat n) bs" "wire [Ev_select_write fd tv r] = []"
  by (simp_all add: wire_def)

text \<open>The counts of the send calls, and the bytes the send loop hands over: each run starts at the count before.\<close>

definition send_counts :: "hist \<Rightarrow> nat list" where
  "send_counts h = concat (map (\<lambda>e. case e of Ev_send _ _ n \<Rightarrow> [nat n] | _ \<Rightarrow> []) h)"

fun sent_from :: "nat \<Rightarrow> nat list \<Rightarrow> bytes \<Rightarrow> bytes" where
  "sent_from n [] message = []"
| "sent_from n (k # ks) message = take k (drop n message) @ sent_from k ks message"

lemma send_counts_simps [simp]:
  "send_counts [] = []" "send_counts (Ev_send fd bs n # h) = nat n # send_counts h"
  "send_counts (Ev_select_write fd tv r # h) = send_counts h"
  by (simp_all add: send_counts_def)

lemma wire_Cons: "wire (Ev_send fd bs n # h) = take (nat n) bs @ wire h" "wire (Ev_select_write fd tv r # h) = wire h"
  by (simp_all add: wire_def)

lemma tcp_send_loop_ok:
  assumes os: "send_bounded os" "send_progress os"
  shows "0 \<le> n \<Longrightarrow> 0 \<le> len \<Longrightarrow> n \<le> sent \<Longrightarrow> sent + len = tot \<Longrightarrow> tot < 2 ^ 31 \<Longrightarrow>
    nat tot \<le> length message \<Longrightarrow>
    \<exists>r evs. tcp_send_loop os fd message n len sent h = ret (r, h @ evs) \<and>
      (r = -1 \<or> r = tot \<and> int (length (wire evs)) = len \<and> wire evs = sent_from (nat n) (send_counts evs) message \<and>
        int (sum_list (send_counts evs)) = len)"
proof (induction "nat len" arbitrary: n len sent h rule: less_induct)
  case less
  let ?bs = "take (nat len) (drop (nat n) message)"
  have slice: "buf_slice message n (size_t len) = ret ?bs"
    using less.prems by (simp add: buf_slice_in_range)
  have lbs: "length ?bs = nat len" using less.prems by simp
  obtain k h1 where snd: "sys_send os fd ?bs h = (k, h1)" by force
  with sys_send_bounded [OF os(1) snd] lbs less.prems
  have k: "k \<le> len" and h1: "h1 = h @ [Ev_send fd ?bs k]" by auto
  note unf = tcp_send_loop.simps [of os fd message n len sent h]
  consider "k < 0" | "k = len" "0 \<le> k" | "0 \<le> k" "k < len" using k by linarith
  then show ?case
  proof cases
    case 1
    with snd slice h1 show ?thesis by (auto simp: unf)
  next
    case 2
    with snd slice h1 lbs less.prems show ?thesis by (auto simp: unf wire_Cons)
  next
    case 3
    have "k \<noteq> 0"
    proof
      assume "k = 0"
      with snd have "px_send os h fd ?bs = 0" by (auto simp: sys_send_def Let_def)
      moreover have "?bs \<noteq> []" using lbs 3 by (metis list.size(3) zero_less_nat_eq less_irrefl order_le_less_trans)
      ultimately show False using os(2) by (auto simp: send_progress_def)
    qed
    have lk: "take (nat k) ?bs = take (nat k) (drop (nat n) message)" "length (take (nat k) (drop (nat n) message)) = nat k"
      using 3 less.prems by (simp_all add: min_absorb1)
    from \<open>k \<noteq> 0\<close> have "\<exists>r evs. tcp_send_loop os fd message k (len - k) (sent + k) h1 = ret (r, h1 @ evs) \<and>
        (r = -1 \<or> r = tot \<and> int (length (wire evs)) = len - k \<and>
          wire evs = sent_from (nat k) (send_counts evs) message \<and> int (sum_list (send_counts evs)) = len - k)"
      using 3 less.prems by (intro less.hyps) linarith+
    then obtain r evs where
      "tcp_send_loop os fd message k (len - k) (sent + k) h1 = ret (r, h @ (Ev_send fd ?bs k # evs))"
      and "r = -1 \<or> r = tot \<and> int (length (wire (Ev_send fd ?bs k # evs))) = len \<and>
        wire (Ev_send fd ?bs k # evs) = sent_from (nat n) (send_counts (Ev_send fd ?bs k # evs)) message \<and>
        int (sum_list (send_counts (Ev_send fd ?bs k # evs))) = len"
      using 3 lk h1 by (force simp: wire_Cons simp del: length_take take_take)
    then show ?thesis using snd slice 3 by (auto simp: unf)
  qed
qed

lemma tcp_send_wire:
  assumes "send_bounded os" and "send_progress os"
    and "0 \<le> server_socket d" and "server_socket d < FD_SETSIZE"
    and "0 \<le> len" and "len < 2 ^ 31" and "nat len \<le> length message"
  shows "\<exists>r evs. tcp_send os d message len timeout h = ret (r, h @ evs) \<and>
    (r = -1 \<or> r = len \<and> int (length (wire evs)) = len \<and> wire evs = sent_from 0 (send_counts evs) message \<and>
       int (sum_list (send_counts evs)) = len)"
proof -
  let ?fd = "server_socket d" and ?tv = "ms_to_timeval timeout"
  let ?st = "px_select os h True ?fd ?tv"
  let ?sel = "Ev_select_write ?fd ?tv ?st"
  obtain r evs where
    "tcp_send_loop os ?fd message 0 len 0 (h @ [?sel]) = ret (r, h @ (?sel # evs))"
    and "r = -1 \<or> r = len \<and> int (length (wire (?sel # evs))) = len \<and>
      wire (?sel # evs) = sent_from 0 (send_counts (?sel # evs)) message \<and>
      int (sum_list (send_counts (?sel # evs))) = len"
    using tcp_send_loop_ok [OF assms(1,2), of 0 len 0 len message ?fd "h @ [?sel]"] assms(5-7)
    by (auto simp: wire_Cons)
  then show ?thesis using assms
    by (cases "?st = -1 \<or> ?st = 0") (auto simp: tcp_send_def sys_select_write_def Let_def)
qed

lemma tcp_send_returns:
  assumes "send_bounded os" and "send_progress os"
    and "0 \<le> server_socket d" and "server_socket d < FD_SETSIZE"
    and "0 \<le> len" and "len < 2 ^ 31" and "nat len \<le> length message"
  shows "\<exists>r evs. tcp_send os d message len timeout h = ret (r, h @ evs) \<and>
    (r = -1 \<or> r = len \<and> int (length (wire evs)) = len)"
  using tcp_send_wire [OF assms] by blast

text \<open>
  C10. \<^verbatim>\<open>tcp_send\<close> returns on every input (given that a send of a non-empty run makes progress or
  fails): the result is -1 or exactly the length asked for, and in the second case exactly that
  many bytes have been handed to the peer.
\<close>

theorem tcp_send_complete:
  assumes "send_bounded os" and "send_progress os"
    and "0 \<le> server_socket d" and "server_socket d < FD_SETSIZE"
    and "0 \<le> len" and "len < 2 ^ 31" and "nat len \<le> length message"
  shows "\<exists>r evs. tcp_send os d message len timeout h = ret (r, h @ evs) \<and>
    (r = -1 \<or> r = len \<and> int (length (wire evs)) = len)"
  using assms by (rule tcp_send_returns)

lemma chunk_posix_send_progress: "0 < k \<Longrightarrow> send_progress (chunk_posix k chunks)"
  by (auto simp: send_progress_def chunk_posix_def chunk_send_def min_def)

theorem tcp_send_complete_witness:
  "\<exists>r evs. tcp_send (chunk_posix 2 []) \<lparr>server_socket = 3\<rparr> [1, 2, 3, 4, 5, 6] 6 1000 [] =
      ret (r, [] @ evs) \<and> (r = -1 \<or> r = 6 \<and> int (length (wire evs)) = 6)"
  by (rule tcp_send_complete)
    (simp_all add: chunk_posix_send_bounded chunk_posix_send_progress FD_SETSIZE_def)

text \<open>The loop only extends the history.\<close>

lemma tcp_send_loop_extends:
  assumes "tcp_send_loop os fd message n len sent h = ret (r, h')"
  shows "\<exists>evs. h' = h @ evs"
proof -
  have "case y of Inl _ \<Rightarrow> True | Inr (r, h') \<Rightarrow> \<exists>evs. h' = h @ evs"
    if "tcp_send_loop os fd message n len sent h = Some y" for y
  proof (rule tcp_send_loop.raw_induct [where P = "\<lambda>os fd message n len sent h y.
      case y of Inl _ \<Rightarrow> True | Inr (r, h') \<Rightarrow> \<exists>evs. h' = h @ evs", OF _ that])
    fix f os fd message n len sent h y
    assume IH: "\<And>os fd message n len sent h y. f os fd message n len sent h = Some y \<Longrightarrow>
        (case y of Inl _ \<Rightarrow> True | Inr (r, h') \<Rightarrow> \<exists>evs. h' = h @ evs)"
      and eq: "(case buf_slice message n (size_t len) of None \<Rightarrow> None | Some (Inl e) \<Rightarrow> fail e
        | Some (Inr bs) \<Rightarrow> (case sys_send os fd bs h of (n, h) \<Rightarrow>
            if n < 0 then ret (-1, h)
            else if 0 < len - n then f os fd message n (len - n) (sent + n) h
            else ret (sent + n, h))) = Some y"
    then show "case y of Inl _ \<Rightarrow> True | Inr (r, h') \<Rightarrow> \<exists>evs. h' = h @ evs"
      by (auto simp: sys_send_def Let_def split: option.splits sum.splits if_splits prod.splits
          dest!: IH)
  qed
  from this [OF assms] show ?thesis by simp
qed

text \<open>Unfolding a loop iteration whose outcome is known.\<close>

lemma tcp_send_loop_step:
  assumes "tcp_send_loop os fd message n len sent h = ret (r, h @ evs)"
    and "0 \<le> n" and "0 \<le> len" and "len < 2 ^ 31" and "nat n + nat len \<le> length message"
    and "send_bounded os" and "r \<noteq> -1"
  shows "\<exists>k evs'. 0 \<le> k \<and> k \<le> len \<and> evs = Ev_send fd (take (nat len) (drop (nat n) message)) k # evs' \<and>
    (k < len \<longrightarrow> tcp_send_loop os fd message k (len - k) (sent + k)
            (h @ [Ev_send fd (take (nat len) (drop (nat n) message)) k]) =
          ret (r, (h @ [Ev_send fd (take (nat len) (drop (nat n) message)) k]) @ evs')) \<and>
    (k = len \<longrightarrow> evs' = [] \<and> r = sent + len)"
proof -
  let ?bs = "take (nat len) (drop (nat n) message)"
  have slice: "buf_slice message n (size_t len) = ret ?bs"
    using assms by (simp add: buf_slice_in_range)
  obtain k h1 where snd: "sys_send os fd ?bs h = (k, h1)" by force
  with sys_send_bounded [OF assms(6) snd] assms(3,5)
  have k: "k \<le> len" and h1: "h1 = h @ [Ev_send fd ?bs k]" by auto
  note unf = tcp_send_loop.simps [of os fd message n len sent h]
  show ?thesis
  proof (cases "k < len")
    case True
    with assms(1) snd slice h1 assms(7) have *: "0 \<le> k"
      "tcp_send_loop os fd message k (len - k) (sent + k) h1 = ret (r, h @ evs)"
      by (auto simp: unf split: if_splits)
    have "\<exists>evs'. evs = Ev_send fd ?bs k # evs'"
      using tcp_send_loop_extends [OF *(2)] h1 by auto
    with * True h1 k show ?thesis by auto
  next
    case False
    with assms(1,3,7) snd slice h1 k show ?thesis by (auto simp: unf split: if_splits)
  qed
qed

definition is_send :: "event \<Rightarrow> bool" where
  "is_send e = (case e of Ev_send _ _ _ \<Rightarrow> True | _ \<Rightarrow> False)"

lemma take_split: "k \<le> len \<Longrightarrow> take k xs @ take (len - k) (drop k xs) = take len xs"
  by (metis le_add_diff_inverse take_add)

lemma tcp_send_loop_two_pieces:
  assumes "tcp_send_loop os fd message 0 len 0 h = ret (r, h @ evs)" and "r \<noteq> -1"
    and "send_bounded os" and "0 \<le> len" and "len < 2 ^ 31" and "nat len \<le> length message"
    and "length (filter is_send evs) \<le> 2"
  shows "r = len \<and> wire evs = take (nat len) message"
proof -
  let ?e1 = "\<lambda>k. Ev_send fd (take (nat len) message) k"
  obtain k evs' where 1: "0 \<le> k" "k \<le> len" "evs = ?e1 k # evs'"
    "k < len \<Longrightarrow> tcp_send_loop os fd message k (len - k) k (h @ [?e1 k]) =
       ret (r, (h @ [?e1 k]) @ evs')" "k = len \<Longrightarrow> evs' = [] \<and> r = len"
    using tcp_send_loop_step [OF assms(1)] assms by auto
  show ?thesis
  proof (cases "k < len")
    case False
    with 1 assms show ?thesis by (simp add: wire_def)
  next
    case True
    let ?e2 = "\<lambda>j. Ev_send fd (take (nat (len - k)) (drop (nat k) message)) j"
    have len2: "nat k + nat (len - k) \<le> length message" using True 1 assms(6) by linarith
    obtain j evs'' where 2: "0 \<le> j" "j \<le> len - k" "evs' = ?e2 j # evs''"
      "j < len - k \<Longrightarrow>
         tcp_send_loop os fd message j (len - k - j) (k + j) ((h @ [?e1 k]) @ [?e2 j]) =
         ret (r, ((h @ [?e1 k]) @ [?e2 j]) @ evs'')" "j = len - k \<Longrightarrow> evs'' = [] \<and> r = len"
      using tcp_send_loop_step [OF 1(4)] len2 True 1 assms by auto
    show ?thesis
    proof (cases "j < len - k")
      case False
      then have "j = len - k" using 2 by simp
      then have "wire evs = take (nat k) message @ take (nat len - nat k) (drop (nat k) message)"
        using 1 2 False by (simp add: wire_def nat_diff_distrib)
      with 2 False 1 show ?thesis by (simp add: take_split nat_mono)
    next
      case j: True
      have "nat j + nat (len - k - j) \<le> length message" using j 2 1 assms(6) by linarith
      then have "\<exists>e es. evs'' = e # es \<and> is_send e"
        using tcp_send_loop_step [OF 2(4)] j 2 1 assms True by (auto simp: is_send_def)
      with 1 2 assms(7) show ?thesis by (auto simp: is_send_def)
    qed
  qed
qed

text \<open>
  A message that the kernel takes in at most two pieces reaches the peer unchanged.
  (From the third piece on the loop resumes at the wrong address: see below.)
\<close>

lemma tcp_send_two_pieces:
  assumes "send_bounded os" and "0 \<le> server_socket d" and "server_socket d < FD_SETSIZE"
    and "0 \<le> len" and "len < 2 ^ 31" and "nat len \<le> length message"
    and "tcp_send os d message len timeout h = ret (r, h @ evs)" and "r \<noteq> -1"
    and "length (filter is_send evs) \<le> 2"
  shows "r = len \<and> wire evs = take (nat len) message"
proof -
  let ?fd = "server_socket d" and ?tv = "ms_to_timeval timeout"
  let ?sel = "Ev_select_write ?fd ?tv (px_select os h True ?fd ?tv)"
  have loop: "tcp_send_loop os ?fd message 0 len 0 (h @ [?sel]) = ret (r, h @ evs)"
    using assms(2,3,7,8) by (auto simp: tcp_send_def sys_select_write_def Let_def split: if_splits)
  obtain evs' where evs: "evs = ?sel # evs'"
    using tcp_send_loop_extends [OF loop] by auto
  with loop have "tcp_send_loop os ?fd message 0 len 0 (h @ [?sel]) = ret (r, (h @ [?sel]) @ evs')"
    by simp
  from tcp_send_loop_two_pieces [OF this] assms evs show ?thesis
    by (simp add: wire_def is_send_def)
qed

lemma tcp_recv_loop_two_pieces:
  assumes os: "recv_bounded os" and len: "0 \<le> len" "len < 2 ^ 31" "nat len \<le> length message"
  shows "\<exists>r message' new. tcp_recv_loop os fd fl message 0 len 0 h = ret (r, message', h @ new) \<and>
    r = int (length (received new)) \<and>
    (length (filter is_piece new) \<le> 2 \<longrightarrow> message' = overwrite message 0 (received new))"
proof -
  obtain k bs h1 where rv: "sys_recv os fd (nat len) fl h = (k, bs, h1)" by (metis prod_cases3)
  with sys_recv_bounded [OF os rv] len have k: "k \<le> len" "length bs = nat k"
    and h1: "h1 = h @ [Ev_recv fd (nat len) fl k bs]" by auto
  note unf = tcp_recv_loop.simps [of os fd fl message 0 len 0 h]
  show ?thesis
  proof (cases "0 < k")
    case False
    with rv k h1 len show ?thesis by (auto simp: unf buf_write_def)
  next
    case True
    let ?m = "overwrite message 0 bs"
    have fit: "length bs \<le> length message" using True k len by linarith
    have w: "buf_write message 0 bs = ret ?m" using fit by (simp add: buf_write_in_range)
    obtain r message' new where
      run: "tcp_recv_loop os fd fl ?m k (len - k) k h1 = ret (r, message', h1 @ new)"
      and r: "r = k + int (length (received new))"
      and one: "length (filter is_piece new) \<le> 1 \<longrightarrow> message' = overwrite ?m (nat k) (received new)"
      and "r \<le> len"
      using tcp_recv_loop_ok [OF os, of k "len - k" k len ?m fd fl h1] True k len fit by auto
    have two: "overwrite ?m (nat k) (received new) = overwrite message 0 (bs @ received new)"
      using overwrite_append [of 0 bs "received new" message] k r \<open>r \<le> len\<close> len True by simp
    show ?thesis
      using rv h1 w run True len k r one two
      by (intro exI [of _ r] exI [of _ message'] exI [of _ "Ev_recv fd (nat len) fl k bs # new"]) (auto simp: unf)
  qed
qed

text \<open>
  \<^verbatim>\<open>tcp_receive\<close> always returns, with -1 and the buffer as it was, or with the number of bytes the
  kernel delivered; and when they came in at most two pieces, exactly these bytes, in order, stand at the front
  of the buffer and the rest of it is untouched. (A third piece is misplaced: see below.)
\<close>

lemma tcp_receive_two_pieces:
  assumes "recv_bounded os" and "0 \<le> server_socket d" and "server_socket d < FD_SETSIZE"
    and "0 \<le> len" and "len < 2 ^ 31" and "nat len \<le> length message"
  shows "\<exists>r message' evs. tcp_receive os d message len timeout h = ret (r, message', h @ evs) \<and>
    (r = -1 \<and> message' = message \<or>
     r = int (length (received evs)) \<and>
     (length (filter is_piece evs) \<le> 2 \<longrightarrow>
        message' = received evs @ drop (length (received evs)) message))"
proof -
  let ?fd = "server_socket d" and ?tv = "ms_to_timeval timeout"
  obtain st where sel: "sys_select_read os ?fd ?tv h = (st, h @ [Ev_select_read ?fd ?tv st])"
    by (simp add: sys_select_read_def Let_def)
  obtain r message' new where
    "tcp_recv_loop os ?fd MSG_DONTWAIT message 0 len 0 (h @ [Ev_select_read ?fd ?tv st]) =
       ret (r, message', (h @ [Ev_select_read ?fd ?tv st]) @ new)"
    and "r = int (length (received new))"
    and "length (filter is_piece new) \<le> 2 \<longrightarrow> message' = overwrite message 0 (received new)"
    using tcp_recv_loop_two_pieces [OF assms(1,4-6)] by blast
  with assms(2,3) sel show ?thesis
    by (cases "st = -1 \<or> st = 0") (auto simp: tcp_receive_def tcp_receive_flags_def overwrite_def)
qed

lemma tcp_receive_stored:
  assumes "recv_bounded os" and "0 \<le> server_socket d" and "server_socket d < FD_SETSIZE"
    and "0 \<le> len" and "len < 2 ^ 31" and "nat len \<le> length message"
  shows "\<exists>r message' evs. tcp_receive os d message len timeout h = ret (r, message', h @ evs) \<and>
    (r = -1 \<and> message' = message \<or>
     r = int (length (concat (recv_pieces evs))) \<and> message' = stored_from 0 (recv_pieces evs) message)"
proof -
  let ?fd = "server_socket d" and ?tv = "ms_to_timeval timeout"
  obtain st where sel: "sys_select_read os ?fd ?tv h = (st, h @ [Ev_select_read ?fd ?tv st])"
    by (simp add: sys_select_read_def Let_def)
  obtain r message' new where
    "tcp_recv_loop os ?fd MSG_DONTWAIT message 0 len 0 (h @ [Ev_select_read ?fd ?tv st]) =
       ret (r, message', (h @ [Ev_select_read ?fd ?tv st]) @ new)"
    and "r = 0 + int (length (received new))" "concat (recv_pieces new) = received new"
      "message' = stored_from (nat 0) (recv_pieces new) message"
    using tcp_recv_loop_ok [OF assms(1), of 0 len 0 len message ?fd MSG_DONTWAIT "h @ [Ev_select_read ?fd ?tv st]",
        OF order_refl assms(4) order_refl add_0 assms(5,6)] by blast
  with assms(2,3) sel show ?thesis
    by (cases "st = -1 \<or> st = 0") (auto simp: tcp_receive_def tcp_receive_flags_def)
qed

lemma third_piece_same:
  assumes "take (nat (int k1 + (int k2 + int k3))) m = take k1 m @ take k2 (drop k1 m) @ take k3 (drop k2 m)"
  shows "take k3 (drop k2 m) = take k3 (drop (k1 + k2) m)"
proof -
  have "take (nat (int k1 + (int k2 + int k3))) m = (take k1 m @ take k2 (drop k1 m)) @ take k3 (drop (k1 + k2) m)"
    by (metis add.assoc nat_int of_nat_add take_add)
  then show ?thesis using assms by simp
qed

text \<open>
  C34. The transfer loops advance the pointer by the last count instead of the running total. Whatever counts the kernel
  takes: when \<^verbatim>\<open>tcp_send\<close> does not fail it reports the whole length, and each run of bytes it handed over starts where the
  count before it points, so that of three runs the third starts at the second count, and if the bytes there are not
  those behind the first two runs, what the peer gets is not the message. Whatever pieces the kernel delivers:
  \<^verbatim>\<open>tcp_receive\<close> reports their total size, but stores each one at the size of the one before it, so that of three pieces
  the third is written at the size of the second.
\<close>

theorem tcp_third_piece_misplaced:
  assumes "recv_bounded os" and "send_bounded os" and "send_progress os"
    and "0 \<le> server_socket d" and "server_socket d < FD_SETSIZE"
    and "0 \<le> len" and "len < 2 ^ 31" and "nat len \<le> length message"
  shows "(\<exists>r evs. tcp_send os d message len timeout h = ret (r, h @ evs) \<and>
      (r = -1 \<or> r = len \<and> wire evs = sent_from 0 (send_counts evs) message \<and>
        (\<forall>k1 k2 k3. send_counts evs = [k1, k2, k3] \<longrightarrow>
          wire evs = take k1 message @ take k2 (drop k1 message) @ take k3 (drop k2 message) \<and>
          (take k3 (drop k2 message) \<noteq> take k3 (drop (k1 + k2) message) \<longrightarrow> wire evs \<noteq> take (nat len) message)))) \<and>
    (\<exists>r message' evs. tcp_receive os d message len timeout h = ret (r, message', h @ evs) \<and>
      (r = -1 \<and> message' = message \<or>
       r = int (length (concat (recv_pieces evs))) \<and> message' = stored_from 0 (recv_pieces evs) message \<and>
        (\<forall>p1 p2 p3. recv_pieces evs = [p1, p2, p3] \<longrightarrow>
          message' = overwrite (overwrite (overwrite message 0 p1) (length p1) p2) (length p2) p3)))"
proof
  obtain r evs where "tcp_send os d message len timeout h = ret (r, h @ evs)"
    "r = -1 \<or> r = len \<and> wire evs = sent_from 0 (send_counts evs) message \<and> int (sum_list (send_counts evs)) = len"
    using tcp_send_wire [OF assms(2-8)] by blast
  then show "\<exists>r evs. tcp_send os d message len timeout h = ret (r, h @ evs) \<and>
      (r = -1 \<or> r = len \<and> wire evs = sent_from 0 (send_counts evs) message \<and>
        (\<forall>k1 k2 k3. send_counts evs = [k1, k2, k3] \<longrightarrow>
          wire evs = take k1 message @ take k2 (drop k1 message) @ take k3 (drop k2 message) \<and>
          (take k3 (drop k2 message) \<noteq> take k3 (drop (k1 + k2) message) \<longrightarrow> wire evs \<noteq> take (nat len) message)))"
    by (intro exI [of _ r] exI [of _ evs]) (auto dest: third_piece_same)
next
  obtain r message' evs where "tcp_receive os d message len timeout h = ret (r, message', h @ evs)"
    "r = -1 \<and> message' = message \<or>
     r = int (length (concat (recv_pieces evs))) \<and> message' = stored_from 0 (recv_pieces evs) message"
    using tcp_receive_stored [OF assms(1,4-8)] by blast
  then show "\<exists>r message' evs. tcp_receive os d message len timeout h = ret (r, message', h @ evs) \<and>
      (r = -1 \<and> message' = message \<or>
       r = int (length (concat (recv_pieces evs))) \<and> message' = stored_from 0 (recv_pieces evs) message \<and>
        (\<forall>p1 p2 p3. recv_pieces evs = [p1, p2, p3] \<longrightarrow>
          message' = overwrite (overwrite (overwrite message 0 p1) (length p1) p2) (length p2) p3))"
    by (intro exI [of _ r] exI [of _ message'] exI [of _ evs]) auto
qed

lemma chunk_posix_contracts:
  "recv_bounded (chunk_posix 2 chunks)" "send_bounded (chunk_posix 2 chunks)" "send_progress (chunk_posix 2 chunks)"
  by (simp_all add: chunk_posix_recv_bounded chunk_posix_send_bounded chunk_posix_send_progress)

theorem tcp_third_piece_misplaced_witness:
  "(\<exists>r evs. tcp_send (chunk_posix 2 [[1, 2], [3, 4], [5, 6]]) \<lparr>server_socket = 3\<rparr> [1, 2, 3, 4, 5, 6] 6 1000 [] = ret (r, evs) \<and>
      (r = -1 \<or> r = 6 \<and> wire evs = sent_from 0 (send_counts evs) [1, 2, 3, 4, 5, 6])) \<and>
    sent_from 0 [2, 2, 2] [1, 2, 3, 4, 5, 6] = [1, 2, 3, 4, 3, 4] \<and>
    (\<exists>r message' evs. tcp_receive (chunk_posix 2 [[1, 2], [3, 4], [5, 6]]) \<lparr>server_socket = 3\<rparr>
        [0, 0, 0, 0, 0, 0] 6 1000 [] = ret (r, message', evs) \<and>
      (r = -1 \<or> message' = stored_from 0 (recv_pieces evs) [0, 0, 0, 0, 0, 0])) \<and>
    stored_from 0 [[1, 2], [3, 4], [5, 6]] [0, 0, 0, 0, 0, 0] = [1, 2, 5, 6, 0, 0]"
proof (intro conjI)
  note both = tcp_third_piece_misplaced [OF chunk_posix_contracts, of "\<lparr>server_socket = 3\<rparr>" 6]
  show "\<exists>r evs. tcp_send (chunk_posix 2 [[1, 2], [3, 4], [5, 6]]) \<lparr>server_socket = 3\<rparr> [1, 2, 3, 4, 5, 6] 6 1000 [] =
      ret (r, evs) \<and> (r = -1 \<or> r = 6 \<and> wire evs = sent_from 0 (send_counts evs) [1, 2, 3, 4, 5, 6])"
    using both [of "[1, 2, 3, 4, 5, 6]" "[[1, 2], [3, 4], [5, 6]]" 1000 "[]"] by (auto simp: FD_SETSIZE_def)
  show "\<exists>r message' evs. tcp_receive (chunk_posix 2 [[1, 2], [3, 4], [5, 6]]) \<lparr>server_socket = 3\<rparr>
        [0, 0, 0, 0, 0, 0] 6 1000 [] = ret (r, message', evs) \<and>
      (r = -1 \<or> message' = stored_from 0 (recv_pieces evs) [0, 0, 0, 0, 0, 0])"
    using both [of "[0, 0, 0, 0, 0, 0]" "[[1, 2], [3, 4], [5, 6]]" 1000 "[]"] by (auto simp: FD_SETSIZE_def)
qed (simp_all add: overwrite_def)

section \<open>Connecting\<close>

lemma tcp_resolve_events:
  "tcp_resolve os address port h = (a, h') \<Longrightarrow>
    \<exists>evs. h' = h @ evs \<and> (\<forall>e \<in> set evs. \<exists>r. e = Ev_getaddrinfo address (show_int port) r)"
  by (auto simp: tcp_resolve_def sys_getaddrinfo_def Let_def split: if_splits prod.splits)

lemma tcp_establish_events:
  assumes "tcp_establish os fd opt addr tv h = ret (r, h')"
  shows "\<exists>evs. h' = h @ evs \<and> evs \<noteq> [] \<and>
    (r = 0 \<and> (\<forall>e \<in> set evs. \<nexists>f. e = Ev_close f) \<or> r = -1 \<and> last evs = Ev_close fd)"
  using assms
  by (auto simp: tcp_establish_def sys_defs cbind_ret_iff Let_def split: if_splits prod.splits)

text \<open>A run of \<^verbatim>\<open>tcp_connect\<close> either gives up before it attempts the connection or establishes it.\<close>

lemma tcp_connect_cases:
  assumes "tcp_connect os (Some d0) address port name timeout h = ret (r, Some d, h')"
  obtains (early) evs where "r = -1" "h' = h @ evs" "\<forall>e \<in> set evs. \<nexists>fd addr res. e = Ev_connect fd addr res"
    | (late) pre opt a where "0 \<le> server_socket d" "\<forall>e \<in> set pre. \<nexists>fd. e = Ev_close fd"
        "tcp_establish os (server_socket d) opt \<lparr>sin_port = word_of_int port, s_addr = a\<rparr>
           (ms_to_timeval timeout) (h @ pre) = ret (r, h')"
proof -
  obtain fd h1 where 1: "sys_socket os SOCK_STREAM h = (fd, h1)" by force
  obtain opt h2 where 2: "sys_getfl os fd h1 = (opt, h2)" by force
  obtain k h3 where 3: "sys_setfl os fd (opt OR O_NONBLOCK) h2 = (k, h3)" by force
  obtain a h4 where 4: "tcp_resolve os address port h3 = (a, h4)" by force
  obtain evs where evs: "h4 = h3 @ evs" "\<forall>e \<in> set evs. \<exists>r. e = Ev_getaddrinfo address (show_int port) r"
    using tcp_resolve_events [OF 4] by auto
  let ?e1 = "Ev_socket SOCK_STREAM fd" and ?e2 = "Ev_getfl fd opt"
  let ?e3 = "Ev_setfl fd (opt OR O_NONBLOCK) k"
  have h: "h1 = h @ [?e1]" "h2 = h @ [?e1, ?e2]" "h3 = h @ [?e1, ?e2, ?e3]"
    "h4 = h @ [?e1, ?e2, ?e3] @ evs"
    using 1 2 3 evs by (auto simp: sys_socket_def sys_getfl_def sys_setfl_def Let_def)
  note run = assms [unfolded tcp_connect_def 1 Let_def prod.case 2 3 4 option.case]
  consider "fd < 0" | "0 \<le> fd" "opt < 0" | "0 \<le> fd" "0 \<le> opt" "k < 0"
    | "0 \<le> fd" "0 \<le> opt" "0 \<le> k" "a = None"
    | b where "0 \<le> fd" "0 \<le> opt" "0 \<le> k" "a = Some b"
    by (cases a) force+
  then show thesis
  proof cases
    case 1
    with run h show thesis by (intro early [of "[?e1]"]) auto
  next
    case 2
    with run h show thesis by (intro early [of "[?e1, ?e2]"]) auto
  next
    case 3
    with run h show thesis by (intro early [of "[?e1, ?e2, ?e3]"]) auto
  next
    case 4
    with run h evs show thesis by (intro early [of "[?e1, ?e2, ?e3] @ evs"]) auto
  next
    case 5
    with run h evs show thesis
      by (intro late [of "[?e1, ?e2, ?e3] @ evs" opt b]) (auto simp: cbind_ret_iff)
  qed
qed

lemma tcp_connect_outcome:
  assumes "tcp_connect os (Some d0) address port name timeout h = ret (r, Some d, h')"
  shows "\<exists>evs. h' = h @ evs \<and>
    (r = 0 \<and> 0 \<le> server_socket d \<and> Ev_close (server_socket d) \<notin> set evs \<or>
     r = -1 \<and> (last evs = Ev_close (server_socket d) \<or>
       (\<nexists>addr res. Ev_connect (server_socket d) addr res \<in> set evs)))"
  using assms
proof (cases rule: tcp_connect_cases)
  case (early evs)
  then show ?thesis by (intro exI [of _ evs]) auto
next
  case (late pre opt a)
  obtain evs where "h' = (h @ pre) @ evs" "evs \<noteq> []"
    "r = 0 \<and> (\<forall>e \<in> set evs. \<nexists>f. e = Ev_close f) \<or> r = -1 \<and> last evs = Ev_close (server_socket d)"
    using tcp_establish_events [OF late(3)] by blast
  with late show ?thesis by (intro exI [of _ "pre @ evs"]) auto
qed

text \<open>
  C27. The result of \<^verbatim>\<open>tcp_connect\<close> is 0 or -1. After a success the new socket is open: nothing
  has closed it. After a failure of an attempted connection (refused, timed out, or the socket
  options could not be read or restored) the last thing done is to close the socket.
\<close>

theorem tcp_connect_closes_on_failure:
  assumes "tcp_connect os (Some d0) address port name timeout h = ret (r, Some d, h')"
  shows "\<exists>evs. h' = h @ evs \<and>
    (r = 0 \<and> 0 \<le> server_socket d \<and> Ev_close (server_socket d) \<notin> set evs \<or>
     r = -1 \<and> (last evs = Ev_close (server_socket d) \<or>
       (\<nexists>addr res. Ev_connect (server_socket d) addr res \<in> set evs)))"
  using assms by (rule tcp_connect_outcome)

lemma chunk_connect_example:
  "tcp_connect (chunk_posix 2 []) (Some \<lparr>server_socket = 0\<rparr>) ''10.42.0.42'' 5025 None 1000 [] =
    ret (0, Some \<lparr>server_socket = 3\<rparr>,
      [Ev_socket SOCK_STREAM 3, Ev_getfl 3 2, Ev_setfl 3 2050 0,
       Ev_connect 3 \<lparr>sin_port = 5025, s_addr = 0x0A2A002A\<rparr> 0, Ev_setfl 3 2 0, Ev_getsockopt 3 0 0])"
  by (simp add: tcp_connect_def tcp_resolve_def tcp_establish_def peer_defs sys_defs O_NONBLOCK_def
      INADDR_NONE_def Let_def)

theorem tcp_connect_closes_on_failure_witness:
  "\<exists>evs. [Ev_socket SOCK_STREAM 3, Ev_getfl 3 2, Ev_setfl 3 2050 0,
       Ev_connect 3 \<lparr>sin_port = 5025, s_addr = 0x0A2A002A\<rparr> 0, Ev_setfl 3 2 0, Ev_getsockopt 3 0 0] =
      [] @ evs \<and>
    ((0 :: int) = 0 \<and> 0 \<le> server_socket \<lparr>server_socket = 3\<rparr> \<and>
       Ev_close (server_socket \<lparr>server_socket = 3\<rparr>) \<notin> set evs \<or>
     (0 :: int) = -1 \<and> (last evs = Ev_close (server_socket \<lparr>server_socket = 3\<rparr>) \<or>
       (\<nexists>addr res. Ev_connect (server_socket \<lparr>server_socket = 3\<rparr>) addr res \<in> set evs)))"
  by (rule tcp_connect_closes_on_failure [OF chunk_connect_example])

lemma tcp_connect_after_flags:
  assumes "fd = px_socket os h SOCK_STREAM" and "0 \<le> fd" and "\<forall>h. 0 \<le> px_getfl os h fd" and "\<forall>h fl. 0 \<le> px_setfl os h fd fl"
  shows "\<exists>opt pre. Ev_socket SOCK_STREAM fd \<in> set pre \<and> (\<forall>f. Ev_close f \<notin> set pre) \<and>
    tcp_connect os (Some d) address port name timeout h =
      (case tcp_resolve os address port (h @ pre) of
         (None, h) \<Rightarrow> ret (-1, Some \<lparr>server_socket = fd\<rparr>, h)
       | (Some a, h) \<Rightarrow> cbind (tcp_establish os fd opt \<lparr>sin_port = word_of_int port, s_addr = a\<rparr>
           (ms_to_timeval timeout) h) (\<lambda>(r, h). ret (r, Some \<lparr>server_socket = fd\<rparr>, h)))"
proof -
  let ?e1 = "Ev_socket SOCK_STREAM fd"
  define opt where "opt = px_getfl os (h @ [?e1]) fd"
  define k where "k = px_setfl os (h @ [?e1, Ev_getfl fd opt]) fd (opt OR O_NONBLOCK)"
  have pos: "\<not> opt < 0" "\<not> k < 0" using assms(3,4) by (simp_all add: opt_def k_def not_less)
  have "sys_socket os SOCK_STREAM h = (fd, h @ [?e1])"
    "sys_getfl os fd (h @ [?e1]) = (opt, h @ [?e1, Ev_getfl fd opt])"
    "sys_setfl os fd (opt OR O_NONBLOCK) (h @ [?e1, Ev_getfl fd opt]) =
      (k, h @ [?e1, Ev_getfl fd opt, Ev_setfl fd (opt OR O_NONBLOCK) k])"
    using assms(1) by (simp_all add: sys_socket_def sys_getfl_def sys_setfl_def opt_def k_def Let_def)
  then show ?thesis
    using assms(2) pos
    by (cases d) (intro exI [of _ opt] exI [of _ "[?e1, Ev_getfl fd opt, Ev_setfl fd (opt OR O_NONBLOCK) k]"],
      simp add: tcp_connect_def Let_def)
qed

lemma tcp_establish_any_error:
  assumes "0 \<le> fd" and "fd < FD_SETSIZE" and "\<forall>h fl. 0 \<le> px_setfl os h fd fl"
    and "\<forall>h a. 0 \<le> fst (px_connect os h fd a) \<or> snd (px_connect os h fd a) = EINPROGRESS"
    and "\<forall>h tv. 0 < px_select os h True fd tv" and "\<forall>h. px_getsockopt os h fd = (0, err)"
  shows "\<exists>evs. tcp_establish os fd opt a tv h = ret (0, h @ evs) \<and> Ev_getsockopt fd 0 err \<in> set evs \<and>
    (\<forall>f. Ev_close f \<notin> set evs)"
proof -
  obtain r errno where c: "px_connect os h fd a = (r, errno)" by fastforce
  then have acc: "0 \<le> r \<or> errno = EINPROGRESS" using assms(4) by (metis fst_conv snd_conv)
  have sel: "\<not> px_select os h' True fd tv < 0" "px_select os h' True fd tv \<noteq> 0" for h'
    using assms(5) [rule_format, of h' tv] by simp_all
  have fl: "\<not> px_setfl os h' fd opt < 0" for h' using assms(3) by (simp add: not_less)
  show ?thesis
    using c acc fl sel assms(1,2,6)
    by (cases "r < 0") (auto simp: tcp_establish_def sys_connect_def sys_select_write_def sys_setfl_def
        sys_getsockopt_def Let_def)
qed

text \<open>
  C40. Two failures \<^verbatim>\<open>tcp_connect\<close> does not report as the manual says, on every system whose socket calls work. When the
  connection is accepted or under way, the socket becomes writable and the pending-error query answers with an error
  (\<^verbatim>\<open>SO_ERROR\<close>, whatever its value), the call still returns 0 and leaves the socket open. When the host name cannot be
  resolved, the call returns -1 and the socket it created is not closed.
\<close>

theorem tcp_connect_overlooked_failures:
  assumes "fd = px_socket os h SOCK_STREAM" and "0 \<le> fd" and "fd < FD_SETSIZE"
    and "\<forall>h. 0 \<le> px_getfl os h fd" and "\<forall>h fl. 0 \<le> px_setfl os h fd fl"
  shows "(px_inet_addr os address \<noteq> INADDR_NONE \<and>
      (\<forall>h a. 0 \<le> fst (px_connect os h fd a) \<or> snd (px_connect os h fd a) = EINPROGRESS) \<and>
      (\<forall>h tv. 0 < px_select os h True fd tv) \<and> (\<forall>h. px_getsockopt os h fd = (0, err)) \<longrightarrow>
      (\<exists>evs. tcp_connect os (Some d) address port name timeout h = ret (0, Some \<lparr>server_socket = fd\<rparr>, h @ evs) \<and>
        Ev_getsockopt fd 0 err \<in> set evs \<and> (\<forall>f. Ev_close f \<notin> set evs))) \<and>
    (px_inet_addr os address = INADDR_NONE \<and> (\<forall>h service. fst (px_getaddrinfo os h address service) \<noteq> 0) \<longrightarrow>
      (\<exists>evs. tcp_connect os (Some d) address port name timeout h = ret (-1, Some \<lparr>server_socket = fd\<rparr>, h @ evs) \<and>
        Ev_socket SOCK_STREAM fd \<in> set evs \<and> (\<forall>f. Ev_close f \<notin> set evs)))"
proof -
  obtain opt pre where pre: "Ev_socket SOCK_STREAM fd \<in> set pre" "\<forall>f. Ev_close f \<notin> set pre"
    and conn: "tcp_connect os (Some d) address port name timeout h =
      (case tcp_resolve os address port (h @ pre) of
         (None, h) \<Rightarrow> ret (-1, Some \<lparr>server_socket = fd\<rparr>, h)
       | (Some a, h) \<Rightarrow> cbind (tcp_establish os fd opt \<lparr>sin_port = word_of_int port, s_addr = a\<rparr>
           (ms_to_timeval timeout) h) (\<lambda>(r, h). ret (r, Some \<lparr>server_socket = fd\<rparr>, h)))"
    using tcp_connect_after_flags [OF assms(1,2,4,5)] by blast
  show ?thesis
  proof (intro conjI impI)
    assume *: "px_inet_addr os address \<noteq> INADDR_NONE \<and>
      (\<forall>h a. 0 \<le> fst (px_connect os h fd a) \<or> snd (px_connect os h fd a) = EINPROGRESS) \<and>
      (\<forall>h tv. 0 < px_select os h True fd tv) \<and> (\<forall>h. px_getsockopt os h fd = (0, err))"
    then obtain evs where "tcp_establish os fd opt \<lparr>sin_port = word_of_int port, s_addr = px_inet_addr os address\<rparr>
        (ms_to_timeval timeout) (h @ pre) = ret (0, (h @ pre) @ evs)" "Ev_getsockopt fd 0 err \<in> set evs"
        "\<forall>f. Ev_close f \<notin> set evs"
      using tcp_establish_any_error [OF assms(2,3,5)] by blast
    then show "\<exists>evs. tcp_connect os (Some d) address port name timeout h = ret (0, Some \<lparr>server_socket = fd\<rparr>, h @ evs) \<and>
        Ev_getsockopt fd 0 err \<in> set evs \<and> (\<forall>f. Ev_close f \<notin> set evs)"
      using * pre(2) by (auto simp: conn tcp_resolve_def Let_def)
  next
    assume *: "px_inet_addr os address = INADDR_NONE \<and> (\<forall>h service. fst (px_getaddrinfo os h address service) \<noteq> 0)"
    then obtain status res where "status \<noteq> 0" "px_getaddrinfo os (h @ pre) address (show_int port) = (status, res)"
      by (metis prod.collapse)
    then show "\<exists>evs. tcp_connect os (Some d) address port name timeout h = ret (-1, Some \<lparr>server_socket = fd\<rparr>, h @ evs) \<and>
        Ev_socket SOCK_STREAM fd \<in> set evs \<and> (\<forall>f. Ev_close f \<notin> set evs)"
      using * pre by (auto simp: conn tcp_resolve_def sys_getaddrinfo_def Let_def)
  qed
qed

theorem tcp_connect_overlooked_failures_witness:
  "(\<exists>evs. tcp_connect ((chunk_posix 2 [])\<lparr>px_connect := (\<lambda>_ _ _. (-1, EINPROGRESS)),
        px_getsockopt := (\<lambda>_ _. (0, 111))\<rparr>) (Some \<lparr>server_socket = 0\<rparr>) ''10.42.0.42'' 5025 None 1000 [] =
        ret (0, Some \<lparr>server_socket = 3\<rparr>, evs) \<and> Ev_getsockopt 3 0 111 \<in> set evs) \<and>
   (\<exists>evs. tcp_connect ((chunk_posix 2 [])\<lparr>px_inet_addr := (\<lambda>_. INADDR_NONE)\<rparr>) (Some \<lparr>server_socket = 0\<rparr>) ''nohost''
        5025 None 1000 [] = ret (-1, Some \<lparr>server_socket = 3\<rparr>, evs) \<and> (\<forall>f. Ev_close f \<notin> set evs))"
proof
  show "\<exists>evs. tcp_connect ((chunk_posix 2 [])\<lparr>px_connect := (\<lambda>_ _ _. (-1, EINPROGRESS)),
        px_getsockopt := (\<lambda>_ _. (0, 111))\<rparr>) (Some \<lparr>server_socket = 0\<rparr>) ''10.42.0.42'' 5025 None 1000 [] =
        ret (0, Some \<lparr>server_socket = 3\<rparr>, evs) \<and> Ev_getsockopt 3 0 111 \<in> set evs"
    using tcp_connect_overlooked_failures [of 3 "(chunk_posix 2 [])\<lparr>px_connect := (\<lambda>_ _ _. (-1, EINPROGRESS)),
        px_getsockopt := (\<lambda>_ _. (0, 111))\<rparr>" "[]" "''10.42.0.42''" 111 "\<lparr>server_socket = 0\<rparr>" 5025 None 1000]
    by (auto simp: peer_defs FD_SETSIZE_def INADDR_NONE_def)
  show "\<exists>evs. tcp_connect ((chunk_posix 2 [])\<lparr>px_inet_addr := (\<lambda>_. INADDR_NONE)\<rparr>) (Some \<lparr>server_socket = 0\<rparr>) ''nohost''
        5025 None 1000 [] = ret (-1, Some \<lparr>server_socket = 3\<rparr>, evs) \<and> (\<forall>f. Ev_close f \<notin> set evs)"
    using tcp_connect_overlooked_failures [of 3 "(chunk_posix 2 [])\<lparr>px_inet_addr := (\<lambda>_. INADDR_NONE)\<rparr>" "[]"
        "''nohost''" 0 "\<lparr>server_socket = 0\<rparr>" 5025 None 1000]
    by (auto simp: peer_defs FD_SETSIZE_def)
qed

section \<open>Connecting returns\<close>

text \<open>
  A process with few enough open files: the kernel hands out the lowest free descriptor, so it is
  below the size of an \<^verbatim>\<open>fd_set\<close>.
\<close>

definition few_files :: "posix \<Rightarrow> bool" where
  "few_files os \<longleftrightarrow> (\<forall>h t. px_socket os h t < FD_SETSIZE)"

lemma tcp_establish_returns:
  assumes "0 \<le> fd" and "fd < FD_SETSIZE"
  shows "\<exists>r h'. tcp_establish os fd opt a tv h = ret (r, h')"
proof -
  obtain k errno h1 where "sys_connect os fd a h = (k, errno, h1)" by (metis prod_cases3)
  then show ?thesis using assms by (auto simp: tcp_establish_def Let_def split: prod.splits)
qed

lemma tcp_connect_returns:
  assumes "few_files os"
  shows "\<exists>r d' new. tcp_connect os (Some d) address port name timeout h = ret (r, Some d', h @ new) \<and>
    (r = 0 \<or> r = -1) \<and> (r = 0 \<longrightarrow> 0 \<le> server_socket d' \<and> server_socket d' < FD_SETSIZE)"
proof -
  obtain fd h1 where 1: "sys_socket os SOCK_STREAM h = (fd, h1)" by force
  obtain opt h2 where 2: "sys_getfl os fd h1 = (opt, h2)" by force
  obtain k h3 where 3: "sys_setfl os fd (opt OR O_NONBLOCK) h2 = (k, h3)" by force
  obtain a h4 where 4: "tcp_resolve os address port h3 = (a, h4)" by force
  have fd: "fd < FD_SETSIZE" using assms 1 by (auto simp: few_files_def sys_socket_def Let_def)
  have est: "0 \<le> fd \<Longrightarrow> \<exists>r h'. tcp_establish os fd opt addr tv h4 = ret (r, h')" for addr tv
    using fd tcp_establish_returns by blast
  note unf = tcp_connect_def 1 Let_def prod.case 2 3 4 option.case
  have "\<exists>r d' h'. tcp_connect os (Some d) address port name timeout h = ret (r, Some d', h') \<and>
      server_socket d' = fd"
  proof (cases "fd < 0 \<or> opt < 0 \<or> k < 0")
    case True
    then show ?thesis unfolding unf by auto
  next
    case False
    show ?thesis
    proof (cases a)
      case None
      with False show ?thesis unfolding unf by auto
    next
      case (Some b)
      moreover obtain r h' where "tcp_establish os fd opt \<lparr>sin_port = word_of_int port, s_addr = b\<rparr>
          (ms_to_timeval timeout) h4 = ret (r, h')"
        using est False by (meson not_less)
      ultimately show ?thesis using False unfolding unf by simp
    qed
  qed
  then obtain r d' h' where run: "tcp_connect os (Some d) address port name timeout h = ret (r, Some d', h')"
    and d': "server_socket d' = fd" by blast
  from tcp_connect_outcome [OF run] run d' fd show ?thesis by auto
qed

end
