(* ===== verification/Rpc_Objects.thy ===== *)
theory Rpc_Objects
  imports Environ
begin

text \<open>
  Untyped pointers. The stubs and the dispatcher hand XDR routines and objects to the RPC
  library as \<^verbatim>\<open>(xdrproc_t) xdr_T\<close> and \<^verbatim>\<open>(caddr_t) &obj\<close>. A routine cast this way is applied to
  the object behind the pointer when that object has its type; the views \<open>as_T\<close> read a pointer
  back at a type.
\<close>

definition xdr_cast :: "(rpc_obj \<Rightarrow> 'a option) \<Rightarrow> ('a \<Rightarrow> rpc_obj) \<Rightarrow> 'a xdrproc \<Rightarrow> rpc_obj xdrproc" where
  "xdr_cast view wrap p x obj =
     (case view obj of
        None \<Rightarrow> (False, x, obj)
      | Some v \<Rightarrow> (case p x v of (ok, x', v') \<Rightarrow> (ok, x', wrap v')))"

definition xdr_void :: "rpc_obj xdrproc" where
  "xdr_void x obj = (True, x, obj)"

fun as_Device_Link :: "rpc_obj \<Rightarrow> Device_Link option" where
  "as_Device_Link (Obj_Device_Link v) = Some v"
| "as_Device_Link _ = None"

fun as_Device_Error :: "rpc_obj \<Rightarrow> Device_Error option" where
  "as_Device_Error (Obj_Device_Error v) = Some v"
| "as_Device_Error _ = None"

fun as_Create_LinkParms :: "rpc_obj \<Rightarrow> Create_LinkParms option" where
  "as_Create_LinkParms (Obj_Create_LinkParms v) = Some v"
| "as_Create_LinkParms _ = None"

fun as_Create_LinkResp :: "rpc_obj \<Rightarrow> Create_LinkResp option" where
  "as_Create_LinkResp (Obj_Create_LinkResp v) = Some v"
| "as_Create_LinkResp _ = None"

fun as_Device_WriteParms :: "rpc_obj \<Rightarrow> Device_WriteParms option" where
  "as_Device_WriteParms (Obj_Device_WriteParms v) = Some v"
| "as_Device_WriteParms _ = None"

fun as_Device_WriteResp :: "rpc_obj \<Rightarrow> Device_WriteResp option" where
  "as_Device_WriteResp (Obj_Device_WriteResp v) = Some v"
| "as_Device_WriteResp _ = None"

fun as_Device_ReadParms :: "rpc_obj \<Rightarrow> Device_ReadParms option" where
  "as_Device_ReadParms (Obj_Device_ReadParms v) = Some v"
| "as_Device_ReadParms _ = None"

fun as_Device_ReadResp :: "rpc_obj \<Rightarrow> Device_ReadResp option" where
  "as_Device_ReadResp (Obj_Device_ReadResp v) = Some v"
| "as_Device_ReadResp _ = None"

fun as_Device_ReadStbResp :: "rpc_obj \<Rightarrow> Device_ReadStbResp option" where
  "as_Device_ReadStbResp (Obj_Device_ReadStbResp v) = Some v"
| "as_Device_ReadStbResp _ = None"

fun as_Device_GenericParms :: "rpc_obj \<Rightarrow> Device_GenericParms option" where
  "as_Device_GenericParms (Obj_Device_GenericParms v) = Some v"
| "as_Device_GenericParms _ = None"

fun as_Device_RemoteFunc :: "rpc_obj \<Rightarrow> Device_RemoteFunc option" where
  "as_Device_RemoteFunc (Obj_Device_RemoteFunc v) = Some v"
| "as_Device_RemoteFunc _ = None"

fun as_Device_EnableSrqParms :: "rpc_obj \<Rightarrow> Device_EnableSrqParms option" where
  "as_Device_EnableSrqParms (Obj_Device_EnableSrqParms v) = Some v"
| "as_Device_EnableSrqParms _ = None"

fun as_Device_LockParms :: "rpc_obj \<Rightarrow> Device_LockParms option" where
  "as_Device_LockParms (Obj_Device_LockParms v) = Some v"
| "as_Device_LockParms _ = None"

fun as_Device_DocmdParms :: "rpc_obj \<Rightarrow> Device_DocmdParms option" where
  "as_Device_DocmdParms (Obj_Device_DocmdParms v) = Some v"
| "as_Device_DocmdParms _ = None"

fun as_Device_DocmdResp :: "rpc_obj \<Rightarrow> Device_DocmdResp option" where
  "as_Device_DocmdResp (Obj_Device_DocmdResp v) = Some v"
| "as_Device_DocmdResp _ = None"

definition xdrproc_Device_Link :: "xdr_lib \<Rightarrow> rpc_obj xdrproc" where
  "xdrproc_Device_Link lib = xdr_cast as_Device_Link Obj_Device_Link (xdr_Device_Link lib)"

definition xdrproc_Device_Error :: "xdr_lib \<Rightarrow> rpc_obj xdrproc" where
  "xdrproc_Device_Error lib = xdr_cast as_Device_Error Obj_Device_Error (xdr_Device_Error lib)"

definition xdrproc_Create_LinkParms :: "xdr_lib \<Rightarrow> rpc_obj xdrproc" where
  "xdrproc_Create_LinkParms lib = xdr_cast as_Create_LinkParms Obj_Create_LinkParms (xdr_Create_LinkParms lib)"

definition xdrproc_Create_LinkResp :: "xdr_lib \<Rightarrow> rpc_obj xdrproc" where
  "xdrproc_Create_LinkResp lib = xdr_cast as_Create_LinkResp Obj_Create_LinkResp (xdr_Create_LinkResp lib)"

definition xdrproc_Device_WriteParms :: "xdr_lib \<Rightarrow> rpc_obj xdrproc" where
  "xdrproc_Device_WriteParms lib = xdr_cast as_Device_WriteParms Obj_Device_WriteParms (xdr_Device_WriteParms lib)"

definition xdrproc_Device_WriteResp :: "xdr_lib \<Rightarrow> rpc_obj xdrproc" where
  "xdrproc_Device_WriteResp lib = xdr_cast as_Device_WriteResp Obj_Device_WriteResp (xdr_Device_WriteResp lib)"

definition xdrproc_Device_ReadParms :: "xdr_lib \<Rightarrow> rpc_obj xdrproc" where
  "xdrproc_Device_ReadParms lib = xdr_cast as_Device_ReadParms Obj_Device_ReadParms (xdr_Device_ReadParms lib)"

definition xdrproc_Device_ReadResp :: "xdr_lib \<Rightarrow> rpc_obj xdrproc" where
  "xdrproc_Device_ReadResp lib = xdr_cast as_Device_ReadResp Obj_Device_ReadResp (xdr_Device_ReadResp lib)"

definition xdrproc_Device_ReadStbResp :: "xdr_lib \<Rightarrow> rpc_obj xdrproc" where
  "xdrproc_Device_ReadStbResp lib = xdr_cast as_Device_ReadStbResp Obj_Device_ReadStbResp (xdr_Device_ReadStbResp lib)"

definition xdrproc_Device_GenericParms :: "xdr_lib \<Rightarrow> rpc_obj xdrproc" where
  "xdrproc_Device_GenericParms lib = xdr_cast as_Device_GenericParms Obj_Device_GenericParms (xdr_Device_GenericParms lib)"

definition xdrproc_Device_RemoteFunc :: "xdr_lib \<Rightarrow> rpc_obj xdrproc" where
  "xdrproc_Device_RemoteFunc lib = xdr_cast as_Device_RemoteFunc Obj_Device_RemoteFunc (xdr_Device_RemoteFunc lib)"

definition xdrproc_Device_EnableSrqParms :: "xdr_lib \<Rightarrow> rpc_obj xdrproc" where
  "xdrproc_Device_EnableSrqParms lib = xdr_cast as_Device_EnableSrqParms Obj_Device_EnableSrqParms (xdr_Device_EnableSrqParms lib)"

definition xdrproc_Device_LockParms :: "xdr_lib \<Rightarrow> rpc_obj xdrproc" where
  "xdrproc_Device_LockParms lib = xdr_cast as_Device_LockParms Obj_Device_LockParms (xdr_Device_LockParms lib)"

definition xdrproc_Device_DocmdParms :: "xdr_lib \<Rightarrow> rpc_obj xdrproc" where
  "xdrproc_Device_DocmdParms lib = xdr_cast as_Device_DocmdParms Obj_Device_DocmdParms (xdr_Device_DocmdParms lib)"

definition xdrproc_Device_DocmdResp :: "xdr_lib \<Rightarrow> rpc_obj xdrproc" where
  "xdrproc_Device_DocmdResp lib = xdr_cast as_Device_DocmdResp Obj_Device_DocmdResp (xdr_Device_DocmdResp lib)"

lemmas xdrproc_defs =
  xdrproc_Device_Link_def
  xdrproc_Device_Error_def
  xdrproc_Create_LinkParms_def
  xdrproc_Create_LinkResp_def
  xdrproc_Device_WriteParms_def
  xdrproc_Device_WriteResp_def
  xdrproc_Device_ReadParms_def
  xdrproc_Device_ReadResp_def
  xdrproc_Device_ReadStbResp_def
  xdrproc_Device_GenericParms_def
  xdrproc_Device_RemoteFunc_def
  xdrproc_Device_EnableSrqParms_def
  xdrproc_Device_LockParms_def
  xdrproc_Device_DocmdParms_def
  xdrproc_Device_DocmdResp_def

end
