(* ===== verification/Vxi11core_clnt.thy ===== *)
theory Vxi11core_clnt
  imports Rpc_Objects
begin

text \<open>
  The client stubs of \<^verbatim>\<open>src/src/vxi11core_clnt.c\<close>: each hands its procedure number, the XDR
  routines of its argument and result and the default timeout to \<^verbatim>\<open>clnt_call\<close>. The result object
  is returned as it is after the call.
\<close>

definition TIMEOUT :: timeval where
  "TIMEOUT = \<lparr>tv_sec = 25, tv_usec = 0\<rparr>"

definition call_stub ::
    "rpc \<Rightarrow> CLIENT \<Rightarrow> nat \<Rightarrow> rpc_obj xdrproc \<Rightarrow> rpc_obj \<Rightarrow> rpc_obj xdrproc \<Rightarrow> rpc_obj \<Rightarrow>
     (rpc_obj \<Rightarrow> 'r option) \<Rightarrow> 'r \<Rightarrow> hist \<Rightarrow> (int \<times> 'r \<times> hist) c" where
  "call_stub net clnt proc xargs argsp xres resp view old h =
     cbind (sys_clnt_call net clnt proc xargs argsp xres resp TIMEOUT h)
       (\<lambda>(stat, res, h). ret (stat, case view res of Some r \<Rightarrow> r | None \<Rightarrow> old, h))"

definition device_abort_1 ::
    "rpc \<Rightarrow> xdr_lib \<Rightarrow> Device_Link \<Rightarrow> Device_Error \<Rightarrow> CLIENT \<Rightarrow> hist \<Rightarrow> (int \<times> Device_Error \<times> hist) c" where
  "device_abort_1 net lib argp clnt_res clnt h =
     call_stub net clnt device_abort (xdrproc_Device_Link lib) (Obj_Device_Link argp)
       (xdrproc_Device_Error lib) (Obj_Device_Error clnt_res) as_Device_Error clnt_res h"

definition create_link_1 ::
    "rpc \<Rightarrow> xdr_lib \<Rightarrow> Create_LinkParms \<Rightarrow> Create_LinkResp \<Rightarrow> CLIENT \<Rightarrow> hist \<Rightarrow> (int \<times> Create_LinkResp \<times> hist) c" where
  "create_link_1 net lib argp clnt_res clnt h =
     call_stub net clnt create_link (xdrproc_Create_LinkParms lib) (Obj_Create_LinkParms argp)
       (xdrproc_Create_LinkResp lib) (Obj_Create_LinkResp clnt_res) as_Create_LinkResp clnt_res h"

definition device_write_1 ::
    "rpc \<Rightarrow> xdr_lib \<Rightarrow> Device_WriteParms \<Rightarrow> Device_WriteResp \<Rightarrow> CLIENT \<Rightarrow> hist \<Rightarrow> (int \<times> Device_WriteResp \<times> hist) c" where
  "device_write_1 net lib argp clnt_res clnt h =
     call_stub net clnt device_write (xdrproc_Device_WriteParms lib) (Obj_Device_WriteParms argp)
       (xdrproc_Device_WriteResp lib) (Obj_Device_WriteResp clnt_res) as_Device_WriteResp clnt_res h"

definition device_read_1 ::
    "rpc \<Rightarrow> xdr_lib \<Rightarrow> Device_ReadParms \<Rightarrow> Device_ReadResp \<Rightarrow> CLIENT \<Rightarrow> hist \<Rightarrow> (int \<times> Device_ReadResp \<times> hist) c" where
  "device_read_1 net lib argp clnt_res clnt h =
     call_stub net clnt device_read (xdrproc_Device_ReadParms lib) (Obj_Device_ReadParms argp)
       (xdrproc_Device_ReadResp lib) (Obj_Device_ReadResp clnt_res) as_Device_ReadResp clnt_res h"

definition device_readstb_1 ::
    "rpc \<Rightarrow> xdr_lib \<Rightarrow> Device_GenericParms \<Rightarrow> Device_ReadStbResp \<Rightarrow> CLIENT \<Rightarrow> hist \<Rightarrow> (int \<times> Device_ReadStbResp \<times> hist) c" where
  "device_readstb_1 net lib argp clnt_res clnt h =
     call_stub net clnt device_readstb (xdrproc_Device_GenericParms lib) (Obj_Device_GenericParms argp)
       (xdrproc_Device_ReadStbResp lib) (Obj_Device_ReadStbResp clnt_res) as_Device_ReadStbResp clnt_res h"

definition device_trigger_1 ::
    "rpc \<Rightarrow> xdr_lib \<Rightarrow> Device_GenericParms \<Rightarrow> Device_Error \<Rightarrow> CLIENT \<Rightarrow> hist \<Rightarrow> (int \<times> Device_Error \<times> hist) c" where
  "device_trigger_1 net lib argp clnt_res clnt h =
     call_stub net clnt device_trigger (xdrproc_Device_GenericParms lib) (Obj_Device_GenericParms argp)
       (xdrproc_Device_Error lib) (Obj_Device_Error clnt_res) as_Device_Error clnt_res h"

definition device_clear_1 ::
    "rpc \<Rightarrow> xdr_lib \<Rightarrow> Device_GenericParms \<Rightarrow> Device_Error \<Rightarrow> CLIENT \<Rightarrow> hist \<Rightarrow> (int \<times> Device_Error \<times> hist) c" where
  "device_clear_1 net lib argp clnt_res clnt h =
     call_stub net clnt device_clear (xdrproc_Device_GenericParms lib) (Obj_Device_GenericParms argp)
       (xdrproc_Device_Error lib) (Obj_Device_Error clnt_res) as_Device_Error clnt_res h"

definition device_remote_1 ::
    "rpc \<Rightarrow> xdr_lib \<Rightarrow> Device_GenericParms \<Rightarrow> Device_Error \<Rightarrow> CLIENT \<Rightarrow> hist \<Rightarrow> (int \<times> Device_Error \<times> hist) c" where
  "device_remote_1 net lib argp clnt_res clnt h =
     call_stub net clnt device_remote (xdrproc_Device_GenericParms lib) (Obj_Device_GenericParms argp)
       (xdrproc_Device_Error lib) (Obj_Device_Error clnt_res) as_Device_Error clnt_res h"

definition device_local_1 ::
    "rpc \<Rightarrow> xdr_lib \<Rightarrow> Device_GenericParms \<Rightarrow> Device_Error \<Rightarrow> CLIENT \<Rightarrow> hist \<Rightarrow> (int \<times> Device_Error \<times> hist) c" where
  "device_local_1 net lib argp clnt_res clnt h =
     call_stub net clnt device_local (xdrproc_Device_GenericParms lib) (Obj_Device_GenericParms argp)
       (xdrproc_Device_Error lib) (Obj_Device_Error clnt_res) as_Device_Error clnt_res h"

definition device_lock_1 ::
    "rpc \<Rightarrow> xdr_lib \<Rightarrow> Device_LockParms \<Rightarrow> Device_Error \<Rightarrow> CLIENT \<Rightarrow> hist \<Rightarrow> (int \<times> Device_Error \<times> hist) c" where
  "device_lock_1 net lib argp clnt_res clnt h =
     call_stub net clnt device_lock (xdrproc_Device_LockParms lib) (Obj_Device_LockParms argp)
       (xdrproc_Device_Error lib) (Obj_Device_Error clnt_res) as_Device_Error clnt_res h"

definition device_unlock_1 ::
    "rpc \<Rightarrow> xdr_lib \<Rightarrow> Device_Link \<Rightarrow> Device_Error \<Rightarrow> CLIENT \<Rightarrow> hist \<Rightarrow> (int \<times> Device_Error \<times> hist) c" where
  "device_unlock_1 net lib argp clnt_res clnt h =
     call_stub net clnt device_unlock (xdrproc_Device_Link lib) (Obj_Device_Link argp)
       (xdrproc_Device_Error lib) (Obj_Device_Error clnt_res) as_Device_Error clnt_res h"

definition device_enable_srq_1 ::
    "rpc \<Rightarrow> xdr_lib \<Rightarrow> Device_EnableSrqParms \<Rightarrow> Device_Error \<Rightarrow> CLIENT \<Rightarrow> hist \<Rightarrow> (int \<times> Device_Error \<times> hist) c" where
  "device_enable_srq_1 net lib argp clnt_res clnt h =
     call_stub net clnt device_enable_srq (xdrproc_Device_EnableSrqParms lib) (Obj_Device_EnableSrqParms argp)
       (xdrproc_Device_Error lib) (Obj_Device_Error clnt_res) as_Device_Error clnt_res h"

definition device_docmd_1 ::
    "rpc \<Rightarrow> xdr_lib \<Rightarrow> Device_DocmdParms \<Rightarrow> Device_DocmdResp \<Rightarrow> CLIENT \<Rightarrow> hist \<Rightarrow> (int \<times> Device_DocmdResp \<times> hist) c" where
  "device_docmd_1 net lib argp clnt_res clnt h =
     call_stub net clnt device_docmd (xdrproc_Device_DocmdParms lib) (Obj_Device_DocmdParms argp)
       (xdrproc_Device_DocmdResp lib) (Obj_Device_DocmdResp clnt_res) as_Device_DocmdResp clnt_res h"

definition destroy_link_1 ::
    "rpc \<Rightarrow> xdr_lib \<Rightarrow> Device_Link \<Rightarrow> Device_Error \<Rightarrow> CLIENT \<Rightarrow> hist \<Rightarrow> (int \<times> Device_Error \<times> hist) c" where
  "destroy_link_1 net lib argp clnt_res clnt h =
     call_stub net clnt destroy_link (xdrproc_Device_Link lib) (Obj_Device_Link argp)
       (xdrproc_Device_Error lib) (Obj_Device_Error clnt_res) as_Device_Error clnt_res h"

definition create_intr_chan_1 ::
    "rpc \<Rightarrow> xdr_lib \<Rightarrow> Device_RemoteFunc \<Rightarrow> Device_Error \<Rightarrow> CLIENT \<Rightarrow> hist \<Rightarrow> (int \<times> Device_Error \<times> hist) c" where
  "create_intr_chan_1 net lib argp clnt_res clnt h =
     call_stub net clnt create_intr_chan (xdrproc_Device_RemoteFunc lib) (Obj_Device_RemoteFunc argp)
       (xdrproc_Device_Error lib) (Obj_Device_Error clnt_res) as_Device_Error clnt_res h"

definition destroy_intr_chan_1 ::
    "rpc \<Rightarrow> xdr_lib \<Rightarrow> Device_Error \<Rightarrow> CLIENT \<Rightarrow> hist \<Rightarrow> (int \<times> Device_Error \<times> hist) c" where
  "destroy_intr_chan_1 net lib clnt_res clnt h =
     call_stub net clnt destroy_intr_chan xdr_void Obj_void
       (xdrproc_Device_Error lib) (Obj_Device_Error clnt_res) as_Device_Error clnt_res h"

lemma call_stub_Some:
  "call_stub net (Some cl) proc xargs argsp xres resp view old h =
     (case rpc_call net h cl proc xargs argsp xres resp TIMEOUT of
        (stat, res) \<Rightarrow> ret (stat, case view res of Some r \<Rightarrow> r | None \<Rightarrow> old,
                           h @ [Ev_clnt_call cl proc argsp stat res]))"
  by (simp add: call_stub_def sys_clnt_call_def split: prod.splits)

lemma call_stub_None [simp]: "call_stub net None proc xargs argsp xres resp view old h = fail Null_Deref"
  by (simp add: call_stub_def sys_clnt_call_def)

end
