(* ===== verification/Xdr_Codec.thy ===== *)
theory Xdr_Codec
  imports Vxi11core_xdr
begin

text \<open>
  The contract between the generated XDR routines and their users. The locales
  \<open>xdr_encoder\<close> and \<open>xdr_decoder\<close> say what a routine, or a part of one, does to a stream: which
  bytes it writes, when it runs out of room, and which part of the object it reads back;
  \<open>xdr_codec\<close> covers the whole object both ways, and its lemma is the round trip. The locale \<open>rfc4506\<close> collects what the RPC library documents of
  its primitives, and its sublocales show that each routine of \<^verbatim>\<open>vxi11core_xdr.c\<close> is a codec
  for the layout of RFC 4506. The memory stream at the end is a library that fulfils the
  contract.
\<close>

section \<open>Stream positions\<close>

definition fits :: "XDR \<Rightarrow> bytes \<Rightarrow> bool" where
  "fits x bs \<longleftrightarrow> x_pos x + length bs \<le> length (x_buf x)"

definition emit :: "XDR \<Rightarrow> bytes \<Rightarrow> XDR" where
  "emit x bs = x\<lparr>x_buf := overwrite (x_buf x) (x_pos x) bs, x_pos := x_pos x + length bs\<rparr>"

definition skip :: "XDR \<Rightarrow> nat \<Rightarrow> XDR" where
  "skip x n = x\<lparr>x_pos := x_pos x + n\<rparr>"

text \<open>The bytes a stream has still to read, and a stream set to read from an earlier position.\<close>

definition pending :: "XDR \<Rightarrow> bytes" where
  "pending x = drop (x_pos x) (x_buf x)"

definition reread :: "XDR \<Rightarrow> nat \<Rightarrow> XDR" where
  "reread x pos = x\<lparr>x_op := XDR_DECODE, x_pos := pos\<rparr>"

lemma stream_simps [simp]:
  "x_op (emit x bs) = x_op x" "x_pos (emit x bs) = x_pos x + length bs"
  "x_op (skip x n) = x_op x" "x_pos (skip x n) = x_pos x + n" "x_buf (skip x n) = x_buf x"
  "pending (skip x n) = drop n (pending x)"
  "skip (skip x m) n = skip x (m + n)" "skip x 0 = x"
  "x_op (reread x pos) = XDR_DECODE" "x_pos (reread x pos) = pos" "x_buf (reread x pos) = x_buf x"
  by (simp_all add: emit_def skip_def pending_def reread_def add.commute)

lemma fits_append: "fits x (as @ bs) \<longleftrightarrow> fits x as \<and> fits (emit x as) bs"
  by (auto simp: fits_def emit_def)

lemma emit_emit:
  "fits x as \<Longrightarrow> fits (emit x as) bs \<Longrightarrow> emit (emit x as) bs = emit x (as @ bs)"
  by (simp add: fits_def emit_def overwrite_append add.assoc)

lemma emit_Nil [simp]: "emit x [] = x"
  by (simp add: emit_def)

lemma pending_emit:
  "fits x bs \<Longrightarrow> pending (reread (emit x bs) (x_pos x)) = bs @ drop (length bs) (pending x)"
  by (simp add: fits_def emit_def pending_def reread_def overwrite_def add.commute)

section \<open>Encoders, decoders and codecs\<close>

text \<open>
  An encoder appends the bytes \<open>enc v\<close> and leaves the object alone; a decoder of a part of an
  object assigns that part. A codec is both, for the whole object.
\<close>

locale xdr_encoder =
  fixes proc :: "'a xdrproc"
    and valid :: "'a \<Rightarrow> bool"
    and enc :: "'a \<Rightarrow> bytes"
  assumes encode:
    "x_op x = XDR_ENCODE \<Longrightarrow> valid v \<Longrightarrow> fits x (enc v) \<Longrightarrow> proc x v = (True, emit x (enc v), v)"
    and encode_full:
    "x_op x = XDR_ENCODE \<Longrightarrow> valid v \<Longrightarrow> \<not> fits x (enc v) \<Longrightarrow> \<not> fst (proc x v)"

locale xdr_decoder =
  fixes proc :: "'a xdrproc"
    and valid :: "'a \<Rightarrow> bool"
    and enc :: "'a \<Rightarrow> bytes"
    and assign :: "'a \<Rightarrow> 'a \<Rightarrow> 'a"
  assumes decode:
    "x_op x = XDR_DECODE \<Longrightarrow> valid v \<Longrightarrow> pending x = enc v @ rest \<Longrightarrow>
       proc x v0 = (True, skip x (length (enc v)), assign v v0)"

locale xdr_codec = xdr_encoder proc valid enc + xdr_decoder proc valid enc "\<lambda>v _. v"
  for proc :: "'a xdrproc" and valid :: "'a \<Rightarrow> bool" and enc :: "'a \<Rightarrow> bytes"
begin

lemma roundtrip:
  assumes "x_op x = XDR_ENCODE" and "valid v" and "fits x (enc v)"
  shows "\<exists>x'. proc x v = (True, x', v) \<and>
    proc (reread x' (x_pos x)) v0 = (True, skip (reread x' (x_pos x)) (length (enc v)), v)"
proof -
  have "pending (reread (emit x (enc v)) (x_pos x)) = enc v @ drop (length (enc v)) (pending x)"
    using assms(3) by (simp add: pending_emit)
  then have "proc (reread (emit x (enc v)) (x_pos x)) v0 =
      (True, skip (reread (emit x (enc v)) (x_pos x)) (length (enc v)), v)"
    using assms(2) by (simp add: decode)
  with encode [OF assms] show ?thesis by blast
qed

text \<open>Two objects with the same bytes are the same object, so the layout is unambiguous.\<close>

lemma enc_inject: "valid v \<Longrightarrow> valid w \<Longrightarrow> enc v @ r = enc w @ s \<Longrightarrow> v = w"
  using decode [of "\<lparr>x_op = XDR_DECODE, x_buf = enc v @ r, x_pos = 0\<rparr>" v r v]
    decode [of "\<lparr>x_op = XDR_DECODE, x_buf = enc w @ s, x_pos = 0\<rparr>" w s v]
  by (simp add: pending_def)

end

section \<open>Composition\<close>

named_theorems enc_intros \<open>how the encoding side of a routine composes\<close>
named_theorems dec_intros \<open>how the decoding side of a routine composes\<close>

lemma xdr_codecI:
  "xdr_encoder p V e \<Longrightarrow> xdr_decoder p V e (\<lambda>v _. v) \<Longrightarrow> xdr_codec p V e"
  by (simp add: xdr_codec_def)

lemma xdr_encoder_cong:
  assumes "xdr_encoder p V e"
    and "\<And>v. V' v \<Longrightarrow> V v" and "\<And>v. V' v \<Longrightarrow> e' v = e v"
  shows "xdr_encoder p V' e'"
  using assms by unfold_locales
    (simp_all add: xdr_encoder.encode [OF assms(1)] xdr_encoder.encode_full [OF assms(1)])

lemma xdr_decoder_cong:
  assumes "xdr_decoder p V e s"
    and "\<And>v. V' v \<Longrightarrow> V v" and "\<And>v. V' v \<Longrightarrow> e' v = e v" and "\<And>v v0. V' v \<Longrightarrow> s' v v0 = s v v0"
  shows "xdr_decoder p V' e' s'"
proof
  fix x v rest v0
  assume "x_op x = XDR_DECODE" and "V' v" and "pending x = e' v @ rest"
  with xdr_decoder.decode [OF assms(1), of x v rest v0] assms(2,3,4)
  show "p x v0 = (True, skip x (length (e' v)), s' v v0)" by simp
qed

lemma xdr_encoder_xthen [enc_intros]:
  assumes f: "xdr_encoder f V e" and g: "xdr_encoder g W e'"
  shows "xdr_encoder (xthen f g) (\<lambda>v. V v \<and> W v) (\<lambda>v. e v @ e' v)"
proof
  fix x :: XDR and v
  assume op: "x_op x = XDR_ENCODE" and V: "V v \<and> W v"
  { assume "fits x (e v @ e' v)"
    then have *: "fits x (e v)" "fits (emit x (e v)) (e' v)" by (simp_all add: fits_append)
    then have "f x v = (True, emit x (e v), v)"
      and "g (emit x (e v)) v = (True, emit x (e v @ e' v), v)"
      using op V emit_emit [OF *] by (simp_all add: xdr_encoder.encode [OF f] xdr_encoder.encode [OF g])
    then show "xthen f g x v = (True, emit x (e v @ e' v), v)" by (simp add: xthen_def) }
  assume full: "\<not> fits x (e v @ e' v)"
  show "\<not> fst (xthen f g x v)"
  proof (cases "fits x (e v)")
    case True
    with op V have "f x v = (True, emit x (e v), v)" by (simp add: xdr_encoder.encode [OF f])
    moreover from True full have "\<not> fits (emit x (e v)) (e' v)" by (simp add: fits_append)
    ultimately show ?thesis using op V xdr_encoder.encode_full [OF g, of "emit x (e v)" v]
      by (simp add: xthen_def)
  next
    case False
    with xdr_encoder.encode_full [OF f op _ False] V show ?thesis
      by (auto simp: xthen_def split: prod.splits)
  qed
qed

lemma xdr_decoder_xthen [dec_intros]:
  assumes f: "xdr_decoder f V e s" and g: "xdr_decoder g W e' s'"
  shows "xdr_decoder (xthen f g) (\<lambda>v. V v \<and> W v) (\<lambda>v. e v @ e' v) (\<lambda>v v0. s' v (s v v0))"
proof
  fix x v rest v0
  assume op: "x_op x = XDR_DECODE" and V: "V v \<and> W v" and p: "pending x = (e v @ e' v) @ rest"
  then have 1: "f x v0 = (True, skip x (length (e v)), s v v0)"
    using xdr_decoder.decode [OF f op, of v "e' v @ rest"] by simp
  have "g (skip x (length (e v))) (s v v0) =
      (True, skip (skip x (length (e v))) (length (e' v)), s' v (s v v0))"
    using op V p by (intro xdr_decoder.decode [OF g, where rest = rest]) simp_all
  with 1 show "xthen f g x v0 = (True, skip x (length (e v @ e' v)), s' v (s v v0))"
    by (simp add: xthen_def)
qed

text \<open>A field: the lens law holds of every record field by simplification.\<close>

lemma xdr_encoder_xfield [enc_intros]:
  assumes p: "xdr_codec p V e" and lens: "\<And>v. upd (\<lambda>_. get v) v = v"
  shows "xdr_encoder (xfield p get upd) (\<lambda>v. V (get v)) (\<lambda>v. e (get v))"
proof
  note enc = xdr_codec.axioms(1) [OF p]
  fix x :: XDR and v
  assume op: "x_op x = XDR_ENCODE" and V: "V (get v)"
  { assume "fits x (e (get v))"
    with op V lens show "xfield p get upd x v = (True, emit x (e (get v)), v)"
      by (simp add: xfield_def xdr_encoder.encode [OF enc]) }
  assume "\<not> fits x (e (get v))"
  with xdr_encoder.encode_full [OF enc op V] show "\<not> fst (xfield p get upd x v)"
    by (auto simp: xfield_def split: prod.splits)
qed

lemma xdr_decoder_xfield [dec_intros]:
  assumes p: "xdr_codec p V e"
  shows "xdr_decoder (xfield p get upd) (\<lambda>v. V (get v)) (\<lambda>v. e (get v)) (\<lambda>v. upd (\<lambda>_. get v))"
proof
  fix x v rest v0
  assume "x_op x = XDR_DECODE" and "V (get v)" and "pending x = e (get v) @ rest"
  from xdr_decoder.decode [OF xdr_codec.axioms(2) [OF p] this]
  show "xfield p get upd x v0 = (True, skip x (length (e (get v))), upd (\<lambda>_. get v) v0)"
    by (simp add: xfield_def)
qed

text \<open>The routines that test the direction of the stream.\<close>

lemma xdr_encoder_by_op [enc_intros]:
  assumes "xdr_encoder f V e"
  shows "xdr_encoder (\<lambda>x. case x_op x of XDR_ENCODE \<Rightarrow> f x | XDR_DECODE \<Rightarrow> g x | XDR_FREE \<Rightarrow> h x) V e"
  using assms unfolding xdr_encoder_def by auto

lemma xdr_decoder_by_op [dec_intros]:
  assumes "xdr_decoder g V e s"
  shows "xdr_decoder (\<lambda>x. case x_op x of XDR_ENCODE \<Rightarrow> f x | XDR_DECODE \<Rightarrow> g x | XDR_FREE \<Rightarrow> h x) V e s"
  using assms unfolding xdr_decoder_def by auto

text \<open>A block of units: the inlined stores write the bytes the slow path writes, and the inlined loads read them.\<close>

definition be32_run :: "32 word list \<Rightarrow> bytes" where
  "be32_run ws = concat (map be32 ws)"

lemma be32_run_simps [simp]:
  "be32_run [] = []" "be32_run (w # ws) = be32 w @ be32_run ws" "length (be32_run ws) = 4 * length ws"
  by (simp_all add: be32_run_def length_concat) (induction ws; simp)

section \<open>What the RPC library documents (RFC 4506)\<close>

definition be_bool :: "32 word \<Rightarrow> bool" where
  "be_bool b \<longleftrightarrow> b = 0 \<or> b = 1"

definition xdr_pad :: "nat \<Rightarrow> bytes" where
  "xdr_pad n = replicate ((4 - n mod 4) mod 4) 0"

definition enc_run :: "bytes \<Rightarrow> bytes" where
  "enc_run bs = be32 (word_of_nat (length bs)) @ bs @ xdr_pad (length bs)"

definition enc_string :: "bytes option \<Rightarrow> bytes" where
  "enc_string s = (case s of None \<Rightarrow> [] | Some bs \<Rightarrow> enc_run bs)"

definition enc_opaque :: "opaque \<Rightarrow> bytes" where
  "enc_opaque d = enc_string (op_val d)"

definition valid_string :: "32 word \<Rightarrow> bytes option \<Rightarrow> bool" where
  "valid_string m s \<longleftrightarrow> (\<exists>bs. s = Some bs \<and> 0 \<notin> set bs \<and> length bs \<le> unat m)"

definition valid_opaque :: "32 word \<Rightarrow> opaque \<Rightarrow> bool" where
  "valid_opaque m d \<longleftrightarrow> (\<exists>bs. op_val d = Some bs \<and> unat (op_len d) = length bs \<and> length bs \<le> unat m)"

locale rfc4506 =
  fixes lib :: xdr_lib
  assumes int: "xdr_codec (xdr_int lib) (\<lambda>_. True) be32"
    and u_int: "xdr_codec (xdr_u_int lib) (\<lambda>_. True) be32"
    and enum: "xdr_codec (xdr_enum lib) (\<lambda>_. True) be32"
    and bool: "xdr_codec (xdr_bool lib) be_bool be32"
    and u_short: "xdr_codec (xdr_u_short lib) (\<lambda>_. True) (\<lambda>v. be32 (ucast v))"
    and char: "xdr_codec (xdr_char lib) (\<lambda>_. True) (\<lambda>v. be32 (scast v))"
    and u_char: "xdr_codec (xdr_u_char lib) (\<lambda>_. True) (\<lambda>v. be32 (ucast v))"
    and string: "xdr_codec (xdr_string lib m) (valid_string m) enc_string"
    and bytes: "xdr_codec (xdr_bytes lib m) (valid_opaque m) enc_opaque"
    and inline: "XDR_INLINE lib x n = (Some b, x') \<Longrightarrow> x_op x \<noteq> XDR_FREE \<Longrightarrow>
      x_pos x + n \<le> length (x_buf x) \<and> b = x_pos x \<and> x' = skip x n"
    and inline_null: "XDR_INLINE lib x n = (None, x') \<Longrightarrow> x' = x"
    and put: "b + 4 \<le> length (x_buf x) \<Longrightarrow>
      IXDR_PUT lib x b w = x\<lparr>x_buf := overwrite (x_buf x) b (be32 w)\<rparr>"
    and get: "b + 4 \<le> length (x_buf x) \<Longrightarrow> IXDR_GET lib x b = get32 (drop b (x_buf x))"
begin

lemma put_run:
  "b + 4 * length ws \<le> length (x_buf x) \<Longrightarrow>
    ixdr_put_run lib x b ws = x\<lparr>x_buf := overwrite (x_buf x) b (be32_run ws)\<rparr>"
proof (induction ws arbitrary: x b)
  case Nil
  then show ?case by simp
next
  case (Cons w ws)
  then have "ixdr_put_run lib x b (w # ws) =
      x\<lparr>x_buf := overwrite (overwrite (x_buf x) b (be32 w)) (b + length (be32 w)) (be32_run ws)\<rparr>"
    by (simp add: put BYTES_PER_XDR_UNIT_def)
  also have "\<dots> = x\<lparr>x_buf := overwrite (x_buf x) b (be32 w @ be32_run ws)\<rparr>"
    using Cons.prems by (subst overwrite_append) simp_all
  finally show ?case by simp
qed

lemma get_run:
  "drop b (x_buf x) = be32_run ws @ rest \<Longrightarrow> ixdr_get_run lib x b (length ws) = ws"
proof (induction ws arbitrary: b)
  case Nil
  then show ?case by simp
next
  case (Cons w ws)
  have "length (drop b (x_buf x)) = length (be32_run (w # ws) @ rest)"
    by (simp only: Cons.prems)
  then have len: "b + 4 \<le> length (x_buf x)" by simp
  have "drop (b + 4) (x_buf x) = drop 4 (drop b (x_buf x))" by (simp add: add.commute)
  also have "\<dots> = be32_run ws @ rest" using Cons.prems by simp
  finally have "ixdr_get_run lib x (b + 4) (length ws) = ws" by (rule Cons.IH)
  moreover have "IXDR_GET lib x b = w" using Cons.prems len by (simp add: get)
  ultimately show ?case by (simp add: BYTES_PER_XDR_UNIT_def)
qed

lemma encoder_inline:
  assumes slow: "xdr_encoder slow V e"
    and words: "\<And>v. V v \<Longrightarrow> length (words v) = n" "\<And>v. V v \<Longrightarrow> e v = be32_run (words v)"
  shows "xdr_encoder (xinline_put lib n slow words) V e"
proof
  fix x :: XDR and v
  assume op: "x_op x = XDR_ENCODE" and V: "V v"
  note len = words(1) [OF V] and e = words(2) [OF V]
  have null: "xinline_put lib n slow words x v = slow x v"
    if "XDR_INLINE lib x (n * BYTES_PER_XDR_UNIT) = (None, x')" for x'
    using that inline_null [OF that] by (simp add: xinline_put_def)
  have fast: "fits x (e v) \<and> xinline_put lib n slow words x v = (True, emit x (e v), v)"
    if "XDR_INLINE lib x (n * BYTES_PER_XDR_UNIT) = (Some b, x')" for b x'
    using that inline [OF that] op len e
    by (simp add: xinline_put_def put_run fits_def emit_def skip_def BYTES_PER_XDR_UNIT_def
        mult.commute)
  obtain r x' where inl: "XDR_INLINE lib x (n * BYTES_PER_XDR_UNIT) = (r, x')" by force
  { assume "fits x (e v)"
    then show "xinline_put lib n slow words x v = (True, emit x (e v), v)"
      using inl null fast op V by (cases r) (simp_all add: xdr_encoder.encode [OF slow]) }
  assume "\<not> fits x (e v)"
  then show "\<not> fst (xinline_put lib n slow words x v)"
    using inl null fast op V by (cases r) (simp_all add: xdr_encoder.encode_full [OF slow])
qed

lemma decoder_inline:
  assumes slow: "xdr_decoder slow V e s"
    and words: "\<And>v. V v \<Longrightarrow> length (words v) = n" "\<And>v. V v \<Longrightarrow> e v = be32_run (words v)"
    and store: "\<And>v v0. V v \<Longrightarrow> store (words v) v0 = s v v0"
  shows "xdr_decoder (xinline_get lib n slow store) V e s"
proof
  fix x v rest v0
  assume op: "x_op x = XDR_DECODE" and V: "V v" and p: "pending x = e v @ rest"
  obtain r x' where inl: "XDR_INLINE lib x (n * BYTES_PER_XDR_UNIT) = (r, x')" by force
  show "xinline_get lib n slow store x v0 = (True, skip x (length (e v)), s v v0)"
  proof (cases r)
    case None
    with inl inline_null [of x _ x'] have "xinline_get lib n slow store x v0 = slow x v0"
      by (auto simp: xinline_get_def)
    then show ?thesis using op V p by (simp add: xdr_decoder.decode [OF slow])
  next
    case (Some b)
    with inl inline [of x] op have b: "b = x_pos x" "x' = skip x (n * 4)"
      by (simp_all add: BYTES_PER_XDR_UNIT_def)
    from p words(2) [OF V] have "ixdr_get_run lib x' b (length (words v)) = words v"
      by (intro get_run [where rest = rest]) (simp add: b pending_def)
    then show ?thesis using inl Some V words store b
      by (simp add: xinline_get_def mult.commute)
  qed
qed

end

section \<open>The layout of each struct\<close>

text \<open>
  The reference: RFC 4506 lays a struct out field by field, in the order of its declaration,
  each field in a whole number of four-byte units. An object is valid when C can hold it and
  the layout can carry it: a boolean is 0 or 1, a string has no NUL, a counted run of bytes
  has as many bytes as its count says and no more than its bound.
\<close>

definition enc_Device_Error :: "Device_Error \<Rightarrow> bytes" where
  "enc_Device_Error v =
     be32 (de_error v)"

definition enc_Create_LinkParms :: "Create_LinkParms \<Rightarrow> bytes" where
  "enc_Create_LinkParms v =
     be32 (clp_clientId v) @ be32 (clp_lockDevice v) @ be32 (clp_lock_timeout v) @
     enc_string (clp_device v)"

definition valid_Create_LinkParms :: "Create_LinkParms \<Rightarrow> bool" where
  "valid_Create_LinkParms v \<longleftrightarrow> be_bool (clp_lockDevice v) \<and> valid_string xdr_unbounded (clp_device v)"

definition enc_Create_LinkResp :: "Create_LinkResp \<Rightarrow> bytes" where
  "enc_Create_LinkResp v =
     be32 (clr_error v) @ be32 (clr_lid v) @ be32 (ucast (clr_abortPort v)) @
     be32 (clr_maxRecvSize v)"

definition enc_Device_WriteParms :: "Device_WriteParms \<Rightarrow> bytes" where
  "enc_Device_WriteParms v =
     be32 (dwp_lid v) @ be32 (dwp_io_timeout v) @ be32 (dwp_lock_timeout v) @
     be32 (dwp_flags v) @ enc_opaque (dwp_data v)"

definition valid_Device_WriteParms :: "Device_WriteParms \<Rightarrow> bool" where
  "valid_Device_WriteParms v \<longleftrightarrow> valid_opaque xdr_unbounded (dwp_data v)"

definition enc_Device_WriteResp :: "Device_WriteResp \<Rightarrow> bytes" where
  "enc_Device_WriteResp v =
     be32 (dwr_error v) @ be32 (dwr_size v)"

definition enc_Device_ReadParms :: "Device_ReadParms \<Rightarrow> bytes" where
  "enc_Device_ReadParms v =
     be32 (drp_lid v) @ be32 (drp_requestSize v) @ be32 (drp_io_timeout v) @
     be32 (drp_lock_timeout v) @ be32 (drp_flags v) @ be32 (scast (drp_termChar v))"

definition enc_Device_ReadResp :: "Device_ReadResp \<Rightarrow> bytes" where
  "enc_Device_ReadResp v =
     be32 (drr_error v) @ be32 (drr_reason v) @ enc_opaque (drr_data v)"

definition valid_Device_ReadResp :: "Device_ReadResp \<Rightarrow> bool" where
  "valid_Device_ReadResp v \<longleftrightarrow> valid_opaque xdr_unbounded (drr_data v)"

definition enc_Device_ReadStbResp :: "Device_ReadStbResp \<Rightarrow> bytes" where
  "enc_Device_ReadStbResp v =
     be32 (dsr_error v) @ be32 (ucast (dsr_stb v))"

definition enc_Device_GenericParms :: "Device_GenericParms \<Rightarrow> bytes" where
  "enc_Device_GenericParms v =
     be32 (dgp_lid v) @ be32 (dgp_flags v) @ be32 (dgp_lock_timeout v) @
     be32 (dgp_io_timeout v)"

definition enc_Device_RemoteFunc :: "Device_RemoteFunc \<Rightarrow> bytes" where
  "enc_Device_RemoteFunc v =
     be32 (drf_hostAddr v) @ be32 (drf_hostPort v) @ be32 (drf_progNum v) @
     be32 (drf_progVers v) @ be32 (drf_progFamily v)"

definition enc_Device_EnableSrqParms :: "Device_EnableSrqParms \<Rightarrow> bytes" where
  "enc_Device_EnableSrqParms v =
     be32 (dep_lid v) @ be32 (dep_enable v) @ enc_opaque (dep_handle v)"

definition valid_Device_EnableSrqParms :: "Device_EnableSrqParms \<Rightarrow> bool" where
  "valid_Device_EnableSrqParms v \<longleftrightarrow> be_bool (dep_enable v) \<and> valid_opaque 40 (dep_handle v)"

definition enc_Device_LockParms :: "Device_LockParms \<Rightarrow> bytes" where
  "enc_Device_LockParms v =
     be32 (dlp_lid v) @ be32 (dlp_flags v) @ be32 (dlp_lock_timeout v)"

definition enc_Device_DocmdParms :: "Device_DocmdParms \<Rightarrow> bytes" where
  "enc_Device_DocmdParms v =
     be32 (ddp_lid v) @ be32 (ddp_flags v) @ be32 (ddp_io_timeout v) @
     be32 (ddp_lock_timeout v) @ be32 (ddp_cmd v) @ be32 (ddp_network_order v) @
     be32 (ddp_datasize v) @ enc_opaque (ddp_data_in v)"

definition valid_Device_DocmdParms :: "Device_DocmdParms \<Rightarrow> bool" where
  "valid_Device_DocmdParms v \<longleftrightarrow> be_bool (ddp_network_order v) \<and> valid_opaque xdr_unbounded (ddp_data_in v)"

definition enc_Device_DocmdResp :: "Device_DocmdResp \<Rightarrow> bytes" where
  "enc_Device_DocmdResp v =
     be32 (ddr_error v) @ enc_opaque (ddr_data_out v)"

definition valid_Device_DocmdResp :: "Device_DocmdResp \<Rightarrow> bool" where
  "valid_Device_DocmdResp v \<longleftrightarrow> valid_opaque xdr_unbounded (ddr_data_out v)"

lemma xdr_codec_by:
  assumes "xdr_encoder p V e" and "xdr_decoder p V e s"
    and "\<And>v. V' v \<Longrightarrow> V v" and "\<And>v. V' v \<Longrightarrow> e' v = e v" and "\<And>v v0. s v v0 = v"
  shows "xdr_codec p V' e'"
proof (rule xdr_codecI)
  show "xdr_encoder p V' e'" using assms(1,3,4) by (rule xdr_encoder_cong)
  show "xdr_decoder p V' e' (\<lambda>v _. v)" 
    using assms(2,3,4) assms(5) [symmetric] by (rule xdr_decoder_cong)
qed

lemmas typedef_defs =
  xdr_Device_Link_def xdr_Device_AddrFamily_def xdr_Device_Flags_def xdr_Device_ErrorCode_def

context rfc4506
begin

lemmas prims = int u_int enum bool u_short char u_char string bytes
lemmas parts = enc_intros dec_intros prims

end

text \<open>Every routine is a codec for the layout of its struct.\<close>

sublocale rfc4506 \<subseteq> Device_Link: xdr_codec "xdr_Device_Link lib" "\<lambda>_. True" be32
  unfolding typedef_defs by (rule prims)

sublocale rfc4506 \<subseteq> Device_AddrFamily: xdr_codec "xdr_Device_AddrFamily lib" "\<lambda>_. True" be32
  unfolding typedef_defs by (rule prims)

sublocale rfc4506 \<subseteq> Device_Flags: xdr_codec "xdr_Device_Flags lib" "\<lambda>_. True" be32
  unfolding typedef_defs by (rule prims)

sublocale rfc4506 \<subseteq> Device_ErrorCode: xdr_codec "xdr_Device_ErrorCode lib" "\<lambda>_. True" be32
  unfolding typedef_defs by (rule prims)

sublocale rfc4506 \<subseteq> Device_Error: xdr_codec "xdr_Device_Error lib" "\<lambda>_. True" enc_Device_Error
  unfolding xdr_Device_Error_def typedef_defs
  by (rule xdr_codec_by, (rule parts | simp)+) (auto simp: enc_Device_Error_def)

sublocale rfc4506 \<subseteq> Create_LinkParms: xdr_codec "xdr_Create_LinkParms lib" valid_Create_LinkParms enc_Create_LinkParms
  unfolding xdr_Create_LinkParms_def [abs_def] typedef_defs clp_slow_def
  by (rule xdr_codec_by, (rule parts encoder_inline decoder_inline [where words =
         "\<lambda>v. [clp_clientId v, clp_lockDevice v, clp_lock_timeout v]"] | simp)+)
    (auto simp: valid_Create_LinkParms_def enc_Create_LinkParms_def)

sublocale rfc4506 \<subseteq> Create_LinkResp: xdr_codec "xdr_Create_LinkResp lib" "\<lambda>_. True" enc_Create_LinkResp
  unfolding xdr_Create_LinkResp_def typedef_defs
  by (rule xdr_codec_by, (rule parts | simp)+) (auto simp: enc_Create_LinkResp_def)

sublocale rfc4506 \<subseteq> Device_WriteParms: xdr_codec "xdr_Device_WriteParms lib" valid_Device_WriteParms enc_Device_WriteParms
  unfolding xdr_Device_WriteParms_def typedef_defs
  by (rule xdr_codec_by, (rule parts | simp)+) (auto simp: valid_Device_WriteParms_def enc_Device_WriteParms_def)

sublocale rfc4506 \<subseteq> Device_WriteResp: xdr_codec "xdr_Device_WriteResp lib" "\<lambda>_. True" enc_Device_WriteResp
  unfolding xdr_Device_WriteResp_def typedef_defs
  by (rule xdr_codec_by, (rule parts | simp)+) (auto simp: enc_Device_WriteResp_def)

sublocale rfc4506 \<subseteq> Device_ReadParms: xdr_codec "xdr_Device_ReadParms lib" "\<lambda>_. True" enc_Device_ReadParms
  unfolding xdr_Device_ReadParms_def [abs_def] typedef_defs drp_slow_def drp_tail_def
  by (rule xdr_codec_by, (rule parts encoder_inline decoder_inline [where words =
         "\<lambda>v. [drp_requestSize v, drp_io_timeout v, drp_lock_timeout v]"] | simp)+)
    (auto simp: enc_Device_ReadParms_def)

sublocale rfc4506 \<subseteq> Device_ReadResp: xdr_codec "xdr_Device_ReadResp lib" valid_Device_ReadResp enc_Device_ReadResp
  unfolding xdr_Device_ReadResp_def typedef_defs
  by (rule xdr_codec_by, (rule parts | simp)+) (auto simp: valid_Device_ReadResp_def enc_Device_ReadResp_def)

sublocale rfc4506 \<subseteq> Device_ReadStbResp: xdr_codec "xdr_Device_ReadStbResp lib" "\<lambda>_. True" enc_Device_ReadStbResp
  unfolding xdr_Device_ReadStbResp_def typedef_defs
  by (rule xdr_codec_by, (rule parts | simp)+) (auto simp: enc_Device_ReadStbResp_def)

sublocale rfc4506 \<subseteq> Device_GenericParms: xdr_codec "xdr_Device_GenericParms lib" "\<lambda>_. True" enc_Device_GenericParms
  unfolding xdr_Device_GenericParms_def typedef_defs
  by (rule xdr_codec_by, (rule parts | simp)+) (auto simp: enc_Device_GenericParms_def)

sublocale rfc4506 \<subseteq> Device_RemoteFunc: xdr_codec "xdr_Device_RemoteFunc lib" "\<lambda>_. True" enc_Device_RemoteFunc
  unfolding xdr_Device_RemoteFunc_def [abs_def] typedef_defs drf_slow_def
  by (rule xdr_codec_by, (rule parts encoder_inline decoder_inline [where words =
         "\<lambda>v. [drf_hostAddr v, drf_hostPort v, drf_progNum v, drf_progVers v]"] | simp)+)
    (auto simp: enc_Device_RemoteFunc_def)

sublocale rfc4506 \<subseteq> Device_EnableSrqParms: xdr_codec "xdr_Device_EnableSrqParms lib" valid_Device_EnableSrqParms enc_Device_EnableSrqParms
  unfolding xdr_Device_EnableSrqParms_def typedef_defs
  by (rule xdr_codec_by, (rule parts | simp)+) (auto simp: valid_Device_EnableSrqParms_def enc_Device_EnableSrqParms_def)

sublocale rfc4506 \<subseteq> Device_LockParms: xdr_codec "xdr_Device_LockParms lib" "\<lambda>_. True" enc_Device_LockParms
  unfolding xdr_Device_LockParms_def typedef_defs
  by (rule xdr_codec_by, (rule parts | simp)+) (auto simp: enc_Device_LockParms_def)

sublocale rfc4506 \<subseteq> Device_DocmdParms: xdr_codec "xdr_Device_DocmdParms lib" valid_Device_DocmdParms enc_Device_DocmdParms
  unfolding xdr_Device_DocmdParms_def [abs_def] typedef_defs ddp_slow_def ddp_head_def
  by (rule xdr_codec_by, (rule parts encoder_inline decoder_inline [where words =
         "\<lambda>v. [ddp_io_timeout v, ddp_lock_timeout v, ddp_cmd v, ddp_network_order v, ddp_datasize v]"] | simp)+)
    (auto simp: valid_Device_DocmdParms_def enc_Device_DocmdParms_def)

sublocale rfc4506 \<subseteq> Device_DocmdResp: xdr_codec "xdr_Device_DocmdResp lib" valid_Device_DocmdResp enc_Device_DocmdResp
  unfolding xdr_Device_DocmdResp_def typedef_defs
  by (rule xdr_codec_by, (rule parts | simp)+) (auto simp: valid_Device_DocmdResp_def enc_Device_DocmdResp_def)

context rfc4506
begin

lemmas codecs =
  Device_Link.xdr_codec_axioms
  Device_Error.xdr_codec_axioms
  Create_LinkParms.xdr_codec_axioms
  Create_LinkResp.xdr_codec_axioms
  Device_WriteParms.xdr_codec_axioms
  Device_WriteResp.xdr_codec_axioms
  Device_ReadParms.xdr_codec_axioms
  Device_ReadResp.xdr_codec_axioms
  Device_ReadStbResp.xdr_codec_axioms
  Device_GenericParms.xdr_codec_axioms
  Device_RemoteFunc.xdr_codec_axioms
  Device_EnableSrqParms.xdr_codec_axioms
  Device_LockParms.xdr_codec_axioms
  Device_DocmdParms.xdr_codec_axioms
  Device_DocmdResp.xdr_codec_axioms

end

end
