(* ===== verification/Xdr_Mem.thy ===== *)
theory Xdr_Mem
  imports Xdr_Codec
begin

text \<open>
  A library of XDR primitives over a memory stream that fulfils the contract \<open>rfc4506\<close>. It is
  not part of liblxi: it stands in for the RPC library wherever a theorem about the XDR
  routines is applied to a concrete stream.
\<close>

definition mem_scalar :: "('a \<Rightarrow> 32 word) \<Rightarrow> (32 word \<Rightarrow> 'a) \<Rightarrow> 'a xdrproc" where
  "mem_scalar to_unit of_unit x v =
     (case x_op x of
        XDR_ENCODE \<Rightarrow>
          if fits x (be32 (to_unit v)) then (True, emit x (be32 (to_unit v)), v) else (False, x, v)
      | XDR_DECODE \<Rightarrow>
          if 4 \<le> length (pending x) then (True, skip x 4, of_unit (get32 (pending x)))
          else (False, x, v)
      | XDR_FREE \<Rightarrow> (True, x, v))"

definition mem_run_put :: "32 word \<Rightarrow> XDR \<Rightarrow> bytes \<Rightarrow> bool \<times> XDR" where
  "mem_run_put m x bs =
     (if length bs \<le> unat m \<and> fits x (enc_run bs) then (True, emit x (enc_run bs)) else (False, x))"

definition mem_run_get :: "32 word \<Rightarrow> XDR \<Rightarrow> (bytes \<times> XDR) option" where
  "mem_run_get m x =
     (let n = unat (get32 (pending x)); total = 4 + n + length (xdr_pad n) in
      if 4 \<le> length (pending x) \<and> n \<le> unat m \<and> total \<le> length (pending x)
      then Some (take n (drop 4 (pending x)), skip x total) else None)"

definition mem_string :: "32 word \<Rightarrow> bytes option xdrproc" where
  "mem_string m x v =
     (case x_op x of
        XDR_ENCODE \<Rightarrow>
          (case v of None \<Rightarrow> (False, x, v)
           | Some bs \<Rightarrow> (case mem_run_put m x bs of (ok, x') \<Rightarrow> (ok, x', v)))
      | XDR_DECODE \<Rightarrow>
          (case mem_run_get m x of None \<Rightarrow> (False, x, v) | Some (bs, x') \<Rightarrow> (True, x', Some bs))
      | XDR_FREE \<Rightarrow> (True, x, None))"

definition mem_bytes :: "32 word \<Rightarrow> opaque xdrproc" where
  "mem_bytes m x v =
     (case x_op x of
        XDR_ENCODE \<Rightarrow>
          (case op_val v of None \<Rightarrow> (False, x, v)
           | Some bs \<Rightarrow> (case mem_run_put m x (take (unat (op_len v)) bs) of (ok, x') \<Rightarrow> (ok, x', v)))
      | XDR_DECODE \<Rightarrow>
          (case mem_run_get m x of None \<Rightarrow> (False, x, v)
           | Some (bs, x') \<Rightarrow> (True, x', \<lparr>op_len = word_of_nat (length bs), op_val = Some bs\<rparr>))
      | XDR_FREE \<Rightarrow> (True, x, v\<lparr>op_val := None\<rparr>))"

definition mem_inline :: "XDR \<Rightarrow> nat \<Rightarrow> nat option \<times> XDR" where
  "mem_inline x n =
     (if x_op x \<noteq> XDR_FREE \<and> x_pos x + n \<le> length (x_buf x) then (Some (x_pos x), skip x n)
      else (None, x))"

definition mem_lib :: xdr_lib where
  "mem_lib =
     \<lparr>xdr_int = mem_scalar id id,
      xdr_u_int = mem_scalar id id,
      xdr_enum = mem_scalar id id,
      xdr_bool = mem_scalar (\<lambda>b. if b = 0 then 0 else 1) (\<lambda>u. if u = 0 then 0 else 1),
      xdr_u_short = mem_scalar ucast ucast,
      xdr_char = mem_scalar scast ucast,
      xdr_u_char = mem_scalar ucast ucast,
      xdr_string = mem_string,
      xdr_bytes = mem_bytes,
      XDR_INLINE = mem_inline,
      IXDR_PUT = (\<lambda>x b w. x\<lparr>x_buf := overwrite (x_buf x) b (be32 w)\<rparr>),
      IXDR_GET = (\<lambda>x b. get32 (drop b (x_buf x)))\<rparr>"

lemma mem_scalar_codec:
  assumes "\<And>v. V v \<Longrightarrow> of_unit (to_unit v) = v" and "\<And>v. V v \<Longrightarrow> e v = be32 (to_unit v)"
  shows "xdr_codec (mem_scalar to_unit of_unit) V e"
  using assms by unfold_locales (simp_all add: mem_scalar_def)

lemma mem_run_put_enc:
  "length bs \<le> unat m \<Longrightarrow>
    mem_run_put m x bs = (if fits x (enc_run bs) then (True, emit x (enc_run bs)) else (False, x))"
  by (simp add: mem_run_put_def)

lemma mem_run_get_enc:
  assumes "length bs \<le> unat m" and "pending x = enc_run bs @ rest"
  shows "mem_run_get m x = Some (bs, skip x (length (enc_run bs)))"
proof -
  have "unat (get32 (pending x)) = length bs"
    using assms by (simp add: enc_run_def le_unat_uoi)
  then show ?thesis using assms by (simp add: mem_run_get_def enc_run_def Let_def add.assoc)
qed

lemma narrow_units:
  "ucast (scast (c :: byte) :: 32 word) = c"
  "ucast (ucast (b :: byte) :: 32 word) = b"
  "ucast (ucast (h :: 16 word) :: 32 word) = h"
  by (rule bit_word_eqI, auto simp: bit_simps)+

lemma mem_string_codec: "xdr_codec (mem_string m) (valid_string m) enc_string"
  by unfold_locales
    (auto simp: mem_string_def valid_string_def enc_string_def mem_run_put_enc mem_run_get_enc)

lemma mem_bytes_codec: "xdr_codec (mem_bytes m) (valid_opaque m) enc_opaque"
proof -
  have "\<lparr>op_len = word_of_nat (length bs), op_val = Some bs\<rparr> = v"
    if "op_val v = Some bs" "unat (op_len v) = length bs" for v :: opaque and bs
  proof -
    have "word_of_nat (length bs) = op_len v" by (simp flip: that(2))
    with that(1) show ?thesis by (cases v) simp
  qed
  then show ?thesis
    by unfold_locales
      (auto simp: mem_bytes_def valid_opaque_def enc_opaque_def enc_string_def mem_run_put_enc
        mem_run_get_enc)
qed

interpretation xdrmem: rfc4506 mem_lib
  by (rule rfc4506.intro)
    (auto simp: mem_lib_def mem_string_codec mem_bytes_codec mem_inline_def be_bool_def narrow_units
      intro!: mem_scalar_codec split: if_splits)

end
