(* ===== verification/Vxi11.thy ===== *)
theory Vxi11
  imports Vxi11core_clnt Peers Xdr_Mem
begin

text \<open>
  The VXI-11 backend, the connection half of \<^verbatim>\<open>src/src/vxi11.c\<close>: creating a link in a thread with
  a deadline, writing, and reading until the instrument signals the end. The RPC library is the
  parameter \<open>rpc\<close> (with the XDR library \<open>xdr_lib\<close>), clock and threads are \<open>threads\<close>. The
  theorems: a connection that succeeded has a client handle, the deadline is normalised, reading
  stays inside the buffer and returns the instrument's bytes in order when the instrument sends no
  more than it is asked for.
\<close>

record vxi11_data =
  rpc_client :: CLIENT
  link_resp :: Create_LinkResp

definition RECEIVE_END_BIT :: "32 word" where "RECEIVE_END_BIT = 0x04"
definition RECEIVE_TERM_CHAR_BIT :: "32 word" where "RECEIVE_TERM_CHAR_BIT = 0x02"

section \<open>Threads\<close>

record timespec =
  ts_sec :: int
  ts_nsec :: int

text \<open>
  How far the connecting thread had come when it was cancelled: it is inside \<^verbatim>\<open>clnt_create\<close>, inside
  \<^verbatim>\<open>create_link_1\<close>, or it had finished.
\<close>

datatype progress = In_clnt_create | In_create_link | Finished

text \<open>
  \<open>th_wait h ts k\<close> is the \<open>k\<close>-th return of \<^verbatim>\<open>pthread_cond_timedwait\<close> with deadline \<open>ts\<close>: its result and
  whether the waiting thread has set \<^verbatim>\<open>joined\<close> by then; \<open>th_stuck h ts\<close> says that the waiting thread, when it is cancelled,
  has already joined the connecting thread and waits for the mutex, where it cannot be cancelled; \<open>th_malloc\<close> says
  whether the connecting thread gets the block it stores its result in.
\<close>

record threads =
  th_clock :: "hist \<Rightarrow> int \<times> timespec"
  th_create :: "hist \<Rightarrow> int"
  th_create_waiter :: "hist \<Rightarrow> int"
  th_wait :: "hist \<Rightarrow> timespec \<Rightarrow> nat \<Rightarrow> int \<times> bool"
  th_stuck :: "hist \<Rightarrow> timespec \<Rightarrow> bool"
  th_progress :: "hist \<Rightarrow> progress"
  th_malloc :: "hist \<Rightarrow> bool"

partial_function (option) timedjoin_loop :: "threads \<Rightarrow> timespec \<Rightarrow> hist \<Rightarrow> nat \<Rightarrow> (int \<times> bool) option" where
  "timedjoin_loop th ts h k =
     (case th_wait th h ts k of
        (r, joined) \<Rightarrow> if \<not> joined \<and> r \<noteq> ETIMEDOUT then timedjoin_loop th ts h (Suc k) else Some (r, joined))"

text \<open>
  \<^verbatim>\<open>_pthread_timedjoin\<close>. When the helper thread cannot be created, the code goes on to cancel and
  join the thread named by the variable \<^verbatim>\<open>tmp\<close>, which nothing has set. The caller joins the helper with the mutex locked:
  a helper that waits for the mutex is never joined, and the call does not return.
\<close>

definition pthread_timedjoin :: "threads \<Rightarrow> timespec \<Rightarrow> hist \<Rightarrow> int c" where
  "pthread_timedjoin th ts h =
     (if th_create_waiter th h \<noteq> 0 then fail Bad_Pointer
      else case timedjoin_loop th ts h 0 of
             None \<Rightarrow> None
           | Some (r, joined) \<Rightarrow>
               if joined then ret 0 else if th_stuck th h ts then None else ret r)"

section \<open>Connecting\<close>

definition default_device :: string where "default_device = ''inst0''"

text \<open>
  \<^verbatim>\<open>_vxi11_connect\<close>, the work of the thread. \<^verbatim>\<open>data\<close> is a pointer: \<open>None\<close> is the null pointer, through
  which the handle cannot be stored.
\<close>

definition link_params :: "nat \<Rightarrow> string option \<Rightarrow> Create_LinkParms" where
  "link_params cl name =
     \<lparr>clp_clientId = word_of_nat cl, clp_lockDevice = 0, clp_lock_timeout = 0,
      clp_device = Some (str_bytes (case name of None \<Rightarrow> default_device | Some n \<Rightarrow> n))\<rparr>"

definition do_vxi11_connect ::
    "rpc \<Rightarrow> xdr_lib \<Rightarrow> vxi11_data option \<Rightarrow> string \<Rightarrow> int \<Rightarrow> string option \<Rightarrow> int \<Rightarrow> hist \<Rightarrow>
     (int \<times> vxi11_data option \<times> hist) c" where
  "do_vxi11_connect net lib data address port name timeout h =
     (let (clnt, h) = sys_clnt_create net address DEVICE_CORE DEVICE_CORE_VERSION ''tcp'' h in
      case data of
        None \<Rightarrow> fail Null_Deref
      | Some d \<Rightarrow>
          let d = d\<lparr>rpc_client := clnt\<rparr> in
          (case clnt of
             None \<Rightarrow> ret (-1, Some d, h)
           | Some cl \<Rightarrow>
               cbind (create_link_1 net lib (link_params cl name) (link_resp d) clnt h)
                 (\<lambda>(stat, resp, h).
                   let d = d\<lparr>link_resp := resp\<rparr> in
                   if stat \<noteq> RPC_SUCCESS
                   then cbind (sys_clnt_destroy clnt h) (\<lambda>h. ret (-1, Some d, h))
                   else ret (0, Some d, h))))"

text \<open>
  \<^verbatim>\<open>thread_vxi11_connect\<close>: the thread allocates a block for its result, connects, stores the result through the
  pointer, which it has not checked, and exits with it. The source has no call that frees the block.
\<close>

definition sys_status_alloc :: "threads \<Rightarrow> hist \<Rightarrow> bool \<times> hist" where
  "sys_status_alloc th h = (let ok = th_malloc th h in (ok, h @ [Ev_status_alloc ok]))"

definition thread_vxi11_connect ::
    "rpc \<Rightarrow> xdr_lib \<Rightarrow> threads \<Rightarrow> vxi11_data option \<Rightarrow> string \<Rightarrow> int \<Rightarrow> string option \<Rightarrow> int \<Rightarrow> hist \<Rightarrow>
     (int \<times> vxi11_data option \<times> hist) c" where
  "thread_vxi11_connect net lib th data address port name timeout h =
     (let (status, h) = sys_status_alloc th h in
      cbind (do_vxi11_connect net lib data address port name timeout h)
        (\<lambda>(r, data, h). if \<not> status then fail Null_Deref else ret (r, data, h)))"

text \<open>
  What the thread has done when it is cancelled: it has its block, since \<^verbatim>\<open>malloc\<close> is no point at which a thread can be
  cancelled.
\<close>

definition cancelled_connect ::
    "rpc \<Rightarrow> xdr_lib \<Rightarrow> threads \<Rightarrow> progress \<Rightarrow> vxi11_data option \<Rightarrow> string \<Rightarrow> int \<Rightarrow> string option \<Rightarrow> int \<Rightarrow> hist \<Rightarrow>
     (vxi11_data option \<times> hist) c" where
  "cancelled_connect net lib th pr data address port name timeout h =
     (case pr of
        In_clnt_create \<Rightarrow> ret (data, snd (sys_status_alloc th h))
      | In_create_link \<Rightarrow>
          (case sys_clnt_create net address DEVICE_CORE DEVICE_CORE_VERSION ''tcp'' (snd (sys_status_alloc th h)) of
             (clnt, h) \<Rightarrow>
               (case data of
                  None \<Rightarrow> fail Null_Deref
                | Some d \<Rightarrow> ret (Some (d\<lparr>rpc_client := clnt\<rparr>), h)))
      | Finished \<Rightarrow>
          cbind (thread_vxi11_connect net lib th data address port name timeout h) (\<lambda>(_, data, h). ret (data, h)))"

text \<open>The absolute deadline of a timeout in milliseconds.\<close>

definition ms_deadline :: "timespec \<Rightarrow> int \<Rightarrow> timespec" where
  "ms_deadline ts timeout =
     (let sec = ts_sec ts + timeout sdiv 1000;
          nsec = ts_nsec ts + (timeout smod 1000) * 1000000
      in if 1000000000 \<le> nsec then \<lparr>ts_sec = sec + 1, ts_nsec = nsec smod 1000000000\<rparr>
         else \<lparr>ts_sec = sec, ts_nsec = nsec\<rparr>)"

definition vxi11_connect ::
    "rpc \<Rightarrow> xdr_lib \<Rightarrow> threads \<Rightarrow> vxi11_data option \<Rightarrow> string \<Rightarrow> int \<Rightarrow> string option \<Rightarrow> int \<Rightarrow> hist \<Rightarrow>
     (int \<times> vxi11_data option \<times> hist) c" where
  "vxi11_connect net lib th data address port name timeout h =
     (let (status, now) = th_clock th h in
      if status \<noteq> 0 then ret (-1, data, h)
      else if th_create th h \<noteq> 0 then ret (-1, data, h)
      else
        let h = h @ [Ev_thread_start] in
        cbind (pthread_timedjoin th (ms_deadline now timeout) h)
          (\<lambda>status.
            if status \<noteq> 0
            then cbind (cancelled_connect net lib th (th_progress th h) data address port name timeout h)
                   (\<lambda>(data, h). ret (-1, data, h @ [Ev_thread_cancel]))
            else thread_vxi11_connect net lib th data address port name timeout h))"

definition vxi11_disconnect :: "rpc \<Rightarrow> xdr_lib \<Rightarrow> vxi11_data \<Rightarrow> hist \<Rightarrow> (int \<times> hist) c" where
  "vxi11_disconnect net lib d h =
     cbind (destroy_link_1 net lib (clr_lid (link_resp d)) \<lparr>de_error = 0\<rparr> (rpc_client d) h)
       (\<lambda>(stat, err, h). cbind (sys_clnt_destroy (rpc_client d) h) (\<lambda>h. ret (0, h)))"

section \<open>Writing\<close>

definition write_params :: "Device_Link \<Rightarrow> bytes \<Rightarrow> int \<Rightarrow> int \<Rightarrow> Device_WriteParms" where
  "write_params lid message len timeout =
     \<lparr>dwp_lid = lid, dwp_io_timeout = word_of_int timeout, dwp_lock_timeout = 0, dwp_flags = 0x9,
      dwp_data = \<lparr>op_len = word_of_int len, op_val = Some message\<rparr>\<rparr>"

text \<open>The encoder reads \<^verbatim>\<open>data_len\<close> bytes behind the pointer, the length taken as unsigned.\<close>

definition vxi11_send ::
    "rpc \<Rightarrow> xdr_lib \<Rightarrow> vxi11_data \<Rightarrow> bytes \<Rightarrow> int \<Rightarrow> int \<Rightarrow> hist \<Rightarrow> (int \<times> hist) c" where
  "vxi11_send net lib d message len timeout h =
     cbind (buf_slice message 0 (uint (word_of_int len :: 32 word)))
       (\<lambda>bs. cbind (device_write_1 net lib (write_params (clr_lid (link_resp d)) bs len timeout)
                      \<lparr>dwr_error = 0, dwr_size = 0\<rparr> (rpc_client d) h)
         (\<lambda>(stat, resp, h).
           if stat \<noteq> RPC_SUCCESS then ret (-1, h) else ret (sint (dwr_size resp), h)))"

section \<open>Reading\<close>

definition read_params :: "Device_Link \<Rightarrow> int \<Rightarrow> int \<Rightarrow> Device_ReadParms" where
  "read_params lid req timeout =
     \<lparr>drp_lid = lid, drp_requestSize = word_of_int req, drp_io_timeout = word_of_int timeout,
      drp_lock_timeout = 0, drp_flags = 0, drp_termChar = 0\<rparr>"

text \<open>\<^verbatim>\<open>memset\<close> of the response, then \<^verbatim>\<open>data_val = message + offset\<close>.\<close>

definition read_resp0 :: "bytes \<Rightarrow> int \<Rightarrow> Device_ReadResp" where
  "read_resp0 message offset =
     \<lparr>drr_error = 0, drr_reason = 0, drr_data = \<lparr>op_len = 0, op_val = Some (drop (nat offset) message)\<rparr>\<rparr>"

text \<open>The bytes the decoder stores behind \<^verbatim>\<open>data_val\<close>: as many as the response counts.\<close>

definition resp_data :: "Device_ReadResp \<Rightarrow> bytes" where
  "resp_data r = (case op_val (drr_data r) of None \<Rightarrow> [] | Some bs \<Rightarrow> take (unat (op_len (drr_data r))) bs)"

text \<open>\<^verbatim>\<open>int += u_int\<close>: the sum is unsigned, the result is converted back.\<close>

definition add_u_int :: "int \<Rightarrow> u_int \<Rightarrow> int" where
  "add_u_int a b = sint (word_of_int a + b)"

partial_function (option) vxi11_receive_loop ::
    "rpc \<Rightarrow> xdr_lib \<Rightarrow> vxi11_data \<Rightarrow> bytes \<Rightarrow> int \<Rightarrow> int \<Rightarrow> int \<Rightarrow> int \<Rightarrow> hist \<Rightarrow>
     (int \<times> bytes \<times> hist) c" where
  "vxi11_receive_loop net lib d message len timeout response_length offset h =
     (case device_read_1 net lib (read_params (clr_lid (link_resp d)) (len - offset) timeout)
             (read_resp0 message offset) (rpc_client d) h of
        None \<Rightarrow> None
      | Some (Inl e) \<Rightarrow> fail e
      | Some (Inr (stat, resp, h)) \<Rightarrow>
          (case buf_write message offset (resp_data resp) of
             None \<Rightarrow> None
           | Some (Inl e) \<Rightarrow> fail e
           | Some (Inr message) \<Rightarrow>
               if stat \<noteq> RPC_SUCCESS then ret (-1, message, h)
               else if drr_error resp \<noteq> 0 then ret (-1, message, h)
               else
                 let data_len = op_len (drr_data resp);
                     response_length' =
                       (if 0 < data_len then add_u_int response_length data_len else response_length)
                 in if 0 < data_len \<and> len < response_length' then ret (-1, message, h)
                    else
                      let offset' = (if 0 < data_len then add_u_int offset data_len else offset)
                      in if drr_reason resp AND RECEIVE_END_BIT \<noteq> 0 \<or>
                            drr_reason resp AND RECEIVE_TERM_CHAR_BIT \<noteq> 0
                         then ret (response_length', message, h)
                         else if drr_reason resp = 0
                         then vxi11_receive_loop net lib d message len timeout response_length' offset' h
                         else ret (response_length', message, h)))"

definition vxi11_receive ::
    "rpc \<Rightarrow> xdr_lib \<Rightarrow> vxi11_data \<Rightarrow> bytes \<Rightarrow> int \<Rightarrow> int \<Rightarrow> hist \<Rightarrow> (int \<times> bytes \<times> hist) c" where
  "vxi11_receive net lib d message len timeout h =
     vxi11_receive_loop net lib d message len timeout 0 0 h"

definition vxi11_lock :: "vxi11_data \<Rightarrow> int" where
  "vxi11_lock d = 0"

definition vxi11_unlock :: "vxi11_data \<Rightarrow> int" where
  "vxi11_unlock d = 0"

section \<open>Reading stays in the buffer\<close>

text \<open>
  The VXI-11 contract of \<^verbatim>\<open>device_read\<close>: the instrument returns no more bytes than it was asked for,
  and when it gives no reason to stop it has returned some, but fewer than asked.
\<close>

definition read_bounded :: "rpc \<Rightarrow> bool" where
  "read_bounded net \<longleftrightarrow>
     (\<forall>h cl xa p xr r tv stat res.
        rpc_call net h cl device_read xa (Obj_Device_ReadParms p) xr (Obj_Device_ReadResp r) tv = (stat, res) \<longrightarrow>
        (\<exists>r' bs. res = Obj_Device_ReadResp r' \<and>
           drr_data r' = \<lparr>op_len = of_nat (length bs), op_val = Some bs\<rparr> \<and>
           length bs \<le> unat (drp_requestSize p) \<and>
           (drr_reason r' = 0 \<longrightarrow> drr_error r' = 0 \<longrightarrow> stat = RPC_SUCCESS \<longrightarrow>
              0 < length bs \<and> length bs < unat (drp_requestSize p))))"

text \<open>The data of all read responses in a history, in order.\<close>

fun read_data :: "hist \<Rightarrow> bytes" where
  "read_data [] = []"
| "read_data (Ev_clnt_call cl proc argsp stat (Obj_Device_ReadResp r) # h) = resp_data r @ read_data h"
| "read_data (_ # h) = read_data h"

lemma read_data_append [simp]: "read_data (h @ h') = read_data h @ read_data h'"
  by (induction h rule: read_data.induct) simp_all

lemma add_u_int_exact:
  assumes "0 \<le> a" and "a + int n < 2 ^ 31"
  shows "add_u_int a (of_nat n) = a + int n"
proof -
  have "word_of_int a + (of_nat n :: 32 word) = word_of_int (a + int n)"
    by simp
  moreover have "sint (word_of_int (a + int n) :: 32 word) = a + int n"
    using assms by (simp only: sint_sbintrunc') (simp add: signed_take_bit_int_eq_self)
  ultimately show ?thesis unfolding add_u_int_def by metis
qed

lemma uint_request: "0 \<le> n \<Longrightarrow> n < 2 ^ 31 \<Longrightarrow> uint (word_of_int n :: 32 word) = n"
  by (intro uint_word_of_int_eq [THEN trans] take_bit_int_eq_self) simp_all

lemma unat_request: "0 \<le> n \<Longrightarrow> n < 2 ^ 31 \<Longrightarrow> unat (word_of_int n :: 32 word) = nat n"
  by (simp only: unat_eq_nat_uint uint_request)

lemma of_nat_u_int_pos: "n < 2 ^ 32 \<Longrightarrow> (0 < (of_nat n :: u_int)) = (0 < n)"
  by (auto simp: word_gt_0 word_of_nat_eq_0_iff intro: gr0I dest: nat_dvd_not_less)

text \<open>One read request against a bounded instrument.\<close>

lemma device_read_1_bounded:
  assumes "read_bounded net" and "0 \<le> n" and "n < 2 ^ 31"
  obtains stat r bs where
    "device_read_1 net lib (read_params lid n timeout) r0 (Some cl) h =
       ret (stat, r, h @ [Ev_clnt_call cl device_read
         (Obj_Device_ReadParms (read_params lid n timeout)) stat (Obj_Device_ReadResp r)])"
    and "drr_data r = \<lparr>op_len = of_nat (length bs), op_val = Some bs\<rparr>"
    and "int (length bs) \<le> n"
    and "drr_reason r = 0 \<Longrightarrow> drr_error r = 0 \<Longrightarrow> stat = RPC_SUCCESS \<Longrightarrow>
      0 < length bs \<and> int (length bs) < n"
proof -
  obtain stat res where call: "rpc_call net h cl device_read (xdrproc_Device_ReadParms lib)
      (Obj_Device_ReadParms (read_params lid n timeout)) (xdrproc_Device_ReadResp lib)
      (Obj_Device_ReadResp r0) TIMEOUT = (stat, res)"
    by fastforce
  moreover have "unat (drp_requestSize (read_params lid n timeout)) = nat n"
    using assms by (simp add: read_params_def unat_request)
  ultimately show thesis
    using assms(1,2) that unfolding read_bounded_def
    by (fastforce simp: device_read_1_def call_stub_Some)
qed

text \<open>
  The loop, with the bytes read so far in front of \<open>offset\<close>; it ends because every response that
  does not end it brings at least one byte.
\<close>

definition receive_ok :: "bytes \<Rightarrow> int \<Rightarrow> hist \<Rightarrow> int \<Rightarrow> bytes \<Rightarrow> bool" where
  "receive_ok message len new n msg' \<longleftrightarrow>
     length msg' = length message \<and> drop (nat len) msg' = drop (nat len) message \<and> n \<le> len \<and>
     (n = -1 \<or> 0 \<le> n \<and> take (nat n) msg' = read_data new)"

lemma resp_data_exact:
  "drr_data r = \<lparr>op_len = of_nat (length bs), op_val = Some bs\<rparr> \<Longrightarrow> length bs < 2 ^ 32 \<Longrightarrow>
    resp_data r = bs"
  by (simp add: resp_data_def unat_of_nat)

lemma vxi11_receive_loop_ok:
  assumes net: "read_bounded net" and cl: "rpc_client d = Some cl"
    and len: "len < 2 ^ 31" "len \<le> int (length message)"
    and off: "0 \<le> off" "off \<le> len" "off = 0 \<or> off < len"
    and prefix: "take (nat off) message = read_data old"
  shows "\<exists>n msg' new. vxi11_receive_loop net lib d message len timeout off off h =
      ret (n, msg', h @ new) \<and> receive_ok message len (old @ new) n msg'"
  using off prefix len(2)
proof (induction "nat (len - off)" arbitrary: message off old h rule: less_induct)
  case less
  have n: "0 \<le> len - off" "len - off < 2 ^ 31" using less.prems len by simp_all
  obtain stat r bs where read:
    "device_read_1 net lib (read_params (clr_lid (link_resp d)) (len - off) timeout)
       (read_resp0 message off) (Some cl) h =
       ret (stat, r, h @ [Ev_clnt_call cl device_read
         (Obj_Device_ReadParms (read_params (clr_lid (link_resp d)) (len - off) timeout)) stat
         (Obj_Device_ReadResp r)])"
    and data: "drr_data r = \<lparr>op_len = of_nat (length bs), op_val = Some bs\<rparr>"
    and small: "int (length bs) \<le> len - off"
    and more: "drr_reason r = 0 \<Longrightarrow> drr_error r = 0 \<Longrightarrow> stat = RPC_SUCCESS \<Longrightarrow>
      0 < length bs \<and> int (length bs) < len - off"
    using device_read_1_bounded [OF net n] by metis
  let ?ev = "Ev_clnt_call cl device_read
    (Obj_Device_ReadParms (read_params (clr_lid (link_resp d)) (len - off) timeout)) stat
    (Obj_Device_ReadResp r)"
  let ?msg = "overwrite message (nat off) bs"
  have bs: "resp_data r = bs" using data small len less.prems by (intro resp_data_exact) simp_all
  have fits: "nat off + length bs \<le> length message" using small less.prems by simp
  then have len': "length ?msg = length message" by simp
  have rest: "drop (nat len) ?msg = drop (nat len) message"
    using fits small less.prems by (intro drop_overwrite) simp_all
  have pre: "take (nat (off + int (length bs))) ?msg = read_data (old @ [?ev])"
    using take_overwrite [of "nat off" message bs] fits less.prems bs by (simp add: nat_add_distrib)
  have wr: "buf_write message off (resp_data r) = ret ?msg"
    using buf_write_in_range [of off bs message] fits less.prems bs by simp
  have sum: "add_u_int off (of_nat (length bs)) = off + int (length bs)"
    using small len less.prems by (intro add_u_int_exact) simp_all
  have pos: "(0 < (of_nat (length bs) :: u_int)) = (0 < length bs)"
    using small len less.prems by (intro of_nat_u_int_pos) simp
  have step: "vxi11_receive_loop net lib d message len timeout off off h =
      (if stat \<noteq> RPC_SUCCESS \<or> drr_error r \<noteq> 0 then ret (-1, ?msg, h @ [?ev])
       else if drr_reason r \<noteq> 0 then ret (off + int (length bs), ?msg, h @ [?ev])
       else vxi11_receive_loop net lib d ?msg len timeout (off + int (length bs))
              (off + int (length bs)) (h @ [?ev]))"
    using small by (subst vxi11_receive_loop.simps) (simp add: cl read wr data pos sum Let_def)
  show ?case
  proof (cases "stat \<noteq> RPC_SUCCESS \<or> drr_error r \<noteq> 0 \<or> drr_reason r \<noteq> 0")
    case True
    then show ?thesis
      using pre rest len' small less.prems unfolding step receive_ok_def by auto
  next
    case False
    then have grow: "0 < length bs" "int (length bs) < len - off" using more by auto
    have "\<exists>n msg' new. vxi11_receive_loop net lib d ?msg len timeout (off + int (length bs))
        (off + int (length bs)) (h @ [?ev]) = ret (n, msg', (h @ [?ev]) @ new) \<and>
        receive_ok ?msg len ((old @ [?ev]) @ new) n msg'"
      using grow pre len' less.prems by (intro less.hyps) auto
    then show ?thesis
      using False len' rest unfolding step receive_ok_def by (auto simp del: append.simps)
  qed
qed

lemma vxi11_receive_returns:
  assumes "read_bounded net" and "rpc_client d = Some cl" and "0 \<le> len" and "len < 2 ^ 31"
    and "len \<le> int (length message)"
  shows "\<exists>n message' new. vxi11_receive net lib d message len timeout h = ret (n, message', h @ new) \<and>
      length message' = length message \<and> drop (nat len) message' = drop (nat len) message \<and> n \<le> len \<and>
      (n = -1 \<or> 0 \<le> n \<and> take (nat n) message' = read_data new)"
  using vxi11_receive_loop_ok [of net d cl len message 0 "[]" lib timeout h] assms
  by (simp add: vxi11_receive_def receive_ok_def)

text \<open>
  C6. Reading from an instrument that keeps the VXI-11 contract: \<^verbatim>\<open>vxi11_receive\<close> returns, it
  touches no byte of the buffer behind the announced length and writes none outside it, and when
  it returns a count, that many bytes at the front of the buffer are exactly the data of the
  instrument's responses in the order they came.
\<close>

theorem vxi11_receive_correct:
  assumes "read_bounded net" and "rpc_client d = Some cl" and "0 \<le> len" and "len < 2 ^ 31"
    and "len \<le> int (length message)"
  shows "\<exists>n message' new. vxi11_receive net lib d message len timeout h = ret (n, message', h @ new) \<and>
      length message' = length message \<and> drop (nat len) message' = drop (nat len) message \<and> n \<le> len \<and>
      (n = -1 \<or> 0 \<le> n \<and> take (nat n) message' = read_data new)"
  using assms by (rule vxi11_receive_returns)

text \<open>A read that the instrument answers with all its data in one response.\<close>

lemma vxi11_receive_single:
  assumes read: "device_read_1 net lib (read_params (clr_lid (link_resp d)) len timeout) (read_resp0 message 0)
      (rpc_client d) h = ret (RPC_SUCCESS, r, h @ [ev])"
    and r: "drr_error r = 0" "drr_reason r \<noteq> 0"
    and data: "drr_data r = \<lparr>op_len = of_nat (length bs), op_val = Some bs\<rparr>"
    and len: "int (length bs) \<le> len" "len < 2 ^ 31" "len \<le> int (length message)"
  shows "vxi11_receive net lib d message len timeout h =
    ret (int (length bs), bs @ drop (length bs) message, h @ [ev])"
proof -
  have bs: "resp_data r = bs" using data len by (intro resp_data_exact) simp_all
  have wr: "buf_write message 0 bs = ret (bs @ drop (length bs) message)"
    using buf_write_in_range [of 0 bs message] len by (simp add: overwrite_def)
  have sum: "add_u_int 0 (of_nat (length bs)) = int (length bs)"
    using add_u_int_exact [of 0 "length bs"] len by simp
  have pos: "(0 < (of_nat (length bs) :: u_int)) = (0 < length bs)"
    using len by (intro of_nat_u_int_pos) simp
  show ?thesis
    unfolding vxi11_receive_def using len(1) r
    by (subst vxi11_receive_loop.simps) (auto simp: read bs wr data pos sum Let_def)
qed

text \<open>
  An instrument that answers its \<open>k\<close>-th read with the \<open>k\<close>-th of a list of pieces and signals the end
  with the last one; it accepts every link and every write.
\<close>

fun is_read :: "event \<Rightarrow> bool" where
  "is_read (Ev_clnt_call _ _ (Obj_Device_ReadParms _) _ _) = True"
| "is_read _ = False"

definition read_answer :: "bytes list \<Rightarrow> nat \<Rightarrow> nat \<Rightarrow> Device_ReadResp" where
  "read_answer pieces k req =
     (let piece = (if k < length pieces then pieces ! k else []);
          bs = take req piece
      in \<lparr>drr_error = 0,
          drr_reason = (if Suc k < length pieces \<and> piece \<noteq> [] \<and> length piece < req then 0 else 4),
          drr_data = \<lparr>op_len = of_nat (length bs), op_val = Some bs\<rparr>\<rparr>)"

definition scripted_rpc :: "bytes list \<Rightarrow> rpc" where
  "scripted_rpc pieces =
     \<lparr>rpc_create = (\<lambda>h host prog vers proto. Some 7),
      rpc_call = (\<lambda>h cl proc xa arg xr res tv.
        case (arg, res) of
          (Obj_Device_ReadParms p, Obj_Device_ReadResp r) \<Rightarrow>
            (RPC_SUCCESS, Obj_Device_ReadResp
               (read_answer pieces (length (filter is_read h)) (unat (drp_requestSize p))))
        | (Obj_Device_WriteParms p, Obj_Device_WriteResp r) \<Rightarrow>
            (RPC_SUCCESS, Obj_Device_WriteResp \<lparr>dwr_error = 0, dwr_size = op_len (dwp_data p)\<rparr>)
        | (Obj_Create_LinkParms p, Obj_Create_LinkResp r) \<Rightarrow>
            (RPC_SUCCESS, Obj_Create_LinkResp
               \<lparr>clr_error = 0, clr_lid = 1, clr_abortPort = 0, clr_maxRecvSize = 1024\<rparr>)
        | _ \<Rightarrow> (RPC_SUCCESS, res))\<rparr>"

lemma read_bounded_scripted: "read_bounded (scripted_rpc pieces)"
  by (auto simp: read_bounded_def scripted_rpc_def read_answer_def Let_def)

definition open_link :: vxi11_data where
  "open_link = \<lparr>rpc_client = Some 7,
     link_resp = \<lparr>clr_error = 0, clr_lid = 1, clr_abortPort = 0, clr_maxRecvSize = 1024\<rparr>\<rparr>"

theorem vxi11_receive_correct_witness:
  "\<exists>n message' new. vxi11_receive (scripted_rpc [[1, 2], [3]]) mem_lib open_link [0, 0, 0, 0, 0] 4 1000 [] =
      ret (n, message', [] @ new) \<and>
      length message' = length [0 :: byte, 0, 0, 0, 0] \<and>
      drop (nat 4) message' = drop (nat 4) [0, 0, 0, 0, 0] \<and> n \<le> 4 \<and>
      (n = -1 \<or> 0 \<le> n \<and> take (nat n) message' = read_data new)"
  by (rule vxi11_receive_correct [where cl = 7])
    (simp_all add: read_bounded_scripted open_link_def)

text \<open>
  C38. The limit of that: \<^verbatim>\<open>data_val\<close> points into the caller's buffer before the call, and the decoder
  trusts the length in the reply, so the check that the buffer is too small comes after the bytes
  are stored. A first reply that is longer than the buffer is written past its end.
\<close>

theorem vxi11_receive_overflow:
  assumes "rpc_client d = Some cl"
    and "rpc_call net h cl device_read (xdrproc_Device_ReadParms lib)
           (Obj_Device_ReadParms (read_params (clr_lid (link_resp d)) len timeout))
           (xdrproc_Device_ReadResp lib) (Obj_Device_ReadResp (read_resp0 message 0)) TIMEOUT =
         (stat, Obj_Device_ReadResp r)"
    and "length message < length (resp_data r)"
  shows "vxi11_receive net lib d message len timeout h = fail Out_Of_Bounds"
proof -
  have "buf_write message 0 (resp_data r) = fail Out_Of_Bounds"
    using assms(3) by (auto simp: buf_write_def)
  then show ?thesis
    unfolding vxi11_receive_def using assms(1,2)
    by (subst vxi11_receive_loop.simps) (simp add: device_read_1_def call_stub_Some)
qed

text \<open>An instrument that returns four bytes, whatever it is asked for.\<close>

definition greedy_rpc :: rpc where
  "greedy_rpc =
     \<lparr>rpc_create = (\<lambda>h host prog vers proto. Some 7),
      rpc_call = (\<lambda>h cl proc xa arg xr res tv.
        (RPC_SUCCESS, Obj_Device_ReadResp
           \<lparr>drr_error = 0, drr_reason = 4, drr_data = \<lparr>op_len = 4, op_val = Some [1, 2, 3, 4]\<rparr>\<rparr>))\<rparr>"

theorem vxi11_receive_overflow_witness:
  "vxi11_receive greedy_rpc mem_lib open_link [0, 0] 2 1000 [] = fail Out_Of_Bounds"
  by (rule vxi11_receive_overflow [where cl = 7 and stat = RPC_SUCCESS and
        r = "\<lparr>drr_error = 0, drr_reason = 4, drr_data = \<lparr>op_len = 4, op_val = Some [1, 2, 3, 4]\<rparr>\<rparr>"])
    (simp_all add: greedy_rpc_def open_link_def resp_data_def)

section \<open>Writing is one request\<close>

lemma vxi11_send_returns:
  assumes "rpc_client d = Some cl" and "0 \<le> len" and "len < 2 ^ 31" and "len \<le> int (length message)"
  shows "\<exists>stat res p. vxi11_send net lib d message len timeout h =
      ret (if stat \<noteq> RPC_SUCCESS then -1
           else case as_Device_WriteResp res of Some r \<Rightarrow> sint (dwr_size r) | None \<Rightarrow> 0,
           h @ [Ev_clnt_call cl device_write (Obj_Device_WriteParms p) stat res]) \<and>
      dwp_lid p = clr_lid (link_resp d) \<and> dwp_flags p = 9 \<and> dwp_io_timeout p = word_of_int timeout \<and>
      op_val (dwp_data p) = Some (take (nat len) message) \<and> unat (op_len (dwp_data p)) = nat len"
proof -
  let ?p = "write_params (clr_lid (link_resp d)) (take (nat len) message) len timeout"
  have u: "uint (word_of_int len :: 32 word) = len" "unat (word_of_int len :: 32 word) = nat len"
    using uint_request unat_request assms by blast+
  obtain stat res where call: "rpc_call net h cl device_write (xdrproc_Device_WriteParms lib)
      (Obj_Device_WriteParms ?p) (xdrproc_Device_WriteResp lib)
      (Obj_Device_WriteResp \<lparr>dwr_error = 0, dwr_size = 0\<rparr>) TIMEOUT = (stat, res)"
    by fastforce
  have "buf_slice message 0 (uint (word_of_int len :: 32 word)) = ret (take (nat len) message)"
    using assms u buf_slice_in_range [of 0 len message] by (simp del: uint_word_of_int_eq)
  then have "vxi11_send net lib d message len timeout h =
      ret (if stat \<noteq> RPC_SUCCESS then -1
           else case as_Device_WriteResp res of Some r \<Rightarrow> sint (dwr_size r) | None \<Rightarrow> 0,
           h @ [Ev_clnt_call cl device_write (Obj_Device_WriteParms ?p) stat res])"
    using assms call
    by (auto simp: vxi11_send_def device_write_1_def call_stub_Some split: option.splits)
  then show ?thesis using u by (auto simp: write_params_def)
qed

text \<open>
  C28. \<^verbatim>\<open>vxi11_send\<close> of a message inside its buffer makes exactly one remote call, \<^verbatim>\<open>device_write\<close> on the
  link of the session, whose data is the whole message, flags wait-for-lock and end set. It
  returns -1 when the call itself failed; otherwise it returns the size field of the response read as an \<^verbatim>\<open>int\<close>,
  whatever the error field of the response says, so that a size of \<^verbatim>\<open>0xFFFFFFFF\<close> reads as -1 too.
\<close>

theorem vxi11_send_one_request:
  assumes "rpc_client d = Some cl" and "0 \<le> len" and "len < 2 ^ 31" and "len \<le> int (length message)"
  shows "\<exists>stat res p. vxi11_send net lib d message len timeout h =
      ret (if stat \<noteq> RPC_SUCCESS then -1
           else case as_Device_WriteResp res of Some r \<Rightarrow> sint (dwr_size r) | None \<Rightarrow> 0,
           h @ [Ev_clnt_call cl device_write (Obj_Device_WriteParms p) stat res]) \<and>
      dwp_lid p = clr_lid (link_resp d) \<and> dwp_flags p = 9 \<and> dwp_io_timeout p = word_of_int timeout \<and>
      op_val (dwp_data p) = Some (take (nat len) message) \<and> unat (op_len (dwp_data p)) = nat len"
  using assms by (rule vxi11_send_returns)

theorem vxi11_send_one_request_witness:
  "\<exists>stat res p. vxi11_send (scripted_rpc []) mem_lib open_link [65, 66, 67] 3 1000 [] =
      ret (if stat \<noteq> RPC_SUCCESS then -1
           else case as_Device_WriteResp res of Some r \<Rightarrow> sint (dwr_size r) | None \<Rightarrow> 0,
           [] @ [Ev_clnt_call 7 device_write (Obj_Device_WriteParms p) stat res]) \<and>
      dwp_lid p = clr_lid (link_resp open_link) \<and> dwp_flags p = 9 \<and>
      dwp_io_timeout p = word_of_int 1000 \<and>
      op_val (dwp_data p) = Some (take (nat 3) [65, 66, 67]) \<and> unat (op_len (dwp_data p)) = nat 3"
  by (rule vxi11_send_one_request) (simp_all add: open_link_def)

section \<open>Connecting\<close>

text \<open>
  The absolute deadline \<^verbatim>\<open>vxi11_connect\<close> computes is normalised, nanoseconds below one second as
  \<^verbatim>\<open>pthread_cond_timedwait\<close> requires, and lies exactly \<open>timeout\<close> milliseconds after the clock reading.
\<close>

lemma ms_deadline_normalised:
  assumes "0 \<le> timeout" and "0 \<le> ts_nsec now" and "ts_nsec now < 1000000000"
  shows "0 \<le> ts_nsec (ms_deadline now timeout) \<and> ts_nsec (ms_deadline now timeout) < 1000000000 \<and>
    ts_sec (ms_deadline now timeout) * 1000000000 + ts_nsec (ms_deadline now timeout) =
    ts_sec now * 1000000000 + ts_nsec now + timeout * 1000000"
proof -
  define n where "n = ts_nsec now + (timeout mod 1000) * 1000000"
  have tm: "timeout * 1000000 = (timeout div 1000) * 1000000000 + (timeout mod 1000) * 1000000"
    using mult_div_mod_eq [of 1000 timeout] by linarith
  have "0 \<le> timeout mod 1000" "timeout mod 1000 < 1000" by simp_all
  then have n: "0 \<le> n" "n < 2 * 1000000000" using assms unfolding n_def by simp_all
  have d: "ms_deadline now timeout =
      (if 1000000000 \<le> n then \<lparr>ts_sec = ts_sec now + timeout div 1000 + 1, ts_nsec = n mod 1000000000\<rparr>
       else \<lparr>ts_sec = ts_sec now + timeout div 1000, ts_nsec = n\<rparr>)"
    using assms n by (simp add: ms_deadline_def sdiv_nonneg smod_nonneg n_def)
  have "n mod 1000000000 = (n - 1000000000) mod 1000000000" by (rule minus_mod_self2 [symmetric])
  then have "1000000000 \<le> n \<Longrightarrow> n mod 1000000000 = n - 1000000000"
    using n mod_pos_pos_trivial [of "n - 1000000000" 1000000000] by simp
  then show ?thesis
    using n tm n_def unfolding d by auto
qed

text \<open>How often a handle has been created, less how often it has been destroyed.\<close>

fun client_change :: "event \<Rightarrow> nat \<Rightarrow> int" where
  "client_change (Ev_clnt_create _ _ _ (Some c)) x = (if c = x then 1 else 0)"
| "client_change (Ev_clnt_destroy c) x = (if c = x then -1 else 0)"
| "client_change _ x = 0"

definition clients_open :: "hist \<Rightarrow> nat \<Rightarrow> int" where
  "clients_open h x = (\<Sum>e\<leftarrow>h. client_change e x)"

lemma clients_open_append [simp]: "clients_open (h @ h') x = clients_open h x + clients_open h' x"
  by (simp add: clients_open_def)

lemma clients_open_simps [simp]:
  "clients_open [] x = 0"
  "clients_open (e # h) x = client_change e x + clients_open h x"
  by (simp_all add: clients_open_def)

text \<open>The work of the thread, run to its end, either leaves one new open handle or none.\<close>

lemma do_vxi11_connect_cases:
  "\<exists>r d' new. do_vxi11_connect net lib (Some d) address port name timeout h = ret (r, Some d', h @ new) \<and>
     (r = 0 \<and> (\<exists>cl arg res. rpc_client d' = Some cl \<and>
         new = [Ev_clnt_create address DEVICE_CORE DEVICE_CORE_VERSION (Some cl),
                Ev_clnt_call cl create_link arg RPC_SUCCESS res]) \<or>
      r = -1 \<and> (\<forall>x. clients_open new x = 0)) \<and> Ev_status_alloc True \<notin> set new"
  by (auto simp: do_vxi11_connect_def sys_clnt_create_def create_link_1_def call_stub_Some
      sys_clnt_destroy_def Let_def split: option.splits prod.splits)

lemma timedjoin_loop_returns:
  assumes "fst (th_wait th h ts (k + m)) = ETIMEDOUT \<or> snd (th_wait th h ts (k + m))"
  shows "\<exists>r joined. timedjoin_loop th ts h k = Some (r, joined) \<and> (joined \<or> r = ETIMEDOUT)"
  using assms
proof (induction m arbitrary: k)
  case 0
  then show ?case by (subst timedjoin_loop.simps) (auto split: prod.splits)
next
  case (Suc m)
  have "\<exists>r joined. timedjoin_loop th ts h (Suc k) = Some (r, joined) \<and> (joined \<or> r = ETIMEDOUT)"
    using Suc.prems by (intro Suc.IH) simp
  then show ?case by (subst timedjoin_loop.simps) (auto split: prod.splits)
qed

text \<open>A deadline \<^verbatim>\<open>pthread_cond_timedwait\<close> accepts; it rejects any other one with EINVAL.\<close>

definition valid_time :: "timespec \<Rightarrow> bool" where
  "valid_time ts \<longleftrightarrow> 0 \<le> ts_nsec ts \<and> ts_nsec ts < 1000000000"

text \<open>
  What the waiting side relies on: the clock gives a valid time, the helper thread starts, a wait for a valid deadline
  is decided at some point, and the helper is not caught between its join and its lock when it is cancelled.
\<close>

definition join_decided :: "threads \<Rightarrow> bool" where
  "join_decided th \<longleftrightarrow>
     (\<forall>h. valid_time (snd (th_clock th h)) \<and> th_create_waiter th h = 0) \<and>
     (\<forall>h ts. valid_time ts \<longrightarrow> \<not> th_stuck th h ts \<and>
        (\<exists>k. fst (th_wait th h ts k) = ETIMEDOUT \<or> snd (th_wait th h ts k)))"

lemma pthread_timedjoin_returns: "join_decided th \<Longrightarrow> valid_time ts \<Longrightarrow> \<exists>r. pthread_timedjoin th ts h = ret r"
  using timedjoin_loop_returns [of th h ts 0]
  by (fastforce simp: join_decided_def pthread_timedjoin_def)

lemma ms_deadline_valid: "0 \<le> timeout \<Longrightarrow> valid_time now \<Longrightarrow> valid_time (ms_deadline now timeout)"
  using ms_deadline_normalised [of timeout now] by (simp add: valid_time_def)

text \<open>How many blocks for the results of threads a history allocates.\<close>

definition status_blocks :: "hist \<Rightarrow> nat" where
  "status_blocks h = count_list h (Ev_status_alloc True)"

lemma status_blocks_append [simp]: "status_blocks (h @ h') = status_blocks h + status_blocks h'"
  by (simp add: status_blocks_def)

lemma status_blocks_simps [simp]:
  "status_blocks [] = 0"
  "status_blocks (e # h) = (if e = Ev_status_alloc True then 1 else 0) + status_blocks h"
  by (simp_all add: status_blocks_def)

lemma status_blocks_none: "Ev_status_alloc True \<notin> set h \<Longrightarrow> status_blocks h = 0"
  by (simp add: status_blocks_def count_list_0_iff)

definition status_memory :: "threads \<Rightarrow> bool" where
  "status_memory th \<longleftrightarrow> (\<forall>h. th_malloc th h)"

lemma sys_status_alloc_ok: "status_memory th \<Longrightarrow> sys_status_alloc th h = (True, h @ [Ev_status_alloc True])"
  by (simp add: status_memory_def sys_status_alloc_def)

lemma cancelled_connect_returns:
  assumes "status_memory th"
  shows "\<exists>d' new. cancelled_connect net lib th pr (Some d) address port name timeout h =
    ret (Some d', h @ Ev_status_alloc True # new) \<and> status_blocks new = 0"
  using do_vxi11_connect_cases [of net lib d address port name timeout "h @ [Ev_status_alloc True]"]
  by (cases pr) (auto simp: cancelled_connect_def thread_vxi11_connect_def sys_status_alloc_ok [OF assms]
      status_blocks_none sys_clnt_create_def Let_def split: prod.splits)

lemma vxi11_connect_returns:
  assumes "join_decided th" and "status_memory th" and "0 \<le> timeout"
  shows "\<exists>r d' new. vxi11_connect net lib th (Some d) address port name timeout h = ret (r, Some d', h @ new) \<and>
     (r = 0 \<or> r = -1) \<and>
     (r = 0 \<longrightarrow> (\<exists>cl arg res. rpc_client d' = Some cl \<and>
        Ev_clnt_call cl create_link arg RPC_SUCCESS res \<in> set new \<and>
        (\<forall>x. clients_open new x = (if x = cl then 1 else 0)))) \<and>
     (r = -1 \<longrightarrow> Ev_thread_cancel \<notin> set new \<longrightarrow> (\<forall>x. clients_open new x = 0)) \<and>
     status_blocks new = (if Ev_thread_start \<in> set new then 1 else 0)"
proof -
  let ?h = "h @ [Ev_thread_start]" and ?a = "Ev_status_alloc True"
  obtain ok now where clock: "th_clock th h = (ok, now)" by fastforce
  obtain j where join: "pthread_timedjoin th (ms_deadline now timeout) ?h = ret j"
    using pthread_timedjoin_returns [OF assms(1) ms_deadline_valid [OF assms(3)]] assms(1) clock
    by (metis join_decided_def snd_conv)
  obtain dc nc where canc:
    "cancelled_connect net lib th (th_progress th ?h) (Some d) address port name timeout ?h =
      ret (Some dc, ?h @ ?a # nc)" "status_blocks nc = 0"
    using cancelled_connect_returns [OF assms(2)] by blast
  obtain r dr nr where conn:
    "do_vxi11_connect net lib (Some d) address port name timeout (?h @ [?a]) = ret (r, Some dr, (?h @ [?a]) @ nr)"
    and res: "r = 0 \<and> (\<exists>cl arg res. rpc_client dr = Some cl \<and>
         nr = [Ev_clnt_create address DEVICE_CORE DEVICE_CORE_VERSION (Some cl),
               Ev_clnt_call cl create_link arg RPC_SUCCESS res]) \<or>
      r = -1 \<and> (\<forall>x. clients_open nr x = 0)" "?a \<notin> set nr"
    using do_vxi11_connect_cases by metis
  have none: "status_blocks nr = 0" using res(2) by (rule status_blocks_none)
  have thread: "thread_vxi11_connect net lib th (Some d) address port name timeout ?h =
      ret (r, Some dr, ?h @ ?a # nr)"
    using conn by (simp add: thread_vxi11_connect_def sys_status_alloc_ok [OF assms(2)])
  note step = vxi11_connect_def clock join Let_def
  show ?thesis
  proof (cases "ok = 0 \<and> th_create th h = 0")
    case False
    then show ?thesis by (auto simp: step)
  next
    case True
    then show ?thesis
      using res none canc(2) by (cases "j = 0") (auto simp: step canc(1) thread)
  qed
qed

text \<open>
  C16. Connecting: let the clock give a valid time, the helper thread start, the wait report at some point that the
  deadline has passed or that the thread was joined, the helper not be blocked on the mutex when it is cancelled, and
  the thread get memory for its result. Then \<^verbatim>\<open>vxi11_connect\<close> with a timeout that is not negative returns 0 or -1. With
  0 the session has a client handle whose \<^verbatim>\<open>create_link\<close> call succeeded and which is the one handle left open;
  with -1, unless the thread was cancelled, no handle is left open. One block is allocated for the result of the thread
  once it was started.
\<close>

theorem vxi11_connect_client:
  assumes "join_decided th" and "status_memory th" and "0 \<le> timeout"
  shows "\<exists>r d' new. vxi11_connect net lib th (Some d) address port name timeout h = ret (r, Some d', h @ new) \<and>
     (r = 0 \<or> r = -1) \<and>
     (r = 0 \<longrightarrow> (\<exists>cl arg res. rpc_client d' = Some cl \<and>
        Ev_clnt_call cl create_link arg RPC_SUCCESS res \<in> set new \<and>
        (\<forall>x. clients_open new x = (if x = cl then 1 else 0)))) \<and>
     (r = -1 \<longrightarrow> Ev_thread_cancel \<notin> set new \<longrightarrow> (\<forall>x. clients_open new x = 0)) \<and>
     status_blocks new = (if Ev_thread_start \<in> set new then 1 else 0)"
  using assms by (rule vxi11_connect_returns)

text \<open>A scheduler under which the thread is joined at the second wake-up, and one where it never is.\<close>

definition joining_threads :: threads where
  "joining_threads =
     \<lparr>th_clock = (\<lambda>h. (0, \<lparr>ts_sec = 0, ts_nsec = 0\<rparr>)), th_create = (\<lambda>h. 0), th_create_waiter = (\<lambda>h. 0),
      th_wait = (\<lambda>h ts k. (0, 0 < k)), th_stuck = (\<lambda>h ts. False), th_progress = (\<lambda>h. Finished), th_malloc = (\<lambda>h. True)\<rparr>"

definition expiring_threads :: threads where
  "expiring_threads = joining_threads\<lparr>th_wait := (\<lambda>h ts k. (ETIMEDOUT, False)), th_progress := (\<lambda>h. In_create_link)\<rparr>"

lemma join_decided_peers: "join_decided joining_threads" "join_decided expiring_threads"
  by (auto simp: join_decided_def joining_threads_def expiring_threads_def valid_time_def)

lemma status_memory_peers: "status_memory joining_threads" "status_memory expiring_threads"
  by (simp_all add: status_memory_def joining_threads_def expiring_threads_def)

theorem vxi11_connect_client_witness:
  "\<exists>r d' new. vxi11_connect (scripted_rpc []) mem_lib joining_threads (Some open_link) ''10.0.0.1'' 0 None 1000 [] =
       ret (r, Some d', [] @ new) \<and>
     (r = 0 \<or> r = -1) \<and>
     (r = 0 \<longrightarrow> (\<exists>cl arg res. rpc_client d' = Some cl \<and>
        Ev_clnt_call cl create_link arg RPC_SUCCESS res \<in> set new \<and>
        (\<forall>x. clients_open new x = (if x = cl then 1 else 0)))) \<and>
     (r = -1 \<longrightarrow> Ev_thread_cancel \<notin> set new \<longrightarrow> (\<forall>x. clients_open new x = 0)) \<and>
     status_blocks new = (if Ev_thread_start \<in> set new then 1 else 0)"
  by (rule vxi11_connect_client [OF join_decided_peers(1) status_memory_peers(1)]) simp

text \<open>When the connecting thread finishes before the deadline, the call is the work of the thread.\<close>

definition joins_at_once :: "threads \<Rightarrow> bool" where
  "joins_at_once th \<longleftrightarrow>
     (\<forall>h. fst (th_clock th h) = 0 \<and> th_create th h = 0) \<and> status_memory th \<and> (\<forall>ts h. pthread_timedjoin th ts h = ret 0)"

lemma vxi11_connect_joined:
  assumes "joins_at_once th"
  shows "vxi11_connect net lib th data address port name timeout h =
    do_vxi11_connect net lib data address port name timeout (h @ [Ev_thread_start, Ev_status_alloc True])"
proof -
  obtain now where "th_clock th h = (0, now)"
    using assms unfolding joins_at_once_def by (metis prod.collapse)
  then show ?thesis
    using assms by (simp add: vxi11_connect_def joins_at_once_def thread_vxi11_connect_def sys_status_alloc_ok)
qed

lemma joins_at_once_joining: "joins_at_once joining_threads"
proof -
  have "pthread_timedjoin joining_threads ts h = ret 0" for ts h
    unfolding pthread_timedjoin_def
    by (subst timedjoin_loop.simps, subst timedjoin_loop.simps) (simp add: joining_threads_def)
  then show ?thesis by (simp add: joins_at_once_def status_memory_peers) (simp add: joining_threads_def)
qed

text \<open>
  A connection that times out while \<^verbatim>\<open>create_link\<close> is under way leaks: the thread is cancelled after
  \<^verbatim>\<open>clnt_create\<close> stored the handle, -1 is returned and nothing destroys the handle, since the caller
  treats the session as not connected.
\<close>

lemma vxi11_connect_timeout_leaks:
  assumes "th_clock th h = (0, now)" and "th_create th h = 0"
    and "th_create_waiter th (h @ [Ev_thread_start]) = 0"
    and "th_wait th (h @ [Ev_thread_start]) (ms_deadline now timeout) 0 = (ETIMEDOUT, False)"
    and "\<not> th_stuck th (h @ [Ev_thread_start]) (ms_deadline now timeout)"
    and "th_progress th (h @ [Ev_thread_start]) = In_create_link"
    and "rpc_create net (h @ [Ev_thread_start, Ev_status_alloc (th_malloc th (h @ [Ev_thread_start]))]) address
      DEVICE_CORE DEVICE_CORE_VERSION ''tcp'' = Some cl"
  shows "\<exists>d' new. vxi11_connect net lib th (Some d) address port name timeout h = ret (-1, Some d', h @ new) \<and>
    clients_open new cl = 1"
proof -
  have "pthread_timedjoin th (ms_deadline now timeout) (h @ [Ev_thread_start]) = ret ETIMEDOUT"
    using assms unfolding pthread_timedjoin_def by (subst timedjoin_loop.simps) simp
  then show ?thesis
    using assms
    by (simp add: vxi11_connect_def cancelled_connect_def sys_status_alloc_def sys_clnt_create_def ETIMEDOUT_def Let_def)
qed

text \<open>
  \<^verbatim>\<open>vxi11_disconnect\<close> of a connected session returns 0 after it asked the instrument to destroy the
  session's link and then released the handle.
\<close>

lemma vxi11_disconnect_returns:
  assumes "rpc_client d = Some cl"
  shows "\<exists>stat res. vxi11_disconnect net lib d h =
    ret (0, h @ [Ev_clnt_call cl destroy_link (Obj_Device_Link (clr_lid (link_resp d))) stat res,
                 Ev_clnt_destroy cl])"
  using assms
  by (auto simp: vxi11_disconnect_def destroy_link_1_def call_stub_Some sys_clnt_destroy_def
      split: prod.splits)

end
