(* ===== verification/Backend.thy ===== *)
theory Backend
  imports Tcp Vxi11
begin

text \<open>
  The interface of \<^verbatim>\<open>src/src/session.h\<close>: a session calls its protocol through four function pointers
  and hands them an opaque pointer. The locale \<open>backend\<close> is the contract the session layer relies
  on; both protocols meet it, each under what it needs from the outside world.
\<close>

text \<open>
  \<open>good\<close> says that the data belongs to an open connection. Connecting always returns and makes the
  data good when it reports success, for a timeout that is not negative; on good data and a message inside its buffer the other
  operations return. No operation rewrites the history.
\<close>

locale backend =
  fixes good :: "'d \<Rightarrow> bool"
    and conn :: "'d option \<Rightarrow> string \<Rightarrow> int \<Rightarrow> string option \<Rightarrow> int \<Rightarrow> hist \<Rightarrow> (int \<times> 'd option \<times> hist) c"
    and disc :: "'d \<Rightarrow> hist \<Rightarrow> (int \<times> hist) c"
    and send :: "'d \<Rightarrow> bytes \<Rightarrow> int \<Rightarrow> int \<Rightarrow> hist \<Rightarrow> (int \<times> hist) c"
    and receive :: "'d \<Rightarrow> bytes \<Rightarrow> int \<Rightarrow> int \<Rightarrow> hist \<Rightarrow> (int \<times> bytes \<times> hist) c"
  assumes conn_ok: "0 \<le> timeout \<Longrightarrow> \<exists>r d' new. conn (Some d) address port name timeout h = ret (r, Some d', h @ new) \<and>
      (r = 0 \<or> r = -1) \<and> (r = 0 \<longrightarrow> good d')"
    and disc_ok: "good d \<Longrightarrow> \<exists>new. disc d h = ret (0, h @ new)"
    and send_ok: "good d \<Longrightarrow> 0 \<le> len \<Longrightarrow> len < 2 ^ 31 \<Longrightarrow> nat len \<le> length message \<Longrightarrow>
      \<exists>r new. send d message len timeout h = ret (r, h @ new)"
    and receive_ok: "good d \<Longrightarrow> 0 \<le> len \<Longrightarrow> len < 2 ^ 31 \<Longrightarrow> nat len \<le> length message \<Longrightarrow>
      \<exists>r message' new. receive d message len timeout h = ret (r, message', h @ new) \<and>
        r \<le> len \<and> length message' = length message \<and> drop (nat len) message' = drop (nat len) message"
begin

lemma conn_cases:
  assumes "0 \<le> timeout"
  obtains (opened) d' new where "conn (Some d) address port name timeout h = ret (0, Some d', h @ new)" "good d'"
    | (refused) d' new where "conn (Some d) address port name timeout h = ret (-1, Some d', h @ new)"
  using conn_ok [OF assms, of d address port name h] by blast

lemma round_trip_returns:
  assumes "good d" and "0 \<le> len" and "len < 2 ^ 31" and "nat len \<le> length message"
    and "0 \<le> len'" and "len' < 2 ^ 31" and "nat len' \<le> length reply"
  shows "\<exists>n m reply' new. cbind (send d message len timeout h) (\<lambda>(n, h).
      cbind (receive d reply len' timeout h) (\<lambda>(m, reply, h). ret (n, m, reply, h))) =
    ret (n, m, reply', h @ new) \<and> length reply' = length reply"
proof -
  obtain n new where s: "send d message len timeout h = ret (n, h @ new)"
    using send_ok assms by blast
  obtain m reply' new' where "receive d reply len' timeout (h @ new) = ret (m, reply', (h @ new) @ new')"
    and "length reply' = length reply"
    using receive_ok assms by blast
  with s show ?thesis by simp
qed

end

section \<open>The two protocols\<close>

text \<open>What the raw TCP backend needs from the operating system.\<close>

locale tcp_world =
  fixes os :: posix
  assumes recv_contract: "recv_bounded os"
    and send_contract: "send_bounded os" "send_progress os"
    and descriptors: "few_files os"

definition tcp_good :: "tcp_data \<Rightarrow> bool" where
  "tcp_good d \<longleftrightarrow> 0 \<le> server_socket d \<and> server_socket d < FD_SETSIZE"

sublocale tcp_world \<subseteq> tcp: backend tcp_good "tcp_connect os" "\<lambda>d h. ret (tcp_disconnect d h)"
  "tcp_send os" "tcp_receive os"
proof unfold_locales
  show "\<exists>r d' new. tcp_connect os (Some d) address port name timeout h = ret (r, Some d', h @ new) \<and>
      (r = 0 \<or> r = -1) \<and> (r = 0 \<longrightarrow> tcp_good d')" for d address port name timeout h
    using tcp_connect_returns [OF descriptors] unfolding tcp_good_def .
  show "\<exists>new. ret (tcp_disconnect d h) = ret (0, h @ new)" for d h
    by (simp add: tcp_disconnect_def sys_close_def)
  show "\<exists>r new. tcp_send os d message len timeout h = ret (r, h @ new)"
    if "tcp_good d" "0 \<le> len" "len < 2 ^ 31" "nat len \<le> length message" for d message len timeout h
    using that tcp_send_returns [OF send_contract] unfolding tcp_good_def by blast
  show "\<exists>r message' new. tcp_receive os d message len timeout h = ret (r, message', h @ new) \<and>
        r \<le> len \<and> length message' = length message \<and> drop (nat len) message' = drop (nat len) message"
    if "tcp_good d" "0 \<le> len" "len < 2 ^ 31" "nat len \<le> length message" for d message len timeout h
    using that tcp_receive_flags_ok [OF recv_contract] unfolding tcp_good_def tcp_receive_def by blast
qed

text \<open>
  What the VXI-11 backend needs: an instrument that returns no more than it is asked for, a timed join that comes to an
  end (\<open>join_decided\<close>), memory for the result of the connecting thread.
\<close>

locale vxi11_world =
  fixes net :: rpc and lib :: xdr_lib and th :: threads
  assumes instrument: "read_bounded net"
    and clock: "join_decided th"
    and blocks: "status_memory th"

definition vxi11_good :: "vxi11_data \<Rightarrow> bool" where
  "vxi11_good d \<longleftrightarrow> rpc_client d \<noteq> None"

sublocale vxi11_world \<subseteq> vxi: backend vxi11_good "vxi11_connect net lib th" "vxi11_disconnect net lib"
  "vxi11_send net lib" "vxi11_receive net lib"
proof unfold_locales
  show "\<exists>r d' new. vxi11_connect net lib th (Some d) address port name timeout h = ret (r, Some d', h @ new) \<and>
      (r = 0 \<or> r = -1) \<and> (r = 0 \<longrightarrow> vxi11_good d')" if "0 \<le> timeout" for d address port name timeout h
    using vxi11_connect_returns [OF clock blocks that, of net lib d address port name h]
    unfolding vxi11_good_def by blast
  show "\<exists>new. vxi11_disconnect net lib d h = ret (0, h @ new)" if "vxi11_good d" for d h
    using that vxi11_disconnect_returns unfolding vxi11_good_def by blast
  show "\<exists>r new. vxi11_send net lib d message len timeout h = ret (r, h @ new)"
    if "vxi11_good d" "0 \<le> len" "len < 2 ^ 31" "nat len \<le> length message" for d message len timeout h
  proof -
    from that(1) obtain cl where "rpc_client d = Some cl" unfolding vxi11_good_def by blast
    moreover have "len \<le> int (length message)" using that by simp
    ultimately show ?thesis
      using that vxi11_send_returns [of d cl len message net lib timeout h] by blast
  qed
  show "\<exists>r message' new. vxi11_receive net lib d message len timeout h = ret (r, message', h @ new) \<and>
        r \<le> len \<and> length message' = length message \<and> drop (nat len) message' = drop (nat len) message"
    if "vxi11_good d" "0 \<le> len" "len < 2 ^ 31" "nat len \<le> length message" for d message len timeout h
  proof -
    from that(1) obtain cl where "rpc_client d = Some cl" unfolding vxi11_good_def by blast
    moreover have "len \<le> int (length message)" using that by simp
    ultimately show ?thesis
      using that vxi11_receive_returns [OF instrument, of d cl len message lib timeout h] by blast
  qed
qed

text \<open>Both contracts can be met.\<close>

lemma tcp_world_chunk: "0 < k \<Longrightarrow> tcp_world (chunk_posix k chunks)"
  by (intro tcp_world.intro chunk_posix_recv_bounded chunk_posix_send_bounded chunk_posix_send_progress)
    (simp_all add: few_files_def chunk_posix_def FD_SETSIZE_def)

interpretation lan: tcp_world "chunk_posix 2 [[1, 2]]"
  by (rule tcp_world_chunk) simp

interpretation gpib: vxi11_world "scripted_rpc [[1, 2], [3]]" mem_lib joining_threads
  by unfold_locales (simp_all add: read_bounded_scripted join_decided_peers status_memory_peers)

end
