(* ===== verification/Lxi.thy ===== *)
theory Lxi
  imports Backend
begin

text \<open>
  The session layer, \<^verbatim>\<open>src/src/lxi.c\<close> with \<^verbatim>\<open>src/src/session.h\<close>: the fixed table of sessions, the
  allocation of the protocol's data, and the API calls that go through the function pointers of a
  session. The table, the heap and the history of outside events are one state.
\<close>

definition LXI_OK :: int where "LXI_OK = 0"
definition LXI_ERROR :: int where "LXI_ERROR = -1"
definition SESSIONS_MAX :: nat where "SESSIONS_MAX = 1024"

text \<open>\<^verbatim>\<open>lxi_protocol_t\<close>; the last constructor is any other value of the C enumeration type.\<close>

datatype lxi_protocol = VXI11 | RAW | HISLIP | Other_protocol int

section \<open>Sessions and memory\<close>

text \<open>The functions a pointer of a session can point to.\<close>

datatype backend_fn = Fn_null | Fn_vxi11 | Fn_tcp

record session =
  allocated :: bool
  connected :: bool
  s_data :: "nat option"
  s_connect :: backend_fn
  s_disconnect :: backend_fn
  s_send :: backend_fn
  s_receive :: backend_fn

text \<open>A block of memory on the heap holds the data of one protocol.\<close>

datatype cell = Vxi11_cell vxi11_data | Tcp_cell tcp_data

record lxi_state =
  sessions :: "session list"
  heap :: "nat \<Rightarrow> cell option"
  next_ptr :: nat
  events :: hist

text \<open>
  The outside world of the library: operating system, RPC library, XDR library, threads and the
  allocator, which may fail and returns blocks with arbitrary contents.
\<close>

record world =
  w_os :: posix
  w_net :: rpc
  w_lib :: xdr_lib
  w_th :: threads
  w_malloc :: "nat \<Rightarrow> bool"
  w_vxi11_fill :: vxi11_data
  w_tcp_fill :: tcp_data

definition malloc :: "world \<Rightarrow> cell \<Rightarrow> lxi_state \<Rightarrow> nat option \<times> lxi_state" where
  "malloc w fill st =
     (let p = next_ptr st in
      if w_malloc w p then (Some p, st\<lparr>heap := (heap st)(p := Some fill), next_ptr := Suc p\<rparr>)
      else (None, st\<lparr>next_ptr := Suc p\<rparr>))"

definition free_block :: "nat option \<Rightarrow> lxi_state \<Rightarrow> lxi_state c" where
  "free_block data st =
     (case data of
        None \<Rightarrow> ret st
      | Some p \<Rightarrow> if heap st p = None then fail Double_Free
                  else ret (st\<lparr>heap := (heap st)(p := None)\<rparr>))"

definition load_block :: "nat option \<Rightarrow> lxi_state \<Rightarrow> cell c" where
  "load_block data st =
     (case data of
        None \<Rightarrow> fail Null_Deref
      | Some p \<Rightarrow> (case heap st p of None \<Rightarrow> fail Use_After_Free | Some x \<Rightarrow> ret x))"

section \<open>Calls through the function pointers\<close>

text \<open>The operations of a protocol on its data; data of the other protocol is a wrong pointer.\<close>

fun cell_connect ::
    "world \<Rightarrow> backend_fn \<Rightarrow> cell option \<Rightarrow> string \<Rightarrow> int \<Rightarrow> string option \<Rightarrow> int \<Rightarrow> hist \<Rightarrow>
     (int \<times> cell option \<times> hist) c" where
  "cell_connect w Fn_vxi11 None address port name timeout h =
     cbind (vxi11_connect (w_net w) (w_lib w) (w_th w) None address port name timeout h)
       (\<lambda>(r, d, h). ret (r, map_option Vxi11_cell d, h))"
| "cell_connect w Fn_vxi11 (Some (Vxi11_cell d)) address port name timeout h =
     cbind (vxi11_connect (w_net w) (w_lib w) (w_th w) (Some d) address port name timeout h)
       (\<lambda>(r, d, h). ret (r, map_option Vxi11_cell d, h))"
| "cell_connect w Fn_tcp None address port name timeout h =
     cbind (tcp_connect (w_os w) None address port name timeout h)
       (\<lambda>(r, d, h). ret (r, map_option Tcp_cell d, h))"
| "cell_connect w Fn_tcp (Some (Tcp_cell d)) address port name timeout h =
     cbind (tcp_connect (w_os w) (Some d) address port name timeout h)
       (\<lambda>(r, d, h). ret (r, map_option Tcp_cell d, h))"
| "cell_connect w _ _ address port name timeout h = fail Bad_Pointer"

fun cell_disconnect :: "world \<Rightarrow> backend_fn \<Rightarrow> cell \<Rightarrow> hist \<Rightarrow> (int \<times> hist) c" where
  "cell_disconnect w Fn_vxi11 (Vxi11_cell d) h = vxi11_disconnect (w_net w) (w_lib w) d h"
| "cell_disconnect w Fn_tcp (Tcp_cell d) h = ret (tcp_disconnect d h)"
| "cell_disconnect w _ _ h = fail Bad_Pointer"

fun cell_send :: "world \<Rightarrow> backend_fn \<Rightarrow> cell \<Rightarrow> bytes \<Rightarrow> int \<Rightarrow> int \<Rightarrow> hist \<Rightarrow> (int \<times> hist) c" where
  "cell_send w Fn_vxi11 (Vxi11_cell d) message len timeout h =
     vxi11_send (w_net w) (w_lib w) d message len timeout h"
| "cell_send w Fn_tcp (Tcp_cell d) message len timeout h = tcp_send (w_os w) d message len timeout h"
| "cell_send w _ _ message len timeout h = fail Bad_Pointer"

fun cell_receive ::
    "world \<Rightarrow> backend_fn \<Rightarrow> cell \<Rightarrow> bytes \<Rightarrow> int \<Rightarrow> int \<Rightarrow> hist \<Rightarrow> (int \<times> bytes \<times> hist) c" where
  "cell_receive w Fn_vxi11 (Vxi11_cell d) message len timeout h =
     vxi11_receive (w_net w) (w_lib w) d message len timeout h"
| "cell_receive w Fn_tcp (Tcp_cell d) message len timeout h = tcp_receive (w_os w) d message len timeout h"
| "cell_receive w _ _ message len timeout h = fail Bad_Pointer"

section \<open>The API\<close>

text \<open>An entry of the static array: zero before anything was stored.\<close>

definition session0 :: session where
  "session0 = \<lparr>allocated = False, connected = False, s_data = None, s_connect = Fn_null,
     s_disconnect = Fn_null, s_send = Fn_null, s_receive = Fn_null\<rparr>"

definition lxi_start :: lxi_state where
  "lxi_start = \<lparr>sessions = replicate SESSIONS_MAX session0, heap = (\<lambda>p. None), next_ptr = 0, events = []\<rparr>"

definition session_at :: "int \<Rightarrow> lxi_state \<Rightarrow> session c" where
  "session_at device st =
     (if 0 \<le> device \<and> nat device < length (sessions st) then ret (sessions st ! nat device)
      else fail Out_Of_Bounds)"

definition is_valid_session :: "int \<Rightarrow> lxi_state \<Rightarrow> bool c" where
  "is_valid_session device st =
     (if device < 0 then ret False
      else if int SESSIONS_MAX < device then ret False
      else cbind (session_at device st) (\<lambda>s. ret (allocated s)))"

definition lxi_init :: "lxi_state \<Rightarrow> int \<times> lxi_state" where
  "lxi_init st =
     (LXI_OK, st\<lparr>sessions := map (\<lambda>s. s\<lparr>allocated := False, connected := False\<rparr>) (sessions st)\<rparr>)"

text \<open>The search for the first free entry.\<close>

fun find_free :: "session list \<Rightarrow> nat option" where
  "find_free [] = None"
| "find_free (s # ss) = (if \<not> allocated s then Some 0 else map_option Suc (find_free ss))"

definition set_session :: "nat \<Rightarrow> (session \<Rightarrow> session) \<Rightarrow> lxi_state \<Rightarrow> lxi_state" where
  "set_session i f st = st\<lparr>sessions := (sessions st)[i := f (sessions st ! i)]\<rparr>"

text \<open>The switch on the protocol: the function pointers and the data of the entry.\<close>

definition setup_backend :: "world \<Rightarrow> nat \<Rightarrow> backend_fn \<Rightarrow> cell \<Rightarrow> lxi_state \<Rightarrow> lxi_state" where
  "setup_backend w i fn fill st =
     (let st = set_session i (\<lambda>s. s\<lparr>s_connect := fn, s_send := fn, s_receive := fn, s_disconnect := fn\<rparr>) st;
          (data, st) = malloc w fill st
      in set_session i (\<lambda>s. s\<lparr>s_data := data\<rparr>) st)"

definition setup_protocol :: "world \<Rightarrow> nat \<Rightarrow> lxi_protocol \<Rightarrow> lxi_state \<Rightarrow> lxi_state option" where
  "setup_protocol w i protocol st =
     (case protocol of
        VXI11 \<Rightarrow> Some (setup_backend w i Fn_vxi11 (Vxi11_cell (w_vxi11_fill w)) st)
      | RAW \<Rightarrow> Some (setup_backend w i Fn_tcp (Tcp_cell (w_tcp_fill w)) st)
      | HISLIP \<Rightarrow> None
      | Other_protocol _ \<Rightarrow> None)"

text \<open>\<^verbatim>\<open>session[i].connect(session[i].data, ...)\<close>; the protocol may store into its data.\<close>

definition call_connect ::
    "world \<Rightarrow> nat \<Rightarrow> string \<Rightarrow> int \<Rightarrow> string option \<Rightarrow> int \<Rightarrow> lxi_state \<Rightarrow> (int \<times> lxi_state) c" where
  "call_connect w i address port name timeout st =
     (let s = sessions st ! i;
          before = (case s_data s of None \<Rightarrow> None | Some p \<Rightarrow> heap st p)
      in cbind (cell_connect w (s_connect s) before address port name timeout (events st))
           (\<lambda>(r, after, h).
             ret (r, case s_data s of
                       None \<Rightarrow> st\<lparr>events := h\<rparr>
                     | Some p \<Rightarrow> st\<lparr>heap := (heap st)(p := after), events := h\<rparr>)))"

definition lxi_connect ::
    "world \<Rightarrow> string \<Rightarrow> int \<Rightarrow> string option \<Rightarrow> int \<Rightarrow> lxi_protocol \<Rightarrow> lxi_state \<Rightarrow> (int \<times> lxi_state) c" where
  "lxi_connect w address port name timeout protocol st =
     (case find_free (sessions st) of
        None \<Rightarrow> ret (LXI_ERROR, st)
      | Some i \<Rightarrow>
          (case setup_protocol w i protocol st of
             None \<Rightarrow> ret (LXI_ERROR, st)
           | Some st \<Rightarrow>
               cbind (call_connect w i address port name timeout st)
                 (\<lambda>(r, st).
                   if r \<noteq> 0
                   then cbind (free_block (s_data (sessions st ! i)) st) (\<lambda>st. ret (LXI_ERROR, st))
                   else ret (int i, set_session i (\<lambda>s. s\<lparr>allocated := True, connected := True\<rparr>) st))))"

text \<open>
  The two critical sections of \<^verbatim>\<open>lxi_disconnect\<close>: the check, and the release of the entry, which does
  not look at \<^verbatim>\<open>allocated\<close> again.
\<close>

definition disconnect_locked :: "world \<Rightarrow> int \<Rightarrow> lxi_state \<Rightarrow> (int \<times> lxi_state) c" where
  "disconnect_locked w device st =
     cbind (session_at device st)
       (\<lambda>s. cbind (if connected s
                   then cbind (load_block (s_data s) st)
                          (\<lambda>x. cbind (cell_disconnect w (s_disconnect s) x (events st))
                            (\<lambda>(_, h). ret (st\<lparr>events := h\<rparr>)))
                   else ret st)
              (\<lambda>st. cbind (free_block (s_data s) st)
                (\<lambda>st. ret (LXI_OK, set_session (nat device)
                        (\<lambda>s. s\<lparr>connected := False, allocated := False\<rparr>) st))))"

definition lxi_disconnect :: "world \<Rightarrow> int \<Rightarrow> lxi_state \<Rightarrow> (int \<times> lxi_state) c" where
  "lxi_disconnect w device st =
     cbind (is_valid_session device st)
       (\<lambda>ok. if \<not> ok then ret (LXI_ERROR, st) else disconnect_locked w device st)"

text \<open>
  The calls behind the check of \<^verbatim>\<open>lxi_send\<close> and \<^verbatim>\<open>lxi_receive\<close>, with the function and the data pointer of an entry, and
  together with reading the entry; no lock is held.
\<close>

definition send_entry :: "world \<Rightarrow> session \<Rightarrow> bytes \<Rightarrow> int \<Rightarrow> int \<Rightarrow> lxi_state \<Rightarrow> (int \<times> lxi_state) c" where
  "send_entry w s message len timeout st =
     cbind (load_block (s_data s) st)
       (\<lambda>x. cbind (cell_send w (s_send s) x message len timeout (events st))
         (\<lambda>(bytes_sent, h).
           ret (if bytes_sent < 0 then LXI_ERROR else bytes_sent, st\<lparr>events := h\<rparr>)))"

definition send_unlocked :: "world \<Rightarrow> int \<Rightarrow> bytes \<Rightarrow> int \<Rightarrow> int \<Rightarrow> lxi_state \<Rightarrow> (int \<times> lxi_state) c" where
  "send_unlocked w device message len timeout st =
     cbind (session_at device st) (\<lambda>s. send_entry w s message len timeout st)"

definition lxi_send :: "world \<Rightarrow> int \<Rightarrow> bytes \<Rightarrow> int \<Rightarrow> int \<Rightarrow> lxi_state \<Rightarrow> (int \<times> lxi_state) c" where
  "lxi_send w device message len timeout st =
     cbind (is_valid_session device st)
       (\<lambda>ok. if \<not> ok then ret (LXI_ERROR, st) else send_unlocked w device message len timeout st)"

definition receive_entry ::
    "world \<Rightarrow> session \<Rightarrow> bytes \<Rightarrow> int \<Rightarrow> int \<Rightarrow> lxi_state \<Rightarrow> (int \<times> bytes \<times> lxi_state) c" where
  "receive_entry w s message len timeout st =
     cbind (load_block (s_data s) st)
       (\<lambda>x. cbind (cell_receive w (s_receive s) x message len timeout (events st))
         (\<lambda>(bytes_received, message, h).
           ret (if bytes_received < 0 then LXI_ERROR else bytes_received, message, st\<lparr>events := h\<rparr>)))"

definition receive_unlocked ::
    "world \<Rightarrow> int \<Rightarrow> bytes \<Rightarrow> int \<Rightarrow> int \<Rightarrow> lxi_state \<Rightarrow> (int \<times> bytes \<times> lxi_state) c" where
  "receive_unlocked w device message len timeout st =
     cbind (session_at device st) (\<lambda>s. receive_entry w s message len timeout st)"

definition lxi_receive ::
    "world \<Rightarrow> int \<Rightarrow> bytes \<Rightarrow> int \<Rightarrow> int \<Rightarrow> lxi_state \<Rightarrow> (int \<times> bytes \<times> lxi_state) c" where
  "lxi_receive w device message len timeout st =
     cbind (is_valid_session device st)
       (\<lambda>ok. if \<not> ok then ret (LXI_ERROR, message, st)
             else receive_unlocked w device message len timeout st)"

section \<open>The table as a map from handles to connections\<close>

text \<open>
  The abstract view: which handles are open, and the protocol and data behind each. The invariant of
  the table says that an allocated entry is connected, that its four function pointers belong to
  one protocol and its data is a live block of that protocol, and that no two share a block.
\<close>

fun good_cell :: "backend_fn \<Rightarrow> cell \<Rightarrow> bool" where
  "good_cell Fn_vxi11 (Vxi11_cell d) = vxi11_good d"
| "good_cell Fn_tcp (Tcp_cell d) = tcp_good d"
| "good_cell _ _ = False"

definition handles :: "lxi_state \<Rightarrow> nat \<Rightarrow> (backend_fn \<times> cell) option" where
  "handles st i =
     (if i < length (sessions st) \<and> allocated (sessions st ! i)
      then (case s_data (sessions st ! i) of
              None \<Rightarrow> None
            | Some p \<Rightarrow> map_option (Pair (s_connect (sessions st ! i))) (heap st p))
      else None)"

definition session_ok :: "(nat \<Rightarrow> cell option) \<Rightarrow> session \<Rightarrow> bool" where
  "session_ok hp s \<longleftrightarrow>
     connected s = allocated s \<and>
     (allocated s \<longrightarrow> s_disconnect s = s_connect s \<and> s_send s = s_connect s \<and> s_receive s = s_connect s \<and>
        (\<exists>p x. s_data s = Some p \<and> hp p = Some x \<and> good_cell (s_connect s) x))"

definition lxi_inv :: "lxi_state \<Rightarrow> bool" where
  "lxi_inv st \<longleftrightarrow>
     length (sessions st) = SESSIONS_MAX \<and>
     (\<forall>i < SESSIONS_MAX. session_ok (heap st) (sessions st ! i)) \<and>
     (\<forall>i < SESSIONS_MAX. \<forall>j < SESSIONS_MAX. allocated (sessions st ! i) \<longrightarrow> allocated (sessions st ! j) \<longrightarrow>
        s_data (sessions st ! i) = s_data (sessions st ! j) \<longrightarrow> i = j) \<and>
     (\<forall>p. heap st p \<noteq> None \<longrightarrow> p < next_ptr st)"

text \<open>
  Every live block of session data belongs to an open handle. Sockets and the blocks for the results of threads are not
  session data: the histories record them.
\<close>

definition data_owned :: "lxi_state \<Rightarrow> bool" where
  "data_owned st \<longleftrightarrow>
     (\<forall>p. heap st p \<noteq> None \<longrightarrow>
        (\<exists>i < SESSIONS_MAX. allocated (sessions st ! i) \<and> s_data (sessions st ! i) = Some p))"

lemma lxi_start_inv: "lxi_inv lxi_start" "data_owned lxi_start"
  by (simp_all add: lxi_inv_def data_owned_def lxi_start_def session_ok_def session0_def)

lemma find_free_Some:
  "find_free ss = Some i \<Longrightarrow> i < length ss \<and> \<not> allocated (ss ! i) \<and> (\<forall>j < i. allocated (ss ! j))"
  by (induction ss arbitrary: i) (auto simp: nth_Cons split: if_splits nat.splits)

lemma find_free_None: "find_free ss = None \<longleftrightarrow> (\<forall>i < length ss. allocated (ss ! i))"
  by (induction ss) (auto simp: nth_Cons less_Suc_eq_0_disj split: nat.splits)

lemma handles_Some_iff:
  assumes "lxi_inv st"
  shows "handles st i \<noteq> None \<longleftrightarrow> i < SESSIONS_MAX \<and> allocated (sessions st ! i)"
  using assms by (auto simp: lxi_inv_def handles_def session_ok_def)

lemma lxi_inv_entry:
  assumes "lxi_inv st" and "handles st i = Some (fn, x)"
  obtains p where "i < length (sessions st)" "allocated (sessions st ! i)" "connected (sessions st ! i)"
    "s_data (sessions st ! i) = Some p" "heap st p = Some x" "good_cell fn x"
    "s_connect (sessions st ! i) = fn" "s_disconnect (sessions st ! i) = fn" "s_send (sessions st ! i) = fn"
    "s_receive (sessions st ! i) = fn"
  using assms by (auto simp: lxi_inv_def handles_def session_ok_def split: if_splits option.splits)

lemma is_valid_session_iff:
  assumes "lxi_inv st" and "device \<noteq> int SESSIONS_MAX"
  shows "is_valid_session device st = ret (0 \<le> device \<and> handles st (nat device) \<noteq> None)"
  using assms handles_Some_iff [OF assms(1), of "nat device"]
  by (auto simp: is_valid_session_def session_at_def lxi_inv_def)

section \<open>The protocols behind the table\<close>

locale lxi_world = tcp_world "w_os w" + vxi11_world "w_net w" "w_lib w" "w_th w" for w :: world +
  assumes memory: "w_malloc w p"
begin

lemma cell_disconnect_ok:
  "good_cell fn x \<Longrightarrow> \<exists>new. cell_disconnect w fn x h = ret (0, h @ new)"
  by (cases "(w, fn, x, h)" rule: cell_disconnect.cases) (use tcp.disc_ok vxi.disc_ok in auto)

lemma cell_send_ok:
  "good_cell fn x \<Longrightarrow> 0 \<le> len \<Longrightarrow> len < 2 ^ 31 \<Longrightarrow> nat len \<le> length message \<Longrightarrow>
    \<exists>r new. cell_send w fn x message len timeout h = ret (r, h @ new)"
  by (cases fn; cases x) (auto intro: tcp.send_ok vxi.send_ok)

lemma cell_receive_ok:
  "good_cell fn x \<Longrightarrow> 0 \<le> len \<Longrightarrow> len < 2 ^ 31 \<Longrightarrow> nat len \<le> length message \<Longrightarrow>
    \<exists>r message' new. cell_receive w fn x message len timeout h = ret (r, message', h @ new) \<and>
      r \<le> len \<and> length message' = length message \<and> drop (nat len) message' = drop (nat len) message"
  by (cases fn; cases x) (auto intro: tcp.receive_ok [simplified] vxi.receive_ok [simplified])

lemma cell_connect_ok:
  assumes "0 \<le> timeout" and "fn = Fn_vxi11 \<and> x = Vxi11_cell dv \<or> fn = Fn_tcp \<and> x = Tcp_cell dt"
  shows "\<exists>r x' new. cell_connect w fn (Some x) address port name timeout h = ret (r, Some x', h @ new) \<and>
    (r = 0 \<or> r = -1) \<and> (r = 0 \<longrightarrow> good_cell fn x')"
  using assms(2) tcp.conn_ok [OF assms(1), of dt address port name h] vxi.conn_ok [OF assms(1), of dv address port name h]
  by fastforce

end

text \<open>Opening a session when an entry and memory are available, in one step.\<close>

definition opened :: "nat \<Rightarrow> backend_fn \<Rightarrow> cell option \<Rightarrow> hist \<Rightarrow> lxi_state \<Rightarrow> lxi_state" where
  "opened i fn x h st =
     st\<lparr>sessions := (sessions st)[i := (sessions st ! i)\<lparr>s_data := Some (next_ptr st), s_connect := fn,
          s_disconnect := fn, s_send := fn, s_receive := fn\<rparr>],
        heap := (heap st)(next_ptr st := x), next_ptr := Suc (next_ptr st), events := h\<rparr>"

definition protocol_fn :: "lxi_protocol \<Rightarrow> backend_fn" where
  "protocol_fn pr = (case pr of VXI11 \<Rightarrow> Fn_vxi11 | RAW \<Rightarrow> Fn_tcp | _ \<Rightarrow> Fn_null)"

lemma protocol_fn_simps: "protocol_fn VXI11 = Fn_vxi11" "protocol_fn RAW = Fn_tcp"
  by (simp_all add: protocol_fn_def)

definition fill_cell :: "world \<Rightarrow> lxi_protocol \<Rightarrow> cell" where
  "fill_cell w pr = (if pr = VXI11 then Vxi11_cell (w_vxi11_fill w) else Tcp_cell (w_tcp_fill w))"

lemma lxi_connect_unfold:
  assumes "find_free (sessions st) = Some i" and "pr = VXI11 \<or> pr = RAW" and "w_malloc w (next_ptr st)"
  shows "lxi_connect w address port name timeout pr st =
    cbind (cell_connect w (protocol_fn pr) (Some (fill_cell w pr)) address port name timeout (events st))
      (\<lambda>(r, x, h).
        if r = 0 then ret (int i, set_session i (\<lambda>s. s\<lparr>allocated := True, connected := True\<rparr>)
                              (opened i (protocol_fn pr) x h st))
        else if x = None then fail Double_Free
        else ret (LXI_ERROR, opened i (protocol_fn pr) None h st))"
proof -
  have i: "i < length (sessions st)" using find_free_Some [OF assms(1)] by simp
  have perm: "s\<lparr>s_connect := fn, s_send := fn, s_receive := fn, s_disconnect := fn, s_data := d\<rparr> =
      s\<lparr>s_data := d, s_connect := fn, s_disconnect := fn, s_send := fn, s_receive := fn\<rparr>" for s :: session and d fn
    by (cases s) simp
  have prep: "setup_backend w i fn fill st = opened i fn (Some fill) (events st) st" for fn fill
    using i assms(3)
    by (cases st) (simp add: setup_backend_def set_session_def malloc_def opened_def Let_def perm)
  have call: "call_connect w i address port name timeout (opened i fn (Some fill) (events st) st) =
      cbind (cell_connect w fn (Some fill) address port name timeout (events st))
        (\<lambda>(r, x, h). ret (r, opened i fn x h st))" for fn fill
    using i by (cases st) (simp add: call_connect_def opened_def Let_def split: prod.splits)
  have free: "free_block (s_data (sessions (opened i fn x h st) ! i)) (opened i fn x h st) =
      (if x = None then fail Double_Free else ret (opened i fn None h st))" for fn x h
    using i by (cases st) (simp add: free_block_def opened_def)
  have body: "cbind (call_connect w i address port name timeout (opened i fn (Some fill) (events st) st))
      (\<lambda>(r, st). if r \<noteq> 0 then cbind (free_block (s_data (sessions st ! i)) st) (\<lambda>st. ret (LXI_ERROR, st))
                 else ret (int i, set_session i (\<lambda>s. s\<lparr>allocated := True, connected := True\<rparr>) st)) =
    cbind (cell_connect w fn (Some fill) address port name timeout (events st))
      (\<lambda>(r, x, h).
        if r = 0 then ret (int i, set_session i (\<lambda>s. s\<lparr>allocated := True, connected := True\<rparr>) (opened i fn x h st))
        else if x = None then fail Double_Free
        else ret (LXI_ERROR, opened i fn None h st))" for fn fill
    unfolding call cbind_assoc
    by (rule arg_cong2 [where f = cbind, OF refl], rule ext) (auto simp: free split: prod.splits)
  note unf = lxi_connect_def assms(1) setup_protocol_def fill_cell_def prep body
  from assms(2) show ?thesis
  proof
    assume pr: "pr = VXI11"
    show ?thesis unfolding pr protocol_fn_simps by (simp add: unf del: cell_connect.simps)
  next
    assume pr: "pr = RAW"
    show ?thesis unfolding pr protocol_fn_simps by (simp add: unf del: cell_connect.simps)
  qed
qed

lemma fresh_block: "lxi_inv st \<Longrightarrow> heap st (next_ptr st) = None"
  unfolding lxi_inv_def by blast

lemma fresh_data:
  assumes "lxi_inv st" and "j < SESSIONS_MAX" and "allocated (sessions st ! j)"
  shows "s_data (sessions st ! j) \<noteq> Some (next_ptr st)"
proof -
  have "session_ok (heap st) (sessions st ! j)" using assms unfolding lxi_inv_def by blast
  then show ?thesis using assms(3) fresh_block [OF assms(1)] by (auto simp: session_ok_def)
qed

text \<open>The invariant after one entry changed.\<close>

lemma lxi_inv_update:
  assumes inv: "lxi_inv st" and i: "i < SESSIONS_MAX"
    and upd: "sessions st' = (sessions st)[i := s']" and ok: "session_ok (heap st') s'"
    and other: "\<And>j p. j < SESSIONS_MAX \<Longrightarrow> j \<noteq> i \<Longrightarrow> allocated (sessions st ! j) \<Longrightarrow>
      s_data (sessions st ! j) = Some p \<Longrightarrow> heap st' p = heap st p \<and> (allocated s' \<longrightarrow> s_data s' \<noteq> Some p)"
    and bound: "\<And>p. heap st' p \<noteq> None \<Longrightarrow> p < next_ptr st'"
  shows "lxi_inv st'"
proof -
  have len: "length (sessions st) = SESSIONS_MAX" using inv by (simp add: lxi_inv_def)
  have old: "session_ok (heap st) (sessions st ! j)" if "j < SESSIONS_MAX" for j
    using inv that by (simp add: lxi_inv_def)
  have entries: "session_ok (heap st') (sessions st' ! j)" if "j < SESSIONS_MAX" for j
  proof (cases "j = i")
    case True
    then show ?thesis using ok upd len i by simp
  next
    case False
    then show ?thesis using old [OF that] other [OF that False] upd by (auto simp: session_ok_def)
  qed
  have cross: False if "k < SESSIONS_MAX" "k \<noteq> i" "allocated (sessions st ! k)" "allocated s'"
      "s_data (sessions st ! k) = s_data s'" for k
    using old [OF that(1)] other [OF that(1-3)] that(3-5) by (auto simp: session_ok_def)
  have "j = k" if jk: "j < SESSIONS_MAX" "k < SESSIONS_MAX" "allocated (sessions st' ! j)"
    "allocated (sessions st' ! k)" "s_data (sessions st' ! j) = s_data (sessions st' ! k)" for j k
  proof (rule ccontr)
    assume ne: "j \<noteq> k"
    consider "j = i" "k \<noteq> i" | "j \<noteq> i" "k = i" | "j \<noteq> i" "k \<noteq> i" using ne by blast
    then show False
    proof cases
      case 1
      then show False using cross [of k] jk upd len i by simp
    next
      case 2
      then show False using cross [of j] jk upd len i by simp
    next
      case 3
      then show False using inv jk upd ne unfolding lxi_inv_def by simp
    qed
  qed
  with entries show ?thesis using len upd bound unfolding lxi_inv_def by simp
qed

lemma lxi_inv_opened:
  assumes inv: "lxi_inv st" and i: "i < SESSIONS_MAX" and free: "\<not> allocated (sessions st ! i)"
  shows "lxi_inv (opened i fn None h st)"
proof (rule lxi_inv_update [OF inv i])
  have "\<not> connected (sessions st ! i)" using inv i free by (simp add: lxi_inv_def session_ok_def)
  with free show "session_ok (heap (opened i fn None h st)) ((sessions st ! i)\<lparr>s_data := Some (next_ptr st),
      s_connect := fn, s_disconnect := fn, s_send := fn, s_receive := fn\<rparr>)"
    by (simp add: session_ok_def)
qed (use inv free fresh_data [OF inv] in \<open>auto simp: opened_def lxi_inv_def less_Suc_eq split: if_splits\<close>)

lemma handles_opened:
  assumes inv: "lxi_inv st" and i: "i < SESSIONS_MAX" and free: "\<not> allocated (sessions st ! i)"
  shows "handles (opened i fn None h st) = handles st"
proof
  fix j
  show "handles (opened i fn None h st) j = handles st j"
    using inv i free fresh_data [OF inv, of j]
    by (cases "j = i") (auto simp: handles_def opened_def lxi_inv_def split: option.splits)
qed

lemma data_owned_update:
  assumes "data_owned st" and "lxi_inv st" and i: "i < SESSIONS_MAX" and upd: "sessions st' = (sessions st)[i := s']"
    and old: "\<And>p. heap st' p \<noteq> None \<Longrightarrow> allocated s' \<and> s_data s' = Some p \<or>
      heap st p \<noteq> None \<and> \<not> (allocated (sessions st ! i) \<and> s_data (sessions st ! i) = Some p)"
  shows "data_owned st'"
  unfolding data_owned_def
proof (intro allI impI)
  fix p assume p: "heap st' p \<noteq> None"
  have len: "length (sessions st) = SESSIONS_MAX" using assms(2) by (simp add: lxi_inv_def)
  from old [OF p] show "\<exists>j<SESSIONS_MAX. allocated (sessions st' ! j) \<and> s_data (sessions st' ! j) = Some p"
  proof
    assume "allocated s' \<and> s_data s' = Some p"
    then show ?thesis using i len upd by (intro exI [of _ i]) simp
  next
    assume o: "heap st p \<noteq> None \<and> \<not> (allocated (sessions st ! i) \<and> s_data (sessions st ! i) = Some p)"
    then obtain j where "j < SESSIONS_MAX" "allocated (sessions st ! j)" "s_data (sessions st ! j) = Some p"
      using assms(1) unfolding data_owned_def by blast
    moreover from this o have "j \<noteq> i" by blast
    ultimately show ?thesis using upd by (intro exI [of _ j]) simp
  qed
qed

lemma data_owned_opened:
  assumes "data_owned st" and "lxi_inv st" and "i < SESSIONS_MAX" and free: "\<not> allocated (sessions st ! i)"
  shows "data_owned (opened i fn None h st)"
  using assms(1-3)
  by (rule data_owned_update) (use free in \<open>auto simp: opened_def split: if_splits\<close>)

definition taken :: "nat \<Rightarrow> backend_fn \<Rightarrow> cell \<Rightarrow> hist \<Rightarrow> lxi_state \<Rightarrow> lxi_state" where
  "taken i fn x h st =
     set_session i (\<lambda>s. s\<lparr>allocated := True, connected := True\<rparr>) (opened i fn (Some x) h st)"

lemma sessions_taken:
  "i < length (sessions st) \<Longrightarrow> sessions (taken i fn x h st) = (sessions st)[i :=
     (sessions st ! i)\<lparr>allocated := True, connected := True, s_data := Some (next_ptr st), s_connect := fn,
        s_disconnect := fn, s_send := fn, s_receive := fn\<rparr>]"
  by (cases "sessions st ! i") (simp add: taken_def opened_def set_session_def)

lemma taken_simps [simp]:
  "heap (taken i fn x h st) = (heap st)(next_ptr st \<mapsto> x)"
  "next_ptr (taken i fn x h st) = Suc (next_ptr st)"
  "events (taken i fn x h st) = h"
  by (simp_all add: taken_def opened_def set_session_def)

lemma lxi_inv_taken:
  assumes inv: "lxi_inv st" and i: "i < SESSIONS_MAX" and good: "good_cell fn x"
  shows "lxi_inv (taken i fn x h st)"
proof (rule lxi_inv_update [OF inv i])
  show "sessions (taken i fn x h st) = (sessions st)[i :=
     (sessions st ! i)\<lparr>allocated := True, connected := True, s_data := Some (next_ptr st), s_connect := fn,
        s_disconnect := fn, s_send := fn, s_receive := fn\<rparr>]"
    using inv i by (intro sessions_taken) (simp add: lxi_inv_def)
qed (use inv good fresh_data [OF inv] in \<open>auto simp: session_ok_def lxi_inv_def less_Suc_eq split: if_splits\<close>)

lemma handles_taken:
  assumes inv: "lxi_inv st" and i: "i < SESSIONS_MAX"
  shows "handles (taken i fn x h st) = (handles st)(i \<mapsto> (fn, x))"
proof
  fix j
  have len: "i < length (sessions st)" using inv i by (simp add: lxi_inv_def)
  show "handles (taken i fn x h st) j = ((handles st)(i \<mapsto> (fn, x))) j"
    using inv i fresh_data [OF inv, of j] len
    by (cases "j = i") (auto simp: handles_def sessions_taken lxi_inv_def split: option.splits)
qed

lemma data_owned_taken:
  assumes "data_owned st" and inv: "lxi_inv st" and i: "i < SESSIONS_MAX" and free: "\<not> allocated (sessions st ! i)"
  shows "data_owned (taken i fn x h st)"
proof -
  have "i < length (sessions st)" using inv i by (simp add: lxi_inv_def)
  then show ?thesis
    using free by (intro data_owned_update [OF assms(1-3) sessions_taken]) (auto split: if_splits)
qed

text \<open>Releasing an entry.\<close>

definition released :: "nat \<Rightarrow> hist \<Rightarrow> lxi_state \<Rightarrow> lxi_state" where
  "released i h st =
     st\<lparr>sessions := (sessions st)[i := (sessions st ! i)\<lparr>connected := False, allocated := False\<rparr>],
        heap := (heap st)(the (s_data (sessions st ! i)) := None), events := h\<rparr>"

lemma released_ok:
  assumes inv: "lxi_inv st" and i: "handles st i = Some (fn, x)"
  shows "lxi_inv (released i h st) \<and> handles (released i h st) = (handles st)(i := None) \<and>
    (data_owned st \<longrightarrow> data_owned (released i h st))"
proof -
  obtain p where p: "i < length (sessions st)" "allocated (sessions st ! i)" "s_data (sessions st ! i) = Some p"
    using lxi_inv_entry [OF inv i] by metis
  have len: "length (sessions st) = SESSIONS_MAX" using inv by (simp add: lxi_inv_def)
  have other: "s_data (sessions st ! j) \<noteq> Some p" if "j < SESSIONS_MAX" "j \<noteq> i" "allocated (sessions st ! j)" for j
  proof -
    have "\<forall>a<SESSIONS_MAX. \<forall>b<SESSIONS_MAX. allocated (sessions st ! a) \<longrightarrow> allocated (sessions st ! b) \<longrightarrow>
        s_data (sessions st ! a) = s_data (sessions st ! b) \<longrightarrow> a = b"
      using inv unfolding lxi_inv_def by blast
    then show ?thesis using that p len by metis
  qed
  have bound: "heap st q \<noteq> None \<Longrightarrow> q < next_ptr st" for q using inv unfolding lxi_inv_def by blast
  have "lxi_inv (released i h st)"
    by (rule lxi_inv_update [OF inv, of i])
      (use p len other bound in \<open>auto simp: released_def session_ok_def split: if_splits\<close>)
  moreover have "handles (released i h st) j = ((handles st)(i := None)) j" for j
    using p len other [of j] by (cases "j = i") (auto simp: handles_def released_def split: option.splits)
  moreover have "data_owned (released i h st)" if "data_owned st"
    by (rule data_owned_update [OF that inv, of i]) (use p len in \<open>auto simp: released_def split: if_splits\<close>)
  ultimately show ?thesis by blast
qed

section \<open>Every operation on the table\<close>

context lxi_world
begin

lemma lxi_connect_ok:
  assumes inv: "lxi_inv st" and "0 \<le> timeout"
  shows "\<exists>r st'. lxi_connect w address port name timeout pr st = ret (r, st') \<and> lxi_inv st' \<and>
    (data_owned st \<longrightarrow> data_owned st') \<and>
    (r = LXI_ERROR \<and> handles st' = handles st \<or>
     (\<exists>x. 0 \<le> r \<and> nat r < SESSIONS_MAX \<and> handles st (nat r) = None \<and> (\<forall>j < nat r. handles st j \<noteq> None) \<and>
        good_cell (protocol_fn pr) x \<and> handles st' = (handles st)(nat r \<mapsto> (protocol_fn pr, x))))"
proof (cases "find_free (sessions st) = None \<or> pr \<noteq> VXI11 \<and> pr \<noteq> RAW")
  case True
  then have "lxi_connect w address port name timeout pr st = ret (LXI_ERROR, st)"
    by (auto simp: lxi_connect_def setup_protocol_def split: option.splits lxi_protocol.splits)
  then show ?thesis using inv by simp
next
  case False
  then obtain i where found: "find_free (sessions st) = Some i" and pr: "pr = VXI11 \<or> pr = RAW" by auto
  have i: "i < SESSIONS_MAX" "\<not> allocated (sessions st ! i)" "\<forall>j < i. allocated (sessions st ! j)"
    using find_free_Some [OF found] inv by (auto simp: lxi_inv_def)
  have free: "handles st i = None" "\<forall>j < i. handles st j \<noteq> None"
    using i handles_Some_iff [OF inv] less_trans by blast+
  obtain r x new where call: "cell_connect w (protocol_fn pr) (Some (fill_cell w pr)) address port name
      timeout (events st) = ret (r, Some x, events st @ new)"
    and r: "r = 0 \<or> r = -1" "r = 0 \<longrightarrow> good_cell (protocol_fn pr) x"
    using cell_connect_ok [OF assms(2), of "protocol_fn pr" "fill_cell w pr" "w_vxi11_fill w" "w_tcp_fill w"] pr
    by (metis fill_cell_def lxi_protocol.distinct(1) protocol_fn_simps)
  note run = lxi_connect_unfold [OF found pr memory, of address port name timeout, unfolded call]
  show ?thesis
  proof (cases "r = 0")
    case True
    then have "lxi_connect w address port name timeout pr st =
        ret (int i, taken i (protocol_fn pr) x (events st @ new) st)"
      by (simp add: run taken_def)
    moreover have "good_cell (protocol_fn pr) x" using True r by simp
    ultimately show ?thesis
      using lxi_inv_taken [OF inv i(1)] handles_taken [OF inv i(1)] data_owned_taken [OF _ inv i(1,2)] free i(1)
      by auto
  next
    case False
    then have "lxi_connect w address port name timeout pr st =
        ret (LXI_ERROR, opened i (protocol_fn pr) None (events st @ new) st)"
      by (simp add: run)
    then show ?thesis
      using lxi_inv_opened [OF inv i(1,2)] handles_opened [OF inv i(1,2)] data_owned_opened [OF _ inv i(1,2)]
      by simp
  qed
qed

lemma disconnect_locked_released:
  assumes inv: "lxi_inv st" and "0 \<le> device" and "handles st (nat device) \<noteq> None"
  shows "\<exists>new. disconnect_locked w device st = ret (LXI_OK, released (nat device) (events st @ new) st)"
proof -
  obtain fn x where h: "handles st (nat device) = Some (fn, x)" using assms(3) by auto
  obtain p where p: "nat device < length (sessions st)" "connected (sessions st ! nat device)"
    "s_data (sessions st ! nat device) = Some p" "heap st p = Some x" "good_cell fn x"
    "s_disconnect (sessions st ! nat device) = fn"
    using lxi_inv_entry [OF inv h] by metis
  obtain new where "cell_disconnect w fn x (events st) = ret (0, events st @ new)"
    using cell_disconnect_ok [OF p(5)] by blast
  then have "disconnect_locked w device st = ret (LXI_OK, released (nat device) (events st @ new) st)"
    using assms(2) p
    by (cases st) (simp add: disconnect_locked_def session_at_def load_block_def free_block_def
        set_session_def released_def)
  then show ?thesis by blast
qed

lemma lxi_disconnect_ok:
  assumes inv: "lxi_inv st" and dev: "device \<noteq> int SESSIONS_MAX"
  shows "\<exists>st'. lxi_inv st' \<and> (data_owned st \<longrightarrow> data_owned st') \<and>
    (if 0 \<le> device \<and> handles st (nat device) \<noteq> None
     then lxi_disconnect w device st = ret (LXI_OK, st') \<and> handles st' = (handles st)(nat device := None)
     else lxi_disconnect w device st = ret (LXI_ERROR, st') \<and> st' = st)"
proof (cases "0 \<le> device \<and> handles st (nat device) \<noteq> None")
  case False
  then show ?thesis
    using is_valid_session_iff [OF inv dev] inv by (auto simp: lxi_disconnect_def)
next
  case True
  then obtain fn x where h: "handles st (nat device) = Some (fn, x)" by auto
  obtain new where "disconnect_locked w device st = ret (LXI_OK, released (nat device) (events st @ new) st)"
    using disconnect_locked_released [OF inv] True by blast
  then have "lxi_disconnect w device st = ret (LXI_OK, released (nat device) (events st @ new) st)"
    using is_valid_session_iff [OF inv dev] True by (simp add: lxi_disconnect_def)
  then show ?thesis using released_ok [OF inv h] True by auto
qed

lemma lxi_send_ok:
  assumes inv: "lxi_inv st" and dev: "device \<noteq> int SESSIONS_MAX"
    and len: "0 \<le> len" "len < 2 ^ 31" "nat len \<le> length message"
  shows "\<exists>r new. (r = LXI_ERROR \<or> 0 \<le> r) \<and>
    lxi_send w device message len timeout st = ret (r, st\<lparr>events := events st @ new\<rparr>) \<and>
    (device < 0 \<or> handles st (nat device) = None \<longrightarrow> r = LXI_ERROR \<and> new = [])"
proof (cases "0 \<le> device \<and> handles st (nat device) \<noteq> None")
  case False
  then show ?thesis
    using is_valid_session_iff [OF inv dev] by (intro exI [of _ LXI_ERROR] exI [of _ "[]"]) (simp add: lxi_send_def)
next
  case True
  then obtain fn x where h: "handles st (nat device) = Some (fn, x)" by auto
  obtain p where p: "nat device < length (sessions st)"
    "s_data (sessions st ! nat device) = Some p" "heap st p = Some x" "good_cell fn x"
    "s_send (sessions st ! nat device) = fn"
    using lxi_inv_entry [OF inv h] by metis
  obtain r new where "cell_send w fn x message len timeout (events st) = ret (r, events st @ new)"
    using cell_send_ok [OF p(4) len] by blast
  then show ?thesis
    using is_valid_session_iff [OF inv dev] True p
    by (auto simp: lxi_send_def send_unlocked_def send_entry_def session_at_def load_block_def)
qed

lemma lxi_receive_ok:
  assumes inv: "lxi_inv st" and dev: "device \<noteq> int SESSIONS_MAX"
    and len: "0 \<le> len" "len < 2 ^ 31" "nat len \<le> length message"
  shows "\<exists>r message' new. (r = LXI_ERROR \<or> 0 \<le> r \<and> r \<le> len) \<and> length message' = length message \<and>
    drop (nat len) message' = drop (nat len) message \<and>
    lxi_receive w device message len timeout st = ret (r, message', st\<lparr>events := events st @ new\<rparr>) \<and>
    (device < 0 \<or> handles st (nat device) = None \<longrightarrow> r = LXI_ERROR \<and> message' = message \<and> new = [])"
proof (cases "0 \<le> device \<and> handles st (nat device) \<noteq> None")
  case False
  then show ?thesis
    using is_valid_session_iff [OF inv dev]
    by (intro exI [of _ LXI_ERROR] exI [of _ message] exI [of _ "[]"]) (simp add: lxi_receive_def)
next
  case True
  then obtain fn x where h: "handles st (nat device) = Some (fn, x)" by auto
  obtain p where p: "nat device < length (sessions st)"
    "s_data (sessions st ! nat device) = Some p" "heap st p = Some x" "good_cell fn x"
    "s_receive (sessions st ! nat device) = fn"
    using lxi_inv_entry [OF inv h] by metis
  obtain r message' new where "cell_receive w fn x message len timeout (events st) = ret (r, message', events st @ new)"
    "r \<le> len" "length message' = length message" "drop (nat len) message' = drop (nat len) message"
    using cell_receive_ok [OF p(4) len] by blast
  then show ?thesis
    using is_valid_session_iff [OF inv dev] True p
    by (auto simp: lxi_receive_def receive_unlocked_def receive_entry_def session_at_def load_block_def)
qed

end

section \<open>The properties of the API\<close>

text \<open>A world in which both protocols work, to apply the theorems to.\<close>

definition demo_world :: world where
  "demo_world = \<lparr>w_os = chunk_posix 2 [[1, 2]], w_net = scripted_rpc [[1, 2], [3]], w_lib = mem_lib,
     w_th = joining_threads, w_malloc = (\<lambda>p. True), w_vxi11_fill = open_link,
     w_tcp_fill = \<lparr>server_socket = 99\<rparr>\<rparr>"

lemma demo_lxi_world: "lxi_world demo_world"
  by (intro lxi_world.intro lxi_world_axioms.intro)
    (simp_all add: demo_world_def lan.tcp_world_axioms gpib.vxi11_world_axioms)

interpretation demo: lxi_world demo_world
  by (rule demo_lxi_world)

text \<open>Connecting leaves the entries of open handles alone.\<close>

lemma set_session_other: "i \<noteq> j \<Longrightarrow> sessions (set_session i f st) ! j = sessions st ! j"
  by (simp add: set_session_def)

lemma lxi_connect_frame:
  assumes "lxi_connect w address port name timeout pr st = ret (r, st')" and "allocated (sessions st ! j)"
  shows "sessions st' ! j = sessions st ! j"
proof (cases "find_free (sessions st)")
  case (Some i)
  then have i: "i \<noteq> j" using find_free_Some [OF Some] assms(2) by auto
  show ?thesis
    using assms(1) i
    by (auto simp: lxi_connect_def Some setup_protocol_def setup_backend_def malloc_def call_connect_def free_block_def
        set_session_def Let_def cbind_ret_iff split: option.splits lxi_protocol.splits prod.splits if_splits)
qed (use assms in \<open>simp add: lxi_connect_def\<close>)

text \<open>A program that uses the library: a sequence of API calls.\<close>

datatype api_call =
    Init
  | Connect string int "string option" int lxi_protocol
  | Disconnect int
  | Send int bytes int int
  | Receive int bytes int int

fun api_step :: "world \<Rightarrow> api_call \<Rightarrow> lxi_state \<Rightarrow> (int \<times> lxi_state) c" where
  "api_step w Init st = ret (lxi_init st)"
| "api_step w (Connect address port name timeout pr) st = lxi_connect w address port name timeout pr st"
| "api_step w (Disconnect device) st = lxi_disconnect w device st"
| "api_step w (Send device message len timeout) st = lxi_send w device message len timeout st"
| "api_step w (Receive device message len timeout) st =
     cbind (lxi_receive w device message len timeout st) (\<lambda>(r, _, st). ret (r, st))"

fun run_api :: "world \<Rightarrow> api_call list \<Rightarrow> lxi_state \<Rightarrow> (int list \<times> lxi_state) c" where
  "run_api w [] st = ret ([], st)"
| "run_api w (call # calls) st =
     cbind (api_step w call st) (\<lambda>(r, st). cbind (run_api w calls st) (\<lambda>(rs, st). ret (r # rs, st)))"

text \<open>What the caller owes: no handle 1024, a length inside the buffer it passes, and no negative timeout for connecting.\<close>

fun call_ok :: "api_call \<Rightarrow> bool" where
  "call_ok (Connect address port name timeout pr) = (0 \<le> timeout)"
| "call_ok (Disconnect device) = (device \<noteq> int SESSIONS_MAX)"
| "call_ok (Send device message len timeout) =
     (device \<noteq> int SESSIONS_MAX \<and> 0 \<le> len \<and> len < 2 ^ 31 \<and> nat len \<le> length message)"
| "call_ok (Receive device message len timeout) =
     (device \<noteq> int SESSIONS_MAX \<and> 0 \<le> len \<and> len < 2 ^ 31 \<and> nat len \<le> length message)"
| "call_ok Init = True"

fun is_connect :: "api_call \<Rightarrow> bool" where
  "is_connect (Connect address port name timeout pr) = True"
| "is_connect _ = False"

lemma handles_events [simp]: "handles (st\<lparr>events := h\<rparr>) = handles st"
  by (rule ext) (simp add: handles_def split: option.splits)

lemma lxi_inv_events: "lxi_inv (st\<lparr>events := h\<rparr>) = lxi_inv st" "data_owned (st\<lparr>events := h\<rparr>) = data_owned st"
  by (simp_all add: lxi_inv_def data_owned_def)

lemma lxi_init_inv: "lxi_inv st \<Longrightarrow> lxi_inv (snd (lxi_init st))"
  by (auto simp: lxi_inv_def lxi_init_def session_ok_def)

lemma no_blocks_no_handles: "heap st = (\<lambda>p. None) \<Longrightarrow> handles st i = None"
  by (simp add: handles_def split: option.splits)

lemma api_step_ok:
  assumes "lxi_world w" and inv: "lxi_inv st" and ok: "call_ok call"
  shows "\<exists>r st'. api_step w call st = ret (r, st') \<and> lxi_inv st' \<and> -1 \<le> r \<and>
    (data_owned st \<longrightarrow> call \<noteq> Init \<longrightarrow> data_owned st') \<and>
    (heap st = (\<lambda>p. None) \<longrightarrow> \<not> is_connect call \<longrightarrow> heap st' = (\<lambda>p. None))"
proof -
  note unf = LXI_OK_def LXI_ERROR_def
  show ?thesis
  proof (cases call)
    case Init
    then show ?thesis using lxi_init_inv [OF inv] by (simp add: lxi_init_def unf)
  next
    case (Connect address port name timeout pr)
    then show ?thesis
      using lxi_world.lxi_connect_ok [OF assms(1) inv, of timeout address port name pr] ok
      by (auto simp: unf)
  next
    case (Disconnect device)
    then show ?thesis
      using lxi_world.lxi_disconnect_ok [OF assms(1) inv, of device] ok no_blocks_no_handles
      by (auto simp: unf split: if_splits)
  next
    case (Send device message len timeout)
    then show ?thesis
      using lxi_world.lxi_send_ok [OF assms(1) inv, of device len message timeout] ok inv
      by (auto simp: unf lxi_inv_events)
  next
    case (Receive device message len timeout)
    then show ?thesis
      using lxi_world.lxi_receive_ok [OF assms(1) inv, of device len message timeout] ok inv
      by (auto simp: unf lxi_inv_events)
  qed
qed

text \<open>The calls from the first connection on: a program may call \<^verbatim>\<open>lxi_init\<close> before it connects.\<close>

definition connected_part :: "api_call list \<Rightarrow> api_call list" where
  "connected_part calls = dropWhile (\<lambda>call. \<not> is_connect call) calls"

lemma run_api_ok:
  assumes "lxi_world w" and "lxi_inv st" and "\<forall>call \<in> set calls. call_ok call"
  shows "\<exists>rs st'. run_api w calls st = ret (rs, st') \<and> lxi_inv st' \<and> length rs = length calls \<and>
    (data_owned st \<longrightarrow> Init \<notin> set calls \<longrightarrow> data_owned st') \<and>
    (heap st = (\<lambda>p. None) \<longrightarrow> Init \<notin> set (connected_part calls) \<longrightarrow> data_owned st')"
  using assms(2,3)
proof (induction calls arbitrary: st)
  case Nil
  then show ?case by (simp add: data_owned_def)
next
  case (Cons call calls)
  obtain r st1 where 1: "api_step w call st = ret (r, st1)" "lxi_inv st1"
    "data_owned st \<longrightarrow> call \<noteq> Init \<longrightarrow> data_owned st1"
    "heap st = (\<lambda>p. None) \<longrightarrow> \<not> is_connect call \<longrightarrow> heap st1 = (\<lambda>p. None)"
    using api_step_ok [OF assms(1) Cons.prems(1), of call] Cons.prems(2) by auto
  obtain rs st2 where 2: "run_api w calls st1 = ret (rs, st2)" "lxi_inv st2" "length rs = length calls"
    "data_owned st1 \<longrightarrow> Init \<notin> set calls \<longrightarrow> data_owned st2"
    "heap st1 = (\<lambda>p. None) \<longrightarrow> Init \<notin> set (connected_part calls) \<longrightarrow> data_owned st2"
    using Cons.IH [OF 1(2)] Cons.prems(2) by auto
  have "data_owned st2" if "heap st = (\<lambda>p. None)" "Init \<notin> set (connected_part (call # calls))"
  proof (cases "is_connect call")
    case True
    have "data_owned st" using that(1) by (simp add: data_owned_def)
    moreover have "call \<noteq> Init" "Init \<notin> set calls" using True that(2) by (auto simp: connected_part_def)
    ultimately show ?thesis using 1(3) 2(4) by blast
  next
    case False
    then show ?thesis using that 1(4) 2(5) by (simp add: connected_part_def)
  qed
  with 1 2 show ?case by auto
qed

text \<open>
  C1. Memory safety of the API. Let the outside keep its contracts: memory is available, sockets behave as documented,
  an instrument returns no more than it is asked for, and the timed join of a connection is decided and not deadlocked.
  Then from program start every sequence of calls with any handles but 1024, lengths inside the buffers and timeouts of
  connections that are not negative returns: no null or dangling pointer is used, nothing is freed twice, no function
  pointer is called on the other protocol's data. The table's invariant holds afterwards, and if the program did not
  call \<^verbatim>\<open>lxi_init\<close> behind its first \<^verbatim>\<open>lxi_connect\<close>, every block of session data still allocated belongs to an open
  handle.
\<close>

theorem api_sequences_safe:
  assumes "lxi_world w" and "\<forall>call \<in> set calls. call_ok call"
  shows "\<exists>rs st. run_api w calls lxi_start = ret (rs, st) \<and> lxi_inv st \<and> length rs = length calls \<and>
    (Init \<notin> set (connected_part calls) \<longrightarrow> data_owned st)"
proof -
  have "heap lxi_start = (\<lambda>p. None)" by (simp add: lxi_start_def)
  then show ?thesis using run_api_ok [OF assms(1) lxi_start_inv(1) assms(2)] by blast
qed

theorem api_sequences_safe_witness:
  "\<exists>rs st. run_api demo_world [Init, Connect ''10.0.0.1'' 5025 None 1000 RAW, Send 0 [65, 10] 2 1000,
        Receive 0 [0, 0] 2 1000, Disconnect 0, Disconnect 0] lxi_start = ret (rs, st) \<and> lxi_inv st \<and>
    length rs = 6 \<and> data_owned st"
  using api_sequences_safe [OF demo_lxi_world, of "[Init, Connect ''10.0.0.1'' 5025 None 1000 RAW,
      Send 0 [65, 10] 2 1000, Receive 0 [0, 0] 2 1000, Disconnect 0, Disconnect 0]"]
  by (simp add: SESSIONS_MAX_def connected_part_def numeral_eq_Suc del: run_api.simps)

text \<open>
  C4. \<^verbatim>\<open>lxi_connect\<close> refines the allocation of a handle, under the contracts of the outside (memory is available, the
  timed join is decided and not deadlocked, sockets behave as documented) and with a timeout that is not negative: it
  returns the lowest handle that is not open and opens exactly that one, with the protocol asked for and data that is
  connected, or it returns \<^verbatim>\<open>LXI_ERROR\<close> and the set of open handles and what is behind them is unchanged. In both cases
  the table's invariant is kept, and every block of session data belongs to an open handle as before.
\<close>

theorem lxi_connect_refines:
  assumes "lxi_world w" and "lxi_inv st" and "data_owned st" and "0 \<le> timeout"
  shows "\<exists>r st'. lxi_connect w address port name timeout pr st = ret (r, st') \<and> lxi_inv st' \<and> data_owned st' \<and>
    (r = LXI_ERROR \<and> handles st' = handles st \<or>
     (\<exists>x. 0 \<le> r \<and> nat r < SESSIONS_MAX \<and> handles st (nat r) = None \<and> (\<forall>j < nat r. handles st j \<noteq> None) \<and>
        good_cell (protocol_fn pr) x \<and> handles st' = (handles st)(nat r \<mapsto> (protocol_fn pr, x))))"
  using lxi_world.lxi_connect_ok [OF assms(1,2,4)] assms(3) by metis

theorem lxi_connect_refines_witness:
  "\<exists>r st'. lxi_connect demo_world ''10.0.0.1'' 5025 None 1000 RAW lxi_start = ret (r, st') \<and> lxi_inv st' \<and>
    data_owned st' \<and>
    (r = LXI_ERROR \<and> handles st' = handles lxi_start \<or>
     (\<exists>x. 0 \<le> r \<and> nat r < SESSIONS_MAX \<and> handles lxi_start (nat r) = None \<and>
        (\<forall>j < nat r. handles lxi_start j \<noteq> None) \<and>
        good_cell (protocol_fn RAW) x \<and> handles st' = (handles lxi_start)(nat r \<mapsto> (protocol_fn RAW, x))))"
  by (rule lxi_connect_refines [OF demo_lxi_world lxi_start_inv]) simp

text \<open>
  C5. \<^verbatim>\<open>lxi_disconnect\<close> refines the release of a handle: an open handle is closed, alone, its memory is
  released and \<^verbatim>\<open>LXI_OK\<close> returned; every other number but 1024 gives \<^verbatim>\<open>LXI_ERROR\<close> and changes nothing.
\<close>

theorem lxi_disconnect_refines:
  assumes "lxi_world w" and "lxi_inv st" and "data_owned st" and "device \<noteq> int SESSIONS_MAX"
  shows "\<exists>st'. lxi_inv st' \<and> data_owned st' \<and>
    (if 0 \<le> device \<and> handles st (nat device) \<noteq> None
     then lxi_disconnect w device st = ret (LXI_OK, st') \<and> handles st' = (handles st)(nat device := None)
     else lxi_disconnect w device st = ret (LXI_ERROR, st') \<and> st' = st)"
  using lxi_world.lxi_disconnect_ok [OF assms(1,2,4)] assms(3) by metis

theorem lxi_disconnect_refines_witness:
  "\<exists>st'. lxi_inv st' \<and> data_owned st' \<and>
    (if 0 \<le> (5::int) \<and> handles lxi_start (nat 5) \<noteq> None
     then lxi_disconnect demo_world 5 lxi_start = ret (LXI_OK, st') \<and>
       handles st' = (handles lxi_start)(nat 5 := None)
     else lxi_disconnect demo_world 5 lxi_start = ret (LXI_ERROR, st') \<and> st' = lxi_start)"
  by (rule lxi_disconnect_refines [OF demo_lxi_world lxi_start_inv]) (simp add: SESSIONS_MAX_def)

text \<open>The bound of the handle check is off by one: for handle 1024 the check reads behind the end of the table.\<close>

lemma handle_1024:
  assumes "length (sessions st) = SESSIONS_MAX"
  shows "is_valid_session 1024 st = fail Out_Of_Bounds"
  using assms by (simp add: is_valid_session_def session_at_def SESSIONS_MAX_def)

text \<open>
  Nor is the length checked. A negative one becomes a huge unsigned number, for the kernel as well as for the encoder of a
  VXI-11 message, so that sending on any open handle reads behind the end of the message.
\<close>

lemma negative_slice:
  assumes "len < 0" and "-(2 ^ 31) \<le> len" and "length message < 2 ^ 31"
  shows "buf_slice message 0 (size_t len) = fail Out_Of_Bounds"
    and "buf_slice message 0 (uint (word_of_int len :: 32 word)) = fail Out_Of_Bounds"
proof -
  have "(len + 2 ^ 64) mod 2 ^ 64 = len + 2 ^ 64" "(len + 2 ^ 32) mod 2 ^ 32 = len + 2 ^ 32"
    using assms(1,2) by (intro mod_pos_pos_trivial; simp)+
  then have "len mod 2 ^ 64 = len + 2 ^ 64" "len mod 2 ^ 32 = len + 2 ^ 32" by (simp_all only: mod_add_self2)
  moreover have "uint (word_of_int len :: 32 word) = len mod 2 ^ 32" by (simp add: uint_word_of_int)
  ultimately show "buf_slice message 0 (size_t len) = fail Out_Of_Bounds"
    "buf_slice message 0 (uint (word_of_int len :: 32 word)) = fail Out_Of_Bounds"
    using assms(2,3) by (simp_all add: buf_slice_def size_t_def)
qed

lemma negative_length_out_of_bounds:
  assumes inv: "lxi_inv st" and "0 \<le> d" and h: "handles st (nat d) = Some (fn, x)"
    and len: "len < 0" "-(2 ^ 31) \<le> len" "length message < 2 ^ 31"
    and ready: "\<forall>h fd tv. 0 < px_select (w_os w) h True fd tv"
  shows "lxi_send w d message len timeout st = fail Out_Of_Bounds"
proof -
  obtain p where p: "nat d < length (sessions st)" "allocated (sessions st ! nat d)"
    "s_data (sessions st ! nat d) = Some p" "heap st p = Some x" "good_cell fn x"
    "s_send (sessions st ! nat d) = fn"
    using lxi_inv_entry [OF inv h] by metis
  have "cell_send w fn x message len timeout (events st) = fail Out_Of_Bounds"
  proof (cases "(fn, x)" rule: good_cell.cases)
    case (1 dv)
    then show ?thesis using negative_slice(2) [OF len] by (simp add: vxi11_send_def)
  next
    case (2 dt)
    have "px_select (w_os w) h' True fd tv \<noteq> -1" "px_select (w_os w) h' True fd tv \<noteq> 0" for h' fd tv
      using ready [rule_format, of h' fd tv] by simp_all
    then show ?thesis
      using 2 p(5) negative_slice(1) [OF len]
      by (simp add: tcp_send_def tcp_good_def sys_select_write_def Let_def tcp_send_loop.simps)
  qed (use p(5) in simp_all)
  moreover have "d \<noteq> int SESSIONS_MAX" using p(1) assms(2) inv by (auto simp: lxi_inv_def)
  ultimately show ?thesis
    using is_valid_session_iff [OF inv] h assms(2) p
    by (simp add: lxi_send_def send_unlocked_def send_entry_def session_at_def load_block_def)
qed

text \<open>
  The 1025th session is refused: when every entry is allocated, \<^verbatim>\<open>lxi_connect\<close> returns \<^verbatim>\<open>LXI_ERROR\<close>,
  for every protocol, without a change of state; and so is a protocol that is not supported.
\<close>

lemma lxi_connect_refused:
  assumes "(\<forall>i < length (sessions st). allocated (sessions st ! i)) \<or> pr = HISLIP \<or> pr = Other_protocol n"
  shows "lxi_connect w address port name timeout pr st = ret (LXI_ERROR, st)"
proof (cases "find_free (sessions st)")
  case None
  then show ?thesis by (simp add: lxi_connect_def)
next
  case (Some i)
  then have "pr = HISLIP \<or> pr = Other_protocol n" using assms find_free_Some [OF Some] by auto
  then show ?thesis using Some by (auto simp: lxi_connect_def setup_protocol_def)
qed

text \<open>
  The result of \<^verbatim>\<open>malloc\<close> is not looked at before it is used: when memory is exhausted, a raw
  connection dereferences the null pointer, although the error path tests the pointer for null.
\<close>

lemma lxi_connect_unchecked_malloc:
  assumes "find_free (sessions st) = Some i" and "\<not> w_malloc w (next_ptr st)"
  shows "lxi_connect w address port name timeout RAW st = fail Null_Deref"
proof -
  have "i < length (sessions st)" using find_free_Some [OF assms(1)] by simp
  then show ?thesis
    using assms
    by (simp add: lxi_connect_def setup_protocol_def setup_backend_def set_session_def malloc_def call_connect_def
        tcp_connect_def sys_socket_def Let_def)
qed

lemma find_free_start: "find_free (sessions lxi_start) = Some 0"
  by (simp add: lxi_start_def SESSIONS_MAX_def numeral_eq_Suc session0_def)

text \<open>
  \<^verbatim>\<open>lxi_init\<close> forgets open sessions: it returns \<^verbatim>\<open>LXI_OK\<close> and afterwards no handle is open, but
  nothing is closed (no event) and no memory released, so every block that was live is leaked.
\<close>

lemma lxi_init_forgets:
  assumes "lxi_inv st" and "handles st i = Some (fn, x)"
  shows "\<exists>st'. lxi_init st = (LXI_OK, st') \<and> handles st' = (\<lambda>i. None) \<and> events st' = events st \<and>
    heap st' = heap st \<and> \<not> data_owned st'"
proof -
  obtain p where p: "heap st p = Some x" using lxi_inv_entry [OF assms] by metis
  define st' where "st' = snd (lxi_init st)"
  have len: "length (sessions st) = SESSIONS_MAX" using assms(1) by (simp add: lxi_inv_def)
  have st': "lxi_init st = (LXI_OK, st')" "events st' = events st" "heap st' = heap st"
    by (simp_all add: st'_def lxi_init_def)
  have off: "i < SESSIONS_MAX \<Longrightarrow> \<not> allocated (sessions st' ! i)" for i
    using len by (simp add: st'_def lxi_init_def)
  have "length (sessions st') = SESSIONS_MAX" using len by (simp add: st'_def lxi_init_def)
  with off have "handles st' = (\<lambda>i. None)" by (auto simp: handles_def fun_eq_iff)
  moreover have "\<not> data_owned st'" using p off st'(3) unfolding data_owned_def by (metis option.distinct(1))
  ultimately show ?thesis using st' by blast
qed

definition one_session :: lxi_state where
  "one_session = taken 0 Fn_tcp (Tcp_cell \<lparr>server_socket = 3\<rparr>) [] lxi_start"

lemma one_session_ok:
  "lxi_inv one_session" "handles one_session 0 = Some (Fn_tcp, Tcp_cell \<lparr>server_socket = 3\<rparr>)"
  unfolding one_session_def
  using lxi_inv_taken [OF lxi_start_inv(1)] handles_taken [OF lxi_start_inv(1)]
  by (simp_all add: SESSIONS_MAX_def tcp_good_def FD_SETSIZE_def)

text \<open>
  C20. Sending and receiving leave the table and the memory alone, when the outside keeps its contracts (in particular
  an instrument returns no more than it is asked for) and the length is inside the buffer: only the history grows. A
  number that is not an open handle, 1024 apart, gives \<^verbatim>\<open>LXI_ERROR\<close> without any call to the outside; on an open handle
  the result is \<^verbatim>\<open>LXI_ERROR\<close> or a count, for receiving at most the length, and a receive touches no
  byte behind the length.
\<close>

theorem lxi_transfer_frame:
  assumes "lxi_world w" and "lxi_inv st" and "device \<noteq> int SESSIONS_MAX"
    and "0 \<le> len" and "len < 2 ^ 31" and "nat len \<le> length message"
  shows "(\<exists>r new. (r = LXI_ERROR \<or> 0 \<le> r) \<and>
      lxi_send w device message len timeout st = ret (r, st\<lparr>events := events st @ new\<rparr>) \<and>
      (device < 0 \<or> handles st (nat device) = None \<longrightarrow> r = LXI_ERROR \<and> new = [])) \<and>
    (\<exists>r message' new. (r = LXI_ERROR \<or> 0 \<le> r \<and> r \<le> len) \<and> length message' = length message \<and>
      drop (nat len) message' = drop (nat len) message \<and>
      lxi_receive w device message len timeout st = ret (r, message', st\<lparr>events := events st @ new\<rparr>) \<and>
      (device < 0 \<or> handles st (nat device) = None \<longrightarrow> r = LXI_ERROR \<and> message' = message \<and> new = []))"
  using lxi_world.lxi_send_ok [OF assms] lxi_world.lxi_receive_ok [OF assms] by (intro conjI)

theorem lxi_transfer_frame_witness:
  "handles one_session 0 \<noteq> None \<and>
    (\<exists>r new. (r = LXI_ERROR \<or> 0 \<le> r) \<and>
      lxi_send demo_world 0 [65, 66] 2 1000 one_session = ret (r, one_session\<lparr>events := events one_session @ new\<rparr>)) \<and>
    (\<exists>r message' new. (r = LXI_ERROR \<or> 0 \<le> r \<and> r \<le> 2) \<and> length message' = length [65 :: byte, 66, 67] \<and>
      drop 2 message' = [67] \<and>
      lxi_receive demo_world 0 [65, 66, 67] 2 1000 one_session =
        ret (r, message', one_session\<lparr>events := events one_session @ new\<rparr>))"
  using lxi_transfer_frame [OF demo_lxi_world one_session_ok(1), of 0 2 "[65, 66]" 1000]
    lxi_transfer_frame [OF demo_lxi_world one_session_ok(1), of 0 2 "[65, 66, 67]" 1000] one_session_ok(2)
  by (simp add: SESSIONS_MAX_def)

text \<open>
  C35. Arguments the API does not check. Handle 1024: the check of the handle, and so each of the three
  calls that begin with it, reads the entry behind the end of the table. A negative length: on every open handle, once the
  socket can be written to, \<^verbatim>\<open>lxi_send\<close> reads behind the end of the message.
\<close>

theorem unchecked_arguments:
  assumes "lxi_inv st"
  shows "(is_valid_session 1024 st = fail Out_Of_Bounds \<and> lxi_disconnect w 1024 st = fail Out_Of_Bounds \<and>
      lxi_send w 1024 message len timeout st = fail Out_Of_Bounds \<and>
      lxi_receive w 1024 message len timeout st = fail Out_Of_Bounds) \<and>
    (0 \<le> d \<and> handles st (nat d) \<noteq> None \<and> len < 0 \<and> -(2 ^ 31) \<le> len \<and> length message < 2 ^ 31 \<and>
      (\<forall>h fd tv. 0 < px_select (w_os w) h True fd tv) \<longrightarrow>
     lxi_send w d message len timeout st = fail Out_Of_Bounds)"
proof -
  have "is_valid_session 1024 st = fail Out_Of_Bounds" using assms by (intro handle_1024) (simp add: lxi_inv_def)
  then show ?thesis
    using negative_length_out_of_bounds [OF assms, of d _ _ len message w timeout]
    by (auto simp: lxi_disconnect_def lxi_send_def lxi_receive_def)
qed

theorem unchecked_arguments_witness:
  "lxi_disconnect demo_world 1024 one_session = fail Out_Of_Bounds \<and>
    lxi_send demo_world 0 [65] (-1) 1000 one_session = fail Out_Of_Bounds"
proof -
  have "\<forall>h fd tv. 0 < px_select (w_os demo_world) h True fd tv" by (simp add: demo_world_def chunk_posix_def quiet_posix_def)
  then show ?thesis
    using unchecked_arguments [OF one_session_ok(1), of demo_world "[65]" "-1" 1000 0] one_session_ok by simp
qed

end
