(* ===== verification/Lxi_Race.thy ===== *)
theory Lxi_Race
  imports Lxi
begin

text \<open>
  The API called from several threads. \<^verbatim>\<open>lxi_connect\<close> holds the mutex throughout; the other calls of
  \<^verbatim>\<open>src/src/lxi.c\<close> first check the handle under the mutex and then go on, \<^verbatim>\<open>lxi_disconnect\<close> in a second
  critical section and \<^verbatim>\<open>lxi_send\<close> and \<^verbatim>\<open>lxi_receive\<close> with no lock: these two read the function and the data pointer
  of the entry, and then call the one with the other. A step of the model is a check, the work of a locked
  call, or one of the two halves of an unlocked call; a thread makes one call. The outside is a set of worlds, and each
  step asks one of them, so that it may answer a thread as it likes whatever the other threads did meanwhile.
  Threads that do not share a handle with a thread that closes it
  keep the invariant (\<open>race_reach_inv\<close>, used by \<open>Lxi_Mutex\<close>); the theorem: two threads that do share one, can crash.
\<close>

datatype pc = At_check | At_work | At_call session | Done int

datatype config = Running "(api_call \<times> pc) list" lxi_state | Crashed fault

fun device_of :: "api_call \<Rightarrow> int option" where
  "device_of (Disconnect device) = Some device"
| "device_of (Send device message len timeout) = Some device"
| "device_of (Receive device message len timeout) = Some device"
| "device_of _ = None"

text \<open>What a call does under or after its check.\<close>

fun api_check :: "api_call \<Rightarrow> lxi_state \<Rightarrow> bool c" where
  "api_check call st = (case device_of call of None \<Rightarrow> ret True | Some device \<Rightarrow> is_valid_session device st)"

fun api_work :: "world \<Rightarrow> api_call \<Rightarrow> lxi_state \<Rightarrow> (int \<times> lxi_state) c" where
  "api_work w (Disconnect device) st = disconnect_locked w device st"
| "api_work w (Send device message len timeout) st = send_unlocked w device message len timeout st"
| "api_work w (Receive device message len timeout) st =
     cbind (receive_unlocked w device message len timeout st) (\<lambda>(r, _, st). ret (r, st))"
| "api_work w call st = api_step w call st"

text \<open>The unlocked calls, and their second half: the entry has been read.\<close>

fun fetches :: "api_call \<Rightarrow> bool" where
  "fetches (Send device message len timeout) = True"
| "fetches (Receive device message len timeout) = True"
| "fetches _ = False"

fun entry_work :: "world \<Rightarrow> api_call \<Rightarrow> session \<Rightarrow> lxi_state \<Rightarrow> (int \<times> lxi_state) c" where
  "entry_work w (Send device message len timeout) s st = send_entry w s message len timeout st"
| "entry_work w (Receive device message len timeout) s st =
     cbind (receive_entry w s message len timeout st) (\<lambda>(r, _, st). ret (r, st))"
| "entry_work w call s st = api_work w call st"

inductive race_step :: "world set \<Rightarrow> config \<Rightarrow> config \<Rightarrow> bool" for W where
  check: "k < length ts \<Longrightarrow> ts ! k = (call, At_check) \<Longrightarrow> api_check call st = ret ok \<Longrightarrow>
    race_step W (Running ts st) (Running (ts[k := (call, if ok then At_work else Done LXI_ERROR)]) st)"
| check_crash: "k < length ts \<Longrightarrow> ts ! k = (call, At_check) \<Longrightarrow> api_check call st = fail e \<Longrightarrow>
    race_step W (Running ts st) (Crashed e)"
| work: "k < length ts \<Longrightarrow> ts ! k = (call, At_work) \<Longrightarrow> \<not> fetches call \<Longrightarrow> w \<in> W \<Longrightarrow>
    api_work w call st = ret (r, st') \<Longrightarrow> race_step W (Running ts st) (Running (ts[k := (call, Done r)]) st')"
| work_crash: "k < length ts \<Longrightarrow> ts ! k = (call, At_work) \<Longrightarrow> \<not> fetches call \<Longrightarrow> w \<in> W \<Longrightarrow>
    api_work w call st = fail e \<Longrightarrow> race_step W (Running ts st) (Crashed e)"
| fetch: "k < length ts \<Longrightarrow> ts ! k = (call, At_work) \<Longrightarrow> fetches call \<Longrightarrow> device_of call = Some d \<Longrightarrow>
    session_at d st = ret s \<Longrightarrow> race_step W (Running ts st) (Running (ts[k := (call, At_call s)]) st)"
| fetch_crash: "k < length ts \<Longrightarrow> ts ! k = (call, At_work) \<Longrightarrow> fetches call \<Longrightarrow> device_of call = Some d \<Longrightarrow>
    session_at d st = fail e \<Longrightarrow> race_step W (Running ts st) (Crashed e)"
| through: "k < length ts \<Longrightarrow> ts ! k = (call, At_call s) \<Longrightarrow> w \<in> W \<Longrightarrow> entry_work w call s st = ret (r, st') \<Longrightarrow>
    race_step W (Running ts st) (Running (ts[k := (call, Done r)]) st')"
| through_crash: "k < length ts \<Longrightarrow> ts ! k = (call, At_call s) \<Longrightarrow> w \<in> W \<Longrightarrow> entry_work w call s st = fail e \<Longrightarrow>
    race_step W (Running ts st) (Crashed e)"

inductive race_reach :: "world set \<Rightarrow> config \<Rightarrow> config \<Rightarrow> bool" for W where
  refl: "race_reach W c c"
| step: "race_reach W c c' \<Longrightarrow> race_step W c' c'' \<Longrightarrow> race_reach W c c''"

inductive_simps race_step_Crashed [simp]: "race_step W (Crashed e) c"

text \<open>A check followed by the work is the call, and reading the entry followed by the second half is the work.\<close>

lemma api_step_split:
  assumes "device_of call = Some device"
  shows "api_step w call st =
    cbind (api_check call st) (\<lambda>ok. if ok then api_work w call st else ret (LXI_ERROR, st))"
  using assms
  by (cases call) (auto simp: lxi_disconnect_def lxi_send_def lxi_receive_def cbind_def split: option.splits sum.splits)

lemma api_work_split:
  assumes "fetches call" and "device_of call = Some device"
  shows "api_work w call st = cbind (session_at device st) (\<lambda>s. entry_work w call s st)"
  using assms by (cases call) (simp_all add: send_unlocked_def receive_unlocked_def cbind_assoc)

section \<open>Threads with handles of their own\<close>

text \<open>No handle is closed by one thread and used by another.\<close>

definition disciplined :: "api_call list \<Rightarrow> bool" where
  "disciplined calls \<longleftrightarrow>
     (\<forall>call \<in> set calls. call_ok call \<and> call \<noteq> Init) \<and>
     (\<forall>k < length calls. \<forall>l < length calls. k \<noteq> l \<longrightarrow>
        (\<forall>d. calls ! k = Disconnect d \<longrightarrow> device_of (calls ! l) \<noteq> Some d))"

text \<open>A thread behind its check works on an open handle, and what it has read is still the entry of that handle.\<close>

definition open_at :: "lxi_state \<Rightarrow> int \<Rightarrow> bool" where
  "open_at st d \<longleftrightarrow> 0 \<le> d \<and> handles st (nat d) \<noteq> None"

fun ready :: "lxi_state \<Rightarrow> api_call \<times> pc \<Rightarrow> bool" where
  "ready st (call, At_work) = (\<forall>d. device_of call = Some d \<longrightarrow> open_at st d)"
| "ready st (call, At_call s) =
     (fetches call \<and> (\<exists>d. device_of call = Some d \<and> open_at st d \<and> sessions st ! nat d = s))"
| "ready st _ = True"

definition race_inv :: "(api_call \<times> pc) list \<Rightarrow> lxi_state \<Rightarrow> bool" where
  "race_inv ts st \<longleftrightarrow> lxi_inv st \<and> (\<forall>k < length ts. ready st (ts ! k))"

lemma api_check_iff:
  assumes "lxi_inv st" and "call_ok call" and "device_of call = Some d"
  shows "api_check call st = ret (open_at st d)"
  using assms is_valid_session_iff [OF assms(1), of d] by (cases call) (auto simp: open_at_def)

lemma session_at_open: "lxi_inv st \<Longrightarrow> open_at st d \<Longrightarrow> session_at d st = ret (sessions st ! nat d)"
  using handles_Some_iff [of st "nat d"] by (simp add: session_at_def open_at_def lxi_inv_def)

text \<open>The work of a thread keeps the entries of the open handles it does not close.\<close>

definition keeps_others :: "api_call \<Rightarrow> lxi_state \<Rightarrow> lxi_state \<Rightarrow> bool" where
  "keeps_others call st st' \<longleftrightarrow>
     (\<forall>d. open_at st d \<longrightarrow> call \<noteq> Disconnect d \<longrightarrow> open_at st' d \<and> sessions st' ! nat d = sessions st ! nat d)"

lemma api_work_ok:
  assumes w: "lxi_world w" and inv: "lxi_inv st" and ok: "call_ok call" "call \<noteq> Init"
    and dev: "\<And>d. device_of call = Some d \<Longrightarrow> open_at st d"
  shows "\<exists>r st'. api_work w call st = ret (r, st') \<and> lxi_inv st' \<and> keeps_others call st st'"
proof (cases call)
  case (Connect address port name timeout pr)
  obtain r st' where run: "lxi_connect w address port name timeout pr st = ret (r, st')" "lxi_inv st'"
    "handles st' = handles st \<or> (\<exists>j x. handles st' = (handles st)(j \<mapsto> x))"
    using lxi_world.lxi_connect_ok [OF w inv, of timeout] ok(1) Connect by (metis call_ok.simps(1))
  moreover have "sessions st' ! nat d = sessions st ! nat d" if "open_at st d" for d
    using lxi_connect_frame [OF run(1)] handles_Some_iff [OF inv] that by (auto simp: open_at_def)
  ultimately show ?thesis using Connect by (auto simp: keeps_others_def open_at_def)
next
  case (Disconnect d)
  then have d: "0 \<le> d" "handles st (nat d) \<noteq> None" using dev by (auto simp: open_at_def)
  then obtain fn x where h: "handles st (nat d) = Some (fn, x)" by auto
  obtain new where run: "disconnect_locked w d st = ret (LXI_OK, released (nat d) (events st @ new) st)"
    using lxi_world.disconnect_locked_released [OF w inv d] by blast
  have "keeps_others call st (released (nat d) (events st @ new) st)"
    using released_ok [OF inv h] Disconnect d
    by (auto simp: keeps_others_def open_at_def released_def nat_eq_iff2)
  then show ?thesis using run released_ok [OF inv h] Disconnect by auto
next
  case (Send d message len timeout)
  then have "api_work w call st = lxi_send w d message len timeout st"
    using api_check_iff [OF inv ok(1), of d] dev by (simp add: lxi_send_def)
  then show ?thesis
    using lxi_world.lxi_send_ok [OF w inv, of d len message timeout] ok Send inv
    by (auto simp: lxi_inv_events keeps_others_def open_at_def)
next
  case (Receive d message len timeout)
  then have "api_work w call st = cbind (lxi_receive w d message len timeout st) (\<lambda>(r, _, st). ret (r, st))"
    using api_check_iff [OF inv ok(1), of d] dev by (simp add: lxi_receive_def)
  then show ?thesis
    using lxi_world.lxi_receive_ok [OF w inv, of d len message timeout] ok Receive inv
    by (auto simp: lxi_inv_events keeps_others_def open_at_def)
qed (use ok in simp)

lemma entry_work_ok:
  assumes w: "lxi_world w" and inv: "lxi_inv st" and ok: "call_ok call" "call \<noteq> Init" and "ready st (call, At_call s)"
  shows "\<exists>r st'. entry_work w call s st = ret (r, st') \<and> lxi_inv st' \<and> keeps_others call st st'"
proof -
  obtain d where d: "fetches call" "device_of call = Some d" "open_at st d" "s = sessions st ! nat d"
    using assms(5) by auto
  then have "entry_work w call s st = api_work w call st"
    using api_work_split [OF d(1,2)] session_at_open [OF inv d(3)] by simp
  then show ?thesis using api_work_ok [OF w inv ok] d by simp
qed

text \<open>A thread that moves with the others' entries kept leaves every thread ready.\<close>

lemma race_inv_move:
  assumes inv: "race_inv ts st" and disc: "disciplined (map fst ts)" and k: "k < length ts" "ts ! k = (call, pc)"
    and kept: "lxi_inv st'" "keeps_others call st st'" and moved: "ready st' (call, pc')"
  shows "race_inv (ts[k := (call, pc')]) st' \<and> map fst (ts[k := (call, pc')]) = map fst ts"
proof -
  have "ready st' (ts ! l)" if l: "l < length ts" "l \<noteq> k" for l
  proof -
    obtain call' q where t: "ts ! l = (call', q)" by fastforce
    have "call \<noteq> Disconnect d" if "device_of call' = Some d" for d
      using disc l k t that unfolding disciplined_def by force
    moreover have "ready st (call', q)" using inv l t by (metis race_inv_def)
    ultimately show ?thesis unfolding t using kept(2) by (cases q) (auto simp: keeps_others_def)
  qed
  then have "ready st' (ts[k := (call, pc')] ! l)" if "l < length ts" for l
    using moved that by (cases "l = k") simp_all
  then have "race_inv (ts[k := (call, pc')]) st'" using kept(1) by (simp add: race_inv_def)
  then show ?thesis using k by (simp add: map_update list_update_same_conv)
qed

lemma race_step_inv:
  assumes w: "\<forall>w \<in> W. lxi_world w" and step: "race_step W (Running ts st) c"
    and inv: "race_inv ts st" and disc: "disciplined (map fst ts)"
  shows "\<exists>ts' st'. c = Running ts' st' \<and> race_inv ts' st' \<and> map fst ts' = map fst ts"
proof -
  have tab: "lxi_inv st" using inv by (simp add: race_inv_def)
  have calls: "call_ok call" "call \<noteq> Init" if "k < length ts" "ts ! k = (call, pc)" for k call pc
  proof -
    have "call \<in> set (map fst ts)" using that by (force simp: in_set_conv_nth)
    then show "call_ok call" "call \<noteq> Init" using disc by (auto simp: disciplined_def)
  qed
  have rdy: "ready st (call, pc)" if "k < length ts" "ts ! k = (call, pc)" for k call pc
    using inv that by (metis race_inv_def)
  have same: "keeps_others call st st" for call by (simp add: keeps_others_def)
  show ?thesis
    using step
  proof cases
    case (check k call ok)
    have "ready st (call, if ok then At_work else Done LXI_ERROR)"
      using check api_check_iff [OF tab calls(1) [OF check(2,3)]] by auto
    then show ?thesis using race_inv_move [OF inv disc check(2,3) tab same] check(1) by blast
  next
    case (check_crash k call e)
    then show ?thesis
      using api_check_iff [OF tab calls(1) [OF check_crash(2,3)]] by (cases "device_of call") auto
  next
    case (work k call w r st')
    have "lxi_inv st'" "keeps_others call st st'"
      using api_work_ok [OF _ tab calls [OF work(2,3)], of w] assms(1) work rdy [OF work(2,3)] by auto
    then show ?thesis using race_inv_move [OF inv disc work(2,3)] work(1) by fastforce
  next
    case (work_crash k call w e)
    then show ?thesis
      using api_work_ok [OF _ tab calls [OF work_crash(2,3)], of w] assms(1) rdy [OF work_crash(2,3)] by auto
  next
    case (fetch k call d s)
    have "open_at st d" using rdy [OF fetch(2,3)] fetch by simp
    then have "ready st (call, At_call s)" using fetch session_at_open [OF tab] by auto
    then show ?thesis using race_inv_move [OF inv disc fetch(2,3) tab same] fetch(1) by blast
  next
    case (fetch_crash k call d e)
    then have "open_at st d" using rdy [OF fetch_crash(2,3)] by simp
    then show ?thesis using fetch_crash session_at_open [OF tab] by auto
  next
    case (through k call s w r st')
    have "lxi_inv st'" "keeps_others call st st'"
      using entry_work_ok [OF _ tab calls [OF through(2,3)] rdy [OF through(2,3)], of w] assms(1) through by auto
    then show ?thesis using race_inv_move [OF inv disc through(2,3)] through(1) by fastforce
  next
    case (through_crash k call s w e)
    then show ?thesis
      using entry_work_ok [OF _ tab calls [OF through_crash(2,3)] rdy [OF through_crash(2,3)], of w] assms(1) by auto
  qed
qed

lemma race_reach_inv:
  assumes "\<forall>w \<in> W. lxi_world w" and "race_reach W (Running ts st) c" and "race_inv ts st" and "disciplined (map fst ts)"
  shows "\<exists>ts' st'. c = Running ts' st' \<and> race_inv ts' st' \<and> map fst ts' = map fst ts"
  using assms(2)
proof (induction "Running ts st" c rule: race_reach.induct)
  case refl
  then show ?case using assms(3) by blast
next
  case (step c' c'')
  then show ?case using race_step_inv [OF assms(1)] assms(4) by metis
qed

section \<open>Threads that share a handle\<close>

text \<open>One thread checks and works between the check of the other and what follows it.\<close>

lemma race_behind_check:
  assumes "api_check a st = ret True" and "api_check b st = ret True" and "\<not> fetches a" and "w \<in> W"
    and "api_work w a st = ret (r, st')"
  shows "race_reach W (Running [(a, At_check), (b, At_check)] st) (Running [(a, Done r), (b, At_work)] st')"
proof -
  have 1: "race_step W (Running [(a, At_check), (b, At_check)] st) (Running [(a, At_work), (b, At_check)] st)"
    using race_step.check [of 0 "[(a, At_check), (b, At_check)]" a st True W] assms(1) by simp
  have 2: "race_step W (Running [(a, At_work), (b, At_check)] st) (Running [(a, At_work), (b, At_work)] st)"
    using race_step.check [of 1 "[(a, At_work), (b, At_check)]" b st True W] assms(2) by simp
  have 3: "race_step W (Running [(a, At_work), (b, At_work)] st) (Running [(a, Done r), (b, At_work)] st')"
    using race_step.work [of 0 "[(a, At_work), (b, At_work)]" a w W st r st'] assms(3-5) by simp
  show ?thesis by (meson 1 2 3 race_reach.intros)
qed

lemma race_two_works:
  assumes "api_check a st = ret True" and "api_check b st = ret True" and "\<not> fetches a" and "\<not> fetches b" and "w \<in> W"
    and "api_work w a st = ret (r, st')" and "api_work w b st' = fail e"
  shows "race_reach W (Running [(a, At_check), (b, At_check)] st) (Crashed e)"
  using race_behind_check [OF assms(1-3,5,6)] race_step.work_crash [of 1 "[(a, Done r), (b, At_work)]" b w W st' e]
    assms(4,5,7) by (simp add: race_reach.step)

lemma race_work_then_call:
  assumes "api_check a st = ret True" and "api_check b st = ret True" and "\<not> fetches a" and "w \<in> W"
    and "api_work w a st = ret (r, st')"
    and b: "fetches b" "device_of b = Some d" "session_at d st' = ret s" "entry_work w b s st' = fail e"
  shows "race_reach W (Running [(a, At_check), (b, At_check)] st) (Crashed e)"
proof -
  have "race_step W (Running [(a, Done r), (b, At_work)] st') (Running [(a, Done r), (b, At_call s)] st')"
    using race_step.fetch [of 1 "[(a, Done r), (b, At_work)]" b d st' s W] b by simp
  moreover have "race_step W (Running [(a, Done r), (b, At_call s)] st') (Crashed e)"
    using race_step.through_crash [of 1 "[(a, Done r), (b, At_call s)]" b s w W st' e] b assms(4) by simp
  ultimately show ?thesis using race_behind_check [OF assms(1-5)] by (meson race_reach.step)
qed

text \<open>
  C36. The check and the use are two critical sections, so a handle can be closed between them. For
  every open handle there is an interleaving of two \<^verbatim>\<open>lxi_disconnect\<close> of it that frees its memory
  twice, and one of \<^verbatim>\<open>lxi_disconnect\<close> and \<^verbatim>\<open>lxi_send\<close> in which the freed memory is used.
\<close>

theorem check_then_use_race:
  assumes "w \<in> W" and "lxi_world w" and "lxi_inv st" and "0 \<le> d" and "d < 1024" and "handles st (nat d) \<noteq> None"
  shows "race_reach W (Running [(Disconnect d, At_check), (Disconnect d, At_check)] st) (Crashed Double_Free) \<and>
    race_reach W (Running [(Disconnect d, At_check), (Send d message len timeout, At_check)] st)
      (Crashed Use_After_Free)"
proof -
  obtain fn x where h: "handles st (nat d) = Some (fn, x)" using assms(6) by auto
  obtain p where p: "nat d < length (sessions st)" "s_data (sessions st ! nat d) = Some p"
    using lxi_inv_entry [OF assms(3) h] by metis
  obtain new where rel: "disconnect_locked w d st = ret (LXI_OK, released (nat d) (events st @ new) st)"
    using lxi_world.disconnect_locked_released [OF assms(2,3,4,6)] by blast
  have ok: "is_valid_session d st = ret True"
    using is_valid_session_iff [OF assms(3), of d] assms by (simp add: SESSIONS_MAX_def)
  let ?st = "released (nat d) (events st @ new) st"
  have twice: "disconnect_locked w d ?st = fail Double_Free"
    using p assms(4) by (simp add: disconnect_locked_def session_at_def released_def free_block_def)
  have "\<exists>s. session_at d ?st = ret s \<and> s_data s = Some p" "heap ?st p = None"
    using p assms(4) by (simp_all add: session_at_def released_def)
  then obtain s where s: "session_at d ?st = ret s" "send_entry w s message len timeout ?st = fail Use_After_Free"
    by (auto simp: send_entry_def load_block_def)
  show ?thesis
    using race_two_works [of "Disconnect d" st "Disconnect d" w W] race_work_then_call [of "Disconnect d" st
        "Send d message len timeout" w W _ _ d s] ok rel twice s assms(1) by simp
qed

theorem check_then_use_race_witness:
  "race_reach {demo_world} (Running [(Disconnect 0, At_check), (Disconnect 0, At_check)] one_session)
      (Crashed Double_Free) \<and>
    race_reach {demo_world} (Running [(Disconnect 0, At_check), (Send 0 [65] 1 1000, At_check)] one_session)
      (Crashed Use_After_Free)"
  by (rule check_then_use_race [OF _ demo_lxi_world one_session_ok(1)]) (simp_all add: one_session_ok)

end
