(* ===== verification/Lxi_Mutex.thy ===== *)
theory Lxi_Mutex
  imports Lxi_Race
begin

text \<open>
  The session mutex of \<^verbatim>\<open>src/src/lxi.c\<close> made explicit. Each API call is followed from one access to shared state to the
  next: \<^verbatim>\<open>is_valid_session\<close> locks only for a number in range; \<^verbatim>\<open>lxi_connect\<close> holds the mutex while it looks for a free
  entry, fills it, connects and then marks the entry or frees the data; \<^verbatim>\<open>lxi_disconnect\<close> takes the mutex a second time,
  disconnects, frees and clears the entry; \<^verbatim>\<open>lxi_send\<close> and \<^verbatim>\<open>lxi_receive\<close> read their entry and make their call without
  it, so that they meet entries that are half set up. The theorems: for threads that own their handles this machine refines
  the one of \<open>Lxi_Race\<close>, in which the work of a locked call is one step, which rests on mutual exclusion; every
  lock is released on every path, and all these threads return.
\<close>

section \<open>The locked calls in steps\<close>

text \<open>The end of \<^verbatim>\<open>lxi_connect\<close> and the three parts of the second critical section of \<^verbatim>\<open>lxi_disconnect\<close>.\<close>

definition connect_finish :: "nat \<Rightarrow> int \<Rightarrow> lxi_state \<Rightarrow> (int \<times> lxi_state) c" where
  "connect_finish i r st =
     (if r \<noteq> 0 then cbind (free_block (s_data (sessions st ! i)) st) (\<lambda>st. ret (LXI_ERROR, st))
      else ret (int i, set_session i (\<lambda>s. s\<lparr>allocated := True, connected := True\<rparr>) st))"

definition disconnect_call :: "world \<Rightarrow> int \<Rightarrow> lxi_state \<Rightarrow> lxi_state c" where
  "disconnect_call w device st =
     cbind (session_at device st)
       (\<lambda>s. if connected s
            then cbind (load_block (s_data s) st)
                   (\<lambda>x. cbind (cell_disconnect w (s_disconnect s) x (events st)) (\<lambda>(_, h). ret (st\<lparr>events := h\<rparr>)))
            else ret st)"

definition disconnect_free :: "int \<Rightarrow> lxi_state \<Rightarrow> lxi_state c" where
  "disconnect_free device st = cbind (session_at device st) (\<lambda>s. free_block (s_data s) st)"

definition disconnect_clear :: "int \<Rightarrow> lxi_state \<Rightarrow> lxi_state" where
  "disconnect_clear device st = set_session (nat device) (\<lambda>s. s\<lparr>connected := False, allocated := False\<rparr>) st"

lemma lxi_connect_split:
  "lxi_connect w address port name timeout pr st =
     (case find_free (sessions st) of
        None \<Rightarrow> ret (LXI_ERROR, st)
      | Some i \<Rightarrow>
          (case setup_protocol w i pr st of
             None \<Rightarrow> ret (LXI_ERROR, st)
           | Some st \<Rightarrow> cbind (call_connect w i address port name timeout st) (\<lambda>(r, st). connect_finish i r st)))"
  unfolding lxi_connect_def connect_finish_def [abs_def] ..

lemma disconnect_locked_split:
  "disconnect_locked w d st =
     cbind (disconnect_call w d st) (\<lambda>st. cbind (disconnect_free d st) (\<lambda>st. ret (LXI_OK, disconnect_clear d st)))"
proof (cases "session_at d st")
  case (Some y)
  show ?thesis
  proof (cases y)
    case (Inr s)
    have "session_at d (st\<lparr>events := h\<rparr>) = ret s" for h using Some Inr by (simp add: session_at_def split: if_splits)
    then show ?thesis
      using Some Inr
      by (auto simp: disconnect_locked_def disconnect_call_def disconnect_free_def disconnect_clear_def cbind_assoc
          cbind_def split: option.splits sum.splits)
  qed (use Some in \<open>simp add: disconnect_locked_def disconnect_call_def\<close>)
qed (simp add: disconnect_locked_def disconnect_call_def cbind_def)

text \<open>Where a thread is in its call. At the points marked with a star it holds the mutex.\<close>

datatype mpc =
    M_start
  | M_check          \<comment> \<open>* inside \<^verbatim>\<open>is_valid_session\<close>, before the entry is read\<close>
  | M_checked bool   \<comment> \<open>* the entry has been read\<close>
  | M_valid          \<comment> \<open>behind the check\<close>
  | M_locked         \<comment> \<open>* before the work of \<^verbatim>\<open>lxi_connect\<close> or \<^verbatim>\<open>lxi_disconnect\<close>\<close>
  | M_found nat      \<comment> \<open>* a free entry has been found\<close>
  | M_set nat world  \<comment> \<open>* its pointers are set and its data is allocated, by the world that will answer the connection\<close>
  | M_called nat int \<comment> \<open>* the protocol has connected or failed\<close>
  | M_disconnected   \<comment> \<open>* the protocol has disconnected\<close>
  | M_freed          \<comment> \<open>* the data is freed\<close>
  | M_worked int     \<comment> \<open>* the work is done\<close>
  | M_fetched session \<comment> \<open>\<^verbatim>\<open>lxi_send\<close> or \<^verbatim>\<open>lxi_receive\<close> has read the pointers of its entry\<close>
  | M_returned int

fun holds :: "mpc \<Rightarrow> bool" where
  "holds M_start = False"
| "holds M_valid = False"
| "holds (M_fetched s) = False"
| "holds (M_returned r) = False"
| "holds _ = True"

text \<open>The calls whose work is done under the mutex.\<close>

fun works_locked :: "api_call \<Rightarrow> bool" where
  "works_locked (Connect address port name timeout pr) = True"
| "works_locked (Disconnect device) = True"
| "works_locked _ = False"

text \<open>One step of the work of a locked call; no result where the call does not go on.\<close>

fun locked_step :: "world \<Rightarrow> api_call \<Rightarrow> mpc \<Rightarrow> lxi_state \<Rightarrow> (mpc \<times> lxi_state) c" where
  "locked_step w (Connect address port name timeout pr) M_locked st =
     ret (case find_free (sessions st) of None \<Rightarrow> M_worked LXI_ERROR | Some i \<Rightarrow> M_found i, st)"
| "locked_step w (Connect address port name timeout pr) (M_found i) st =
     (case setup_protocol w i pr st of None \<Rightarrow> ret (M_worked LXI_ERROR, st) | Some st' \<Rightarrow> ret (M_set i w, st'))"
| "locked_step w (Connect address port name timeout pr) (M_set i w') st =
     cbind (call_connect w' i address port name timeout st) (\<lambda>(r, st). ret (M_called i r, st))"
| "locked_step w (Connect address port name timeout pr) (M_called i r) st =
     cbind (connect_finish i r st) (\<lambda>(r, st). ret (M_worked r, st))"
| "locked_step w (Disconnect device) M_locked st = cbind (disconnect_call w device st) (\<lambda>st. ret (M_disconnected, st))"
| "locked_step w (Disconnect device) M_disconnected st = cbind (disconnect_free device st) (\<lambda>st. ret (M_freed, st))"
| "locked_step w (Disconnect device) M_freed st = ret (M_worked LXI_OK, disconnect_clear device st)"
| "locked_step w call pc st = None"

definition in_range :: "int \<Rightarrow> bool" where
  "in_range device \<longleftrightarrow> 0 \<le> device \<and> device \<le> int SESSIONS_MAX"

text \<open>The threads, the owner of \<^verbatim>\<open>session_mutex\<close> (the index of a thread) and the shared state.\<close>

datatype mconfig = Locking "(api_call \<times> mpc) list" "nat option" lxi_state | Faulted fault

inductive mutex_step :: "world set \<Rightarrow> mconfig \<Rightarrow> mconfig \<Rightarrow> bool" for W where
  enter: "k < length ts \<Longrightarrow> ts ! k = (call, M_start) \<Longrightarrow> device_of call = None \<Longrightarrow>
    mutex_step W (Locking ts m st) (Locking (ts[k := (call, M_valid)]) m st)"
| out_of_range: "k < length ts \<Longrightarrow> ts ! k = (call, M_start) \<Longrightarrow> device_of call = Some d \<Longrightarrow> \<not> in_range d \<Longrightarrow>
    mutex_step W (Locking ts m st) (Locking (ts[k := (call, M_returned LXI_ERROR)]) m st)"
| lock_check: "k < length ts \<Longrightarrow> ts ! k = (call, M_start) \<Longrightarrow> device_of call = Some d \<Longrightarrow> in_range d \<Longrightarrow>
    mutex_step W (Locking ts None st) (Locking (ts[k := (call, M_check)]) (Some k) st)"
| read_entry: "k < length ts \<Longrightarrow> ts ! k = (call, M_check) \<Longrightarrow> device_of call = Some d \<Longrightarrow>
    session_at d st = ret s \<Longrightarrow>
    mutex_step W (Locking ts m st) (Locking (ts[k := (call, M_checked (allocated s))]) m st)"
| read_fault: "k < length ts \<Longrightarrow> ts ! k = (call, M_check) \<Longrightarrow> device_of call = Some d \<Longrightarrow>
    session_at d st = fail e \<Longrightarrow> mutex_step W (Locking ts m st) (Faulted e)"
| unlock_check: "k < length ts \<Longrightarrow> ts ! k = (call, M_checked ok) \<Longrightarrow>
    mutex_step W (Locking ts m st)
      (Locking (ts[k := (call, if ok then M_valid else M_returned LXI_ERROR)]) None st)"
| lock_work: "k < length ts \<Longrightarrow> ts ! k = (call, M_valid) \<Longrightarrow> works_locked call \<Longrightarrow>
    mutex_step W (Locking ts None st) (Locking (ts[k := (call, M_locked)]) (Some k) st)"
| work_locked: "k < length ts \<Longrightarrow> ts ! k = (call, pc) \<Longrightarrow> w \<in> W \<Longrightarrow> locked_step w call pc st = ret (pc', st') \<Longrightarrow>
    mutex_step W (Locking ts m st) (Locking (ts[k := (call, pc')]) m st')"
| work_fault: "k < length ts \<Longrightarrow> ts ! k = (call, pc) \<Longrightarrow> w \<in> W \<Longrightarrow> locked_step w call pc st = fail e \<Longrightarrow>
    mutex_step W (Locking ts m st) (Faulted e)"
| init_unlocked: "k < length ts \<Longrightarrow> ts ! k = (Init, M_valid) \<Longrightarrow> lxi_init st = (r, st') \<Longrightarrow>
    mutex_step W (Locking ts m st) (Locking (ts[k := (Init, M_returned r)]) m st')"
| fetch_entry: "k < length ts \<Longrightarrow> ts ! k = (call, M_valid) \<Longrightarrow> fetches call \<Longrightarrow> device_of call = Some d \<Longrightarrow>
    session_at d st = ret s \<Longrightarrow> mutex_step W (Locking ts m st) (Locking (ts[k := (call, M_fetched s)]) m st)"
| fetch_fault: "k < length ts \<Longrightarrow> ts ! k = (call, M_valid) \<Longrightarrow> fetches call \<Longrightarrow> device_of call = Some d \<Longrightarrow>
    session_at d st = fail e \<Longrightarrow> mutex_step W (Locking ts m st) (Faulted e)"
| call_entry: "k < length ts \<Longrightarrow> ts ! k = (call, M_fetched s) \<Longrightarrow> w \<in> W \<Longrightarrow> entry_work w call s st = ret (r, st') \<Longrightarrow>
    mutex_step W (Locking ts m st) (Locking (ts[k := (call, M_returned r)]) m st')"
| call_fault: "k < length ts \<Longrightarrow> ts ! k = (call, M_fetched s) \<Longrightarrow> w \<in> W \<Longrightarrow> entry_work w call s st = fail e \<Longrightarrow>
    mutex_step W (Locking ts m st) (Faulted e)"
| unlock_work: "k < length ts \<Longrightarrow> ts ! k = (call, M_worked r) \<Longrightarrow>
    mutex_step W (Locking ts m st) (Locking (ts[k := (call, M_returned r)]) None st)"

definition mutex_start :: "api_call list \<Rightarrow> lxi_state \<Rightarrow> mconfig" where
  "mutex_start calls st = Locking (map (\<lambda>call. (call, M_start)) calls) None st"

text \<open>Runs of a given number of steps.\<close>

inductive mutex_run :: "world set \<Rightarrow> nat \<Rightarrow> mconfig \<Rightarrow> mconfig \<Rightarrow> bool" for W where
  refl: "mutex_run W 0 c c"
| step: "mutex_run W n c c' \<Longrightarrow> mutex_step W c' c'' \<Longrightarrow> mutex_run W (Suc n) c c''"

inductive_simps mutex_step_Faulted [simp]: "mutex_step W (Faulted e) c"

section \<open>Mutual exclusion\<close>

definition owned :: "(api_call \<times> mpc) list \<Rightarrow> nat option \<Rightarrow> bool" where
  "owned ts m \<longleftrightarrow> (\<forall>k < length ts. holds (snd (ts ! k)) \<longleftrightarrow> m = Some k) \<and> (\<forall>k. m = Some k \<longrightarrow> k < length ts)"

fun exclusive :: "mconfig \<Rightarrow> bool" where
  "exclusive (Locking ts m st) = owned ts m"
| "exclusive (Faulted e) = True"

text \<open>A thread moves without touching the mutex, takes it when it is free, or gives it back.\<close>

lemma owned_move:
  assumes "owned ts m" and "k < length ts" and "ts ! k = (call, pc)"
  shows owned_same: "holds pc' = holds pc \<Longrightarrow> owned (ts[k := (call, pc')]) m"
    and owned_lock: "m = None \<Longrightarrow> holds pc' \<Longrightarrow> owned (ts[k := (call, pc')]) (Some k)"
    and owned_unlock: "holds pc \<Longrightarrow> \<not> holds pc' \<Longrightarrow> owned (ts[k := (call, pc')]) None"
  using assms unfolding owned_def by (auto simp: nth_list_update)

text \<open>The work of a locked call begins and ends with the mutex held.\<close>

lemma locked_step_cases:
  assumes "locked_step w call pc st = ret (pc', st')"
  obtains (found) address port name timeout pr i where "call = Connect address port name timeout pr" "pc = M_locked"
      "find_free (sessions st) = Some i" "pc' = M_found i" "st' = st"
    | (full) address port name timeout pr where "call = Connect address port name timeout pr" "pc = M_locked"
      "find_free (sessions st) = None" "pc' = M_worked LXI_ERROR" "st' = st"
    | (set) address port name timeout pr i where "call = Connect address port name timeout pr" "pc = M_found i"
      "setup_protocol w i pr st = Some st'" "pc' = M_set i w"
    | (unsupported) address port name timeout pr i where "call = Connect address port name timeout pr" "pc = M_found i"
      "setup_protocol w i pr st = None" "pc' = M_worked LXI_ERROR" "st' = st"
    | (called) address port name timeout pr i w' r where "call = Connect address port name timeout pr" "pc = M_set i w'"
      "call_connect w' i address port name timeout st = ret (r, st')" "pc' = M_called i r"
    | (finished) address port name timeout pr i r r' where "call = Connect address port name timeout pr" "pc = M_called i r"
      "connect_finish i r st = ret (r', st')" "pc' = M_worked r'"
    | (disconnected) d where "call = Disconnect d" "pc = M_locked" "disconnect_call w d st = ret st'" "pc' = M_disconnected"
    | (freed) d where "call = Disconnect d" "pc = M_disconnected" "disconnect_free d st = ret st'" "pc' = M_freed"
    | (cleared) d where "call = Disconnect d" "pc = M_freed" "st' = disconnect_clear d st" "pc' = M_worked LXI_OK"
proof (cases "(w, call, pc, st)" rule: locked_step.cases)
  case (1 w1 address port name timeout pr st1)
  then have c: "call = Connect address port name timeout pr" "pc = M_locked" by simp_all
  show thesis
  proof (cases "find_free (sessions st)")
    case None
    then show thesis using assms c by (intro full [OF c]) auto
  next
    case (Some i)
    then show thesis using assms c by (intro found [OF c, of i]) auto
  qed
next
  case (2 w1 address port name timeout pr i st1)
  then have c: "call = Connect address port name timeout pr" "pc = M_found i" by simp_all
  show thesis
  proof (cases "setup_protocol w i pr st")
    case None
    then show thesis using assms c by (intro unsupported [OF c]) auto
  next
    case (Some st2)
    then show thesis using assms c by (intro set [OF c]) auto
  qed
next
  case (3 w1 address port name timeout pr i w' st1)
  then have c: "call = Connect address port name timeout pr" "pc = M_set i w'" by simp_all
  then obtain r where "call_connect w' i address port name timeout st = ret (r, st')" "pc' = M_called i r"
    using assms by (auto simp: cbind_ret_iff)
  then show thesis by (rule called [OF c])
next
  case (4 w1 address port name timeout pr i r st1)
  then have c: "call = Connect address port name timeout pr" "pc = M_called i r" by simp_all
  then obtain r' where "connect_finish i r st = ret (r', st')" "pc' = M_worked r'"
    using assms by (auto simp: cbind_ret_iff)
  then show thesis by (rule finished [OF c])
next
  case (5 w1 d st1)
  then have c: "call = Disconnect d" "pc = M_locked" by simp_all
  then have "disconnect_call w d st = ret st'" "pc' = M_disconnected" using assms by (auto simp: cbind_ret_iff)
  then show thesis by (rule disconnected [OF c])
next
  case (6 w1 d st1)
  then have c: "call = Disconnect d" "pc = M_disconnected" by simp_all
  then have "disconnect_free d st = ret st'" "pc' = M_freed" using assms by (auto simp: cbind_ret_iff)
  then show thesis by (rule freed [OF c])
next
  case (7 w1 d st1)
  then have c: "call = Disconnect d" "pc = M_freed" by simp_all
  then have "st' = disconnect_clear d st" "pc' = M_worked LXI_OK" using assms by auto
  then show thesis by (rule cleared [OF c])
qed (use assms in simp_all)

lemma locked_step_holds: "locked_step w call pc st = ret (pc', st') \<Longrightarrow> holds pc \<and> holds pc'"
  by (erule locked_step_cases) simp_all

lemma exclusive_step: "mutex_step W c c' \<Longrightarrow> exclusive c \<Longrightarrow> exclusive c'"
proof (induction rule: mutex_step.induct)
  case (unlock_check k ts call ok m st)
  then show ?case using owned_unlock [of ts m k call "M_checked ok"] by simp
next
  case (unlock_work k ts call r m st)
  then show ?case using owned_unlock [of ts m k call "M_worked r"] by simp
next
  case (lock_check k ts call d st)
  then show ?case using owned_lock [of ts None k call M_start] by simp
next
  case (lock_work k ts call st)
  then show ?case using owned_lock [of ts None k call M_valid] by simp
next
  case (work_locked k ts call pc w st pc' st' m)
  then show ?case using locked_step_holds [OF work_locked.hyps(4)] owned_same [of ts m k call pc pc'] by simp
qed (auto intro: owned_same)

section \<open>What other threads see of the work\<close>

text \<open>
  The work on entry \<open>i\<close> changes that entry and the blocks in \<open>P\<close>. A thread that uses another entry with other data meets the
  same entry and the same data before and after.
\<close>

definition touches :: "nat \<Rightarrow> nat set \<Rightarrow> lxi_state \<Rightarrow> lxi_state \<Rightarrow> bool" where
  "touches i P st st' \<longleftrightarrow> length (sessions st') = length (sessions st) \<and>
     (\<forall>j. j \<noteq> i \<longrightarrow> sessions st' ! j = sessions st ! j) \<and> (\<forall>p. p \<notin> P \<longrightarrow> heap st' p = heap st p)"

definition agrees :: "lxi_state \<Rightarrow> lxi_state \<Rightarrow> int \<Rightarrow> bool" where
  "agrees st st' d \<longleftrightarrow> session_at d st = session_at d st' \<and>
     (\<forall>s. session_at d st = ret s \<longrightarrow> load_block (s_data s) st = load_block (s_data s) st')"

lemma agrees_refl [simp]: "agrees st st d"
  by (simp add: agrees_def)

lemma agrees_sym: "agrees st st' d \<Longrightarrow> agrees st' st d"
  by (auto simp: agrees_def)

lemma reads_events [simp]: "session_at d (st\<lparr>events := h\<rparr>) = session_at d st" "load_block p (st\<lparr>events := h\<rparr>) = load_block p st"
  by (simp_all add: session_at_def load_block_def split: option.split)

lemma agrees_events: "agrees st st' d \<Longrightarrow> agrees (st\<lparr>events := h\<rparr>) (st'\<lparr>events := h\<rparr>) d"
  by (simp add: agrees_def)

lemma touches_agrees:
  assumes "touches i P st st'" and "nat d \<noteq> i" and "\<And>p. s_data (sessions st ! nat d) = Some p \<Longrightarrow> p \<notin> P"
  shows "agrees st st' d"
  using assms by (auto simp: touches_def agrees_def session_at_def load_block_def split: option.splits if_splits)

lemma setup_touches:
  assumes "setup_protocol w i pr st = Some st'"
  shows "touches i {next_ptr st} st st' \<and> events st' = events st \<and>
    (i < length (sessions st) \<longrightarrow> w_malloc w (next_ptr st) \<longrightarrow> s_data (sessions st' ! i) = Some (next_ptr st))"
  using assms
  by (cases pr) (auto simp: setup_protocol_def setup_backend_def malloc_def set_session_def touches_def Let_def)

lemma call_connect_touches:
  assumes "call_connect w i address port name timeout st = ret (r, st')"
  shows "sessions st' = sessions st \<and> (\<forall>p. s_data (sessions st ! i) \<noteq> Some p \<longrightarrow> heap st' p = heap st p)"
  using assms by (auto simp: call_connect_def cbind_ret_iff Let_def split: option.splits)

lemma connect_finish_touches:
  assumes "connect_finish i r st = ret (r', st')"
  shows "touches i {p. s_data (sessions st ! i) = Some p} st st' \<and> events st' = events st \<and>
    r' = (if r = 0 then int i else LXI_ERROR)"
  using assms
  by (auto simp: connect_finish_def free_block_def set_session_def touches_def cbind_ret_iff split: if_splits option.splits)

lemma disconnect_call_touches: "disconnect_call w d st = ret st' \<Longrightarrow> sessions st' = sessions st \<and> heap st' = heap st"
  by (auto simp: disconnect_call_def cbind_ret_iff split: if_splits)

lemma disconnect_free_touches:
  assumes "disconnect_free d st = ret st'"
  shows "0 \<le> d \<and> sessions st' = sessions st \<and> events st' = events st \<and>
    (\<forall>p. s_data (sessions st ! nat d) \<noteq> Some p \<longrightarrow> heap st' p = heap st p)"
  using assms by (auto simp: disconnect_free_def session_at_def free_block_def cbind_ret_iff split: if_splits option.splits)

lemma disconnect_clear_touches: "touches (nat d) P st (disconnect_clear d st) \<and> events (disconnect_clear d st) = events st"
  by (simp add: disconnect_clear_def set_session_def touches_def)

lemma disconnect_end_touches:
  assumes "disconnect_free d st = ret st'"
  shows "touches (nat d) {p. s_data (sessions st ! nat d) = Some p} st (disconnect_clear d st') \<and>
    events (disconnect_clear d st') = events st"
  using disconnect_free_touches [OF assms] by (simp add: disconnect_clear_def set_session_def touches_def)

text \<open>The remaining steps do not depend on the history.\<close>

lemma setup_events: "setup_protocol w i pr st = Some st' \<Longrightarrow> setup_protocol w i pr (st\<lparr>events := h\<rparr>) = Some (st'\<lparr>events := h\<rparr>)"
  by (cases pr) (auto simp: setup_protocol_def setup_backend_def malloc_def set_session_def Let_def)

lemma connect_finish_events:
  "connect_finish i r st = ret (r', st') \<Longrightarrow> connect_finish i r (st\<lparr>events := h\<rparr>) = ret (r', st'\<lparr>events := h\<rparr>)"
  by (auto simp: connect_finish_def free_block_def set_session_def cbind_ret_iff split: if_splits option.splits)

lemma disconnect_free_events: "disconnect_free d st = ret st' \<Longrightarrow> disconnect_free d (st\<lparr>events := h\<rparr>) = ret (st'\<lparr>events := h\<rparr>)"
  by (auto simp: disconnect_free_def session_at_def free_block_def cbind_ret_iff split: if_splits option.splits)

lemma disconnect_clear_events: "disconnect_clear d (st\<lparr>events := h\<rparr>) = (disconnect_clear d st)\<lparr>events := h\<rparr>"
  by (simp add: disconnect_clear_def set_session_def)

lemma entry_work_agrees:
  assumes "fetches call" and "load_block (s_data s) st = load_block (s_data s) sa" and "events st = events sa"
  shows "(\<exists>r h. entry_work w call s st = ret (r, st\<lparr>events := h\<rparr>) \<and> entry_work w call s sa = ret (r, sa\<lparr>events := h\<rparr>)) \<or>
    (\<exists>e. entry_work w call s st = fail e \<and> entry_work w call s sa = fail e) \<or>
    entry_work w call s st = None \<and> entry_work w call s sa = None"
  using assms
  by (cases call) (auto simp: send_entry_def receive_entry_def cbind_def split: option.splits sum.splits)

section \<open>The mutex makes the work atomic\<close>

text \<open>
  The view of \<open>Lxi_Race\<close>: a check takes effect when the entry is read; the work takes effect when it calls the protocol, or
  when it gives up before that.
\<close>

fun pc_of :: "mpc \<Rightarrow> pc" where
  "pc_of M_start = At_check"
| "pc_of M_check = At_check"
| "pc_of (M_checked ok) = (if ok then At_work else Done LXI_ERROR)"
| "pc_of M_valid = At_work"
| "pc_of M_locked = At_work"
| "pc_of (M_found i) = At_work"
| "pc_of (M_set i w) = At_work"
| "pc_of (M_called i r) = Done (if r = 0 then int i else LXI_ERROR)"
| "pc_of M_disconnected = Done LXI_OK"
| "pc_of M_freed = Done LXI_OK"
| "pc_of (M_worked r) = Done r"
| "pc_of (M_fetched s) = At_call s"
| "pc_of (M_returned r) = Done r"

definition race_view :: "(api_call \<times> mpc) list \<Rightarrow> (api_call \<times> pc) list" where
  "race_view ts = map (map_prod id pc_of) ts"

lemma race_view_simps [simp]:
  "length (race_view ts) = length ts" "k < length ts \<Longrightarrow> race_view ts ! k = map_prod id pc_of (ts ! k)"
  "race_view (ts[k := (call, pc)]) = (race_view ts)[k := (call, pc_of pc)]" "map fst (race_view ts) = map fst ts"
  by (simp_all add: race_view_def map_update comp_def)

lemma race_view_same:
  "k < length ts \<Longrightarrow> ts ! k = (call, pc) \<Longrightarrow> pc_of pc' = pc_of pc \<Longrightarrow> race_view (ts[k := (call, pc')]) = race_view ts"
  by simp (metis id_apply length_map list_update_id map_prod_simp race_view_def race_view_simps(1,2))

text \<open>How the shared state \<open>st\<close> relates to the state \<open>sa\<close> of the atomic machine while a thread holds the mutex.\<close>

fun behind :: "world set \<Rightarrow> api_call \<times> mpc \<Rightarrow> lxi_state \<Rightarrow> lxi_state \<Rightarrow> bool" where
  "behind W (call, M_check) st sa = (st = sa \<and> (\<exists>d. device_of call = Some d \<and> in_range d))"
| "behind W (call, M_checked ok) st sa = (st = sa)"
| "behind W (call, M_locked) st sa = (st = sa \<and> works_locked call)"
| "behind W (Connect address port name timeout pr, M_found i) st sa = (st = sa \<and> find_free (sessions sa) = Some i)"
| "behind W (Connect address port name timeout pr, M_set i w) st sa =
     (w \<in> W \<and> find_free (sessions sa) = Some i \<and> setup_protocol w i pr sa = Some st)"
| "behind W (Connect address port name timeout pr, M_called i r) st sa =
     (connect_finish i r st = ret (if r = 0 then int i else LXI_ERROR, sa))"
| "behind W (Disconnect d, M_disconnected) st sa = (\<exists>st'. disconnect_free d st = ret st' \<and> sa = disconnect_clear d st')"
| "behind W (Disconnect d, M_freed) st sa = (sa = disconnect_clear d st)"
| "behind W (call, M_worked r) st sa = (st = sa)"
| "behind W t st sa = False"

lemma behind_events: "behind W t st sa \<Longrightarrow> behind W t (st\<lparr>events := h\<rparr>) (sa\<lparr>events := h\<rparr>)"
  by (cases "(W, t, st, sa)" rule: behind.cases)
    (auto simp: setup_events connect_finish_events disconnect_clear_events dest: disconnect_free_events)

fun uses_entry :: "api_call \<times> mpc \<Rightarrow> int \<Rightarrow> bool" where
  "uses_entry (call, M_valid) d = (device_of call = Some d)"
| "uses_entry (call, M_fetched s) d = (device_of call = Some d)"
| "uses_entry _ d = False"

definition simulates :: "world set \<Rightarrow> (api_call \<times> mpc) list \<Rightarrow> nat option \<Rightarrow> lxi_state \<Rightarrow> lxi_state \<Rightarrow> bool" where
  "simulates W ts m st sa \<longleftrightarrow> owned ts m \<and>
     (case m of None \<Rightarrow> st = sa | Some k \<Rightarrow> behind W (ts ! k) st sa) \<and> events st = events sa \<and>
     (\<forall>l < length ts. \<forall>d. uses_entry (ts ! l) d \<longrightarrow> agrees st sa d)"

lemma simulatesD:
  assumes "simulates W ts m st sa"
  shows "owned ts m" and "m = None \<Longrightarrow> st = sa" and "m = Some k \<Longrightarrow> behind W (ts ! k) st sa" and "events st = events sa"
    and "l < length ts \<Longrightarrow> uses_entry (ts ! l) d \<Longrightarrow> agrees st sa d"
  using assms by (auto simp: simulates_def)

lemma simulates_holder:
  assumes "simulates W ts m st sa" and "k < length ts" and "ts ! k = (call, pc)" and "holds pc"
  shows "m = Some k" and "behind W (call, pc) st sa"
proof -
  show "m = Some k" using simulatesD(1) [OF assms(1)] assms(2-4) by (force simp: owned_def)
  then show "behind W (call, pc) st sa" using simulatesD(3) [OF assms(1)] assms(3) by metis
qed

text \<open>A thread moves outside the mutex; the holder moves on; a thread takes or gives back the mutex.\<close>

lemma simulates_move:
  assumes sim: "simulates W ts m st sa" and k: "k < length ts" "ts ! k = (call, pc)" and "\<not> holds pc" and "\<not> holds pc'"
    and "\<And>d. uses_entry (call, pc') d \<Longrightarrow> uses_entry (call, pc) d"
  shows "simulates W (ts[k := (call, pc')]) m st sa"
proof -
  have own: "owned ts m" using simulatesD(1) [OF sim] .
  have "owned (ts[k := (call, pc')]) m" using owned_same [OF own k] assms(4,5) by simp
  moreover have "m \<noteq> Some k" using own k assms(4) by (force simp: owned_def)
  moreover have "agrees st sa d" if "l < length ts" "uses_entry (ts[k := (call, pc')] ! l) d" for l d
    using that assms(6) k simulatesD(5) [OF sim, of l d] by (cases "l = k") simp_all
  ultimately show ?thesis using sim by (auto simp: simulates_def split: option.splits)
qed

lemma simulates_hold:
  assumes "simulates W ts m st sa" and "k < length ts" and "ts ! k = (call, pc)" and "holds pc \<or> m = None" and "holds pc'"
    and "behind W (call, pc') st' sa'" and "events st' = events sa'"
    and "\<And>l d. l < length ts \<Longrightarrow> l \<noteq> k \<Longrightarrow> uses_entry (ts ! l) d \<Longrightarrow> agrees st' sa' d"
  shows "simulates W (ts[k := (call, pc')]) (Some k) st' sa'"
proof -
  have "owned (ts[k := (call, pc')]) (Some k)"
    using owned_same [OF simulatesD(1) [OF assms(1)] assms(2,3), of pc'] owned_lock [OF simulatesD(1) [OF assms(1)] assms(2,3)]
      simulates_holder(1) [OF assms(1-3)] assms(4,5) by fastforce
  moreover have "\<not> uses_entry (call, pc') d" for d using assms(5) by (cases pc') simp_all
  ultimately show ?thesis
    using assms(2,6-8) by (auto simp: simulates_def nth_list_update)
qed

lemma simulates_release:
  assumes "simulates W ts m st sa" and "k < length ts" and "ts ! k = (call, pc)" and "holds pc" and "\<not> holds pc'" and "st = sa"
  shows "simulates W (ts[k := (call, pc')]) None st sa"
  using owned_unlock [OF simulatesD(1) [OF assms(1)] assms(2,3,4,5)] assms(6) by (simp add: simulates_def)

section \<open>Every step is matched\<close>

text \<open>What the atomic machine guarantees for threads that own their handles.\<close>

definition atomic_ok :: "world set \<Rightarrow> (api_call \<times> mpc) list \<Rightarrow> lxi_state \<Rightarrow> bool" where
  "atomic_ok W ts sa \<longleftrightarrow> (\<forall>w \<in> W. lxi_world w) \<and> race_inv (race_view ts) sa \<and> disciplined (map fst ts)"

lemma atomic_thread:
  assumes "atomic_ok W ts sa" and "k < length ts" and "ts ! k = (call, pc)"
  shows "lxi_inv sa" and "call_ok call" and "call \<noteq> Init" and "ready sa (call, pc_of pc)"
proof -
  have "call \<in> set (map fst ts)" using assms(2,3) by (force simp: in_set_conv_nth)
  then show "call_ok call" "call \<noteq> Init" using assms(1) by (auto simp: atomic_ok_def disciplined_def)
  have "ready sa (race_view ts ! k)" using assms(1,2) by (simp add: atomic_ok_def race_inv_def)
  then show "ready sa (call, pc_of pc)" using assms(2,3) by simp
  show "lxi_inv sa" using assms(1) by (simp add: atomic_ok_def race_inv_def)
qed

lemma atomic_work:
  assumes "atomic_ok W ts sa" and "k < length ts" and "ts ! k = (call, pc)" and "pc_of pc = At_work" and "w \<in> W"
  obtains r sa' where "api_work w call sa = ret (r, sa')"
proof -
  note th = atomic_thread [OF assms(1-3)]
  have "lxi_world w" using assms(1,5) by (simp add: atomic_ok_def)
  then show thesis using api_work_ok [of w sa call] th assms(4) that by fastforce
qed

lemma uses_open:
  assumes "atomic_ok W ts sa" and "l < length ts" and "uses_entry (ts ! l) d"
  shows "open_at sa d"
proof -
  obtain call pc where t: "ts ! l = (call, pc)" by fastforce
  show ?thesis using atomic_thread(4) [OF assms(1,2) t] assms(3) t by (cases pc) auto
qed

lemma uses_other:
  assumes "atomic_ok W ts sa" and "l < length ts" and "uses_entry (ts ! l) d" and "k < length ts" and "l \<noteq> k"
    and "ts ! k = (Disconnect d', pc)"
  shows "d \<noteq> d'"
proof -
  obtain call q where t: "ts ! l = (call, q)" by fastforce
  then have "device_of call = Some d" using assms(3) by (cases q) auto
  moreover have "map fst ts ! k = Disconnect d'" "map fst ts ! l = call" using assms t by simp_all
  ultimately show ?thesis using assms(1,2,4,5) unfolding atomic_ok_def disciplined_def by (metis length_map)
qed

lemma open_data:
  assumes "lxi_inv sa" and "open_at sa d"
  obtains p where "0 \<le> d" "nat d < SESSIONS_MAX" "allocated (sessions sa ! nat d)" "s_data (sessions sa ! nat d) = Some p"
    "p < next_ptr sa"
proof -
  obtain fn x where h: "0 \<le> d" "handles sa (nat d) = Some (fn, x)" using assms(2) by (auto simp: open_at_def)
  obtain p where "nat d < length (sessions sa)" "allocated (sessions sa ! nat d)" "s_data (sessions sa ! nat d) = Some p"
    "heap sa p = Some x"
    using lxi_inv_entry [OF assms(1) h(2)] by metis
  then show thesis using that h(1) assms(1) by (auto simp: lxi_inv_def)
qed

lemma open_distinct:
  assumes "lxi_inv sa" and "open_at sa d" and "open_at sa d'" and "d \<noteq> d'" and "s_data (sessions sa ! nat d) = Some p"
  shows "s_data (sessions sa ! nat d') \<noteq> Some p"
proof
  assume "s_data (sessions sa ! nat d') = Some p"
  moreover have "nat d \<noteq> nat d'" using assms(2-4) by (auto simp: open_at_def)
  ultimately show False
    using open_data [OF assms(1,2)] open_data [OF assms(1,3)] assms(1,5) unfolding lxi_inv_def by metis
qed

definition matched :: "world set \<Rightarrow> (api_call \<times> mpc) list \<Rightarrow> lxi_state \<Rightarrow> mconfig \<Rightarrow> bool" where
  "matched W ts sa c \<longleftrightarrow>
     (\<exists>ts' m' st' sa'. c = Locking ts' m' st' \<and> simulates W ts' m' st' sa' \<and>
        (race_view ts' = race_view ts \<and> sa' = sa \<or>
         race_step W (Running (race_view ts) sa) (Running (race_view ts') sa')))"

lemma matched_same:
  assumes "k < length ts" and "ts ! k = (call, pc)" and "pc_of pc' = pc_of pc"
    and "simulates W (ts[k := (call, pc')]) m' st' sa"
  shows "matched W ts sa (Locking (ts[k := (call, pc')]) m' st')"
  using race_view_same [OF assms(1-3)] assms(4) unfolding matched_def by blast

lemma matched_step:
  assumes "simulates W (ts[k := (call, pc')]) m' st' sa'"
    and "race_step W (Running (race_view ts) sa) (Running ((race_view ts)[k := (call, pc_of pc')]) sa')"
  shows "matched W ts sa (Locking (ts[k := (call, pc')]) m' st')"
  using assms unfolding matched_def by (metis race_view_simps(3))

lemma race_work:
  assumes "k < length ts" and "ts ! k = (call, pc)" and "pc_of pc = At_work" and "works_locked call" and "w \<in> W"
    and "api_work w call sa = ret (r, sa')"
  shows "race_step W (Running (race_view ts) sa) (Running ((race_view ts)[k := (call, Done r)]) sa')"
proof -
  have "\<not> fetches call" using assms(4) by (cases call) simp_all
  then show ?thesis using race_step.work [of k "race_view ts" call w W sa r sa'] assms by simp
qed

text \<open>Setting up a free entry, and connecting it, are invisible to threads with open handles.\<close>

lemma setup_others:
  assumes "lxi_inv sa" and "find_free (sessions sa) = Some i" and "setup_protocol w i pr sa = Some st" and "open_at sa d"
  shows "agrees sa st d"
proof -
  obtain p where "allocated (sessions sa ! nat d)" "s_data (sessions sa ! nat d) = Some p" "p < next_ptr sa"
    using open_data [OF assms(1,4)] by metis
  then show ?thesis
    using setup_touches [OF assms(3)] find_free_Some [OF assms(2)] by (intro touches_agrees) auto
qed

lemma called_others:
  assumes "lxi_inv sa" and "find_free (sessions sa) = Some i" and "setup_protocol w i pr sa = Some st"
    and "w_malloc w (next_ptr sa)" and "call_connect w i address port name timeout st = ret (r, st')"
    and "connect_finish i r st' = ret (res, sa')" and "open_at sa d"
  shows "agrees st' sa' d"
proof -
  obtain p where p: "allocated (sessions sa ! nat d)" "s_data (sessions sa ! nat d) = Some p" "p < next_ptr sa"
    using open_data [OF assms(1,7)] by metis
  have i: "nat d \<noteq> i" "i < length (sessions sa)" using find_free_Some [OF assms(2)] p(1) by auto
  have "sessions st' = sessions st" using call_connect_touches [OF assms(5)] by simp
  moreover have "s_data (sessions st ! i) = Some (next_ptr sa)" "sessions st ! nat d = sessions sa ! nat d"
    using setup_touches [OF assms(3)] assms(4) i by (simp_all add: touches_def)
  ultimately show ?thesis
    using connect_finish_touches [OF assms(6)] p i(1) by (intro touches_agrees) auto
qed

lemma connect_matched:
  assumes sim: "simulates W ts m st sa" and ok: "atomic_ok W ts sa" and k: "k < length ts" "ts ! k = (call, pc)"
    and call: "call = Connect address port name timeout pr" and w: "w \<in> W" and step: "locked_step w call pc st = ret (pc', st')"
  shows "matched W ts sa (Locking (ts[k := (call, pc')]) m st')"
proof -
  have hold: "m = Some k" "behind W (call, pc) st sa"
    using simulates_holder [OF sim k] locked_step_holds [OF step] by simp_all
  have holds: "holds pc \<or> m = None" "holds pc'" using locked_step_holds [OF step] by simp_all
  have inv: "lxi_inv sa" using atomic_thread [OF ok k] by simp
  note on = simulates_hold [OF sim k holds, folded hold(1)]
  have run: "api_work w call sa = lxi_connect w address port name timeout pr sa" for w by (simp add: call)
  note agree = simulatesD(5) [OF sim]
  from step show ?thesis
  proof (cases rule: locked_step_cases)
    case (found _ _ _ _ _ i)
    then have "simulates W (ts[k := (call, pc')]) m st' sa"
      using hold(2) simulatesD(4) [OF sim] agree call by (intro on) auto
    then show ?thesis using found by (intro matched_same [OF k]) simp_all
  next
    case full
    then have "simulates W (ts[k := (call, pc')]) m st' sa"
      using hold(2) simulatesD(4) [OF sim] agree call by (intro on) auto
    moreover have "api_work w call sa = ret (LXI_ERROR, sa)"
      using full hold(2) by (simp add: run lxi_connect_split)
    ultimately show ?thesis using race_work [OF k _ _ w] full call by (intro matched_step) auto
  next
    case (unsupported _ _ _ _ pr' i)
    then have "simulates W (ts[k := (call, pc')]) m st' sa"
      using hold(2) simulatesD(4) [OF sim] agree call by (intro on) auto
    moreover have "api_work w call sa = ret (LXI_ERROR, sa)"
      using unsupported hold(2) call by (simp add: run lxi_connect_split)
    ultimately show ?thesis using race_work [OF k _ _ w] unsupported call by (intro matched_step) auto
  next
    case (finished _ _ _ _ _ i r r')
    then have "st' = sa" "r' = (if r = 0 then int i else LXI_ERROR)" using hold(2) call by simp_all
    moreover from this have "simulates W (ts[k := (call, pc')]) m st' sa" using finished by (intro on) simp_all
    ultimately show ?thesis using finished by (intro matched_same [OF k]) simp_all
  next
    case (set _ _ _ _ pr' i)
    then have at: "st = sa" "find_free (sessions sa) = Some i" "setup_protocol w i pr sa = Some st'"
      using hold(2) call by simp_all
    have "agrees st' sa d" if "l < length ts" "l \<noteq> k" "uses_entry (ts ! l) d" for l d
      using setup_others [OF inv at(2,3) uses_open [OF ok that(1,3)]] by (simp add: agrees_sym)
    then have "simulates W (ts[k := (call, pc')]) m st' sa"
      using at setup_touches [OF at(3)] set call w by (intro on) simp_all
    then show ?thesis using set by (intro matched_same [OF k]) simp_all
  next
    case (called _ _ _ _ _ i w' r)
    then have at: "w' \<in> W" "find_free (sessions sa) = Some i" "setup_protocol w' i pr sa = Some st"
      and cc: "call_connect w' i address port name timeout st = ret (r, st')"
      using hold(2) call by simp_all
    have "pc_of pc = At_work" using called by simp
    then obtain res sa' where conn: "api_work w' call sa = ret (res, sa')" using atomic_work [OF ok k _ at(1)] by blast
    then have fin: "connect_finish i r st' = ret (res, sa')"
      using at cc by (simp add: run lxi_connect_split)
    have mem: "w_malloc w' (next_ptr sa)" using ok at(1) lxi_world.memory by (auto simp: atomic_ok_def)
    have "agrees st' sa' d" if "l < length ts" "l \<noteq> k" "uses_entry (ts ! l) d" for l d
      using called_others [OF inv at(2,3) mem cc fin uses_open [OF ok that(1,3)]] .
    then have "simulates W (ts[k := (call, pc')]) m st' sa'"
      using fin connect_finish_touches [OF fin] called call by (intro on) simp_all
    moreover have "pc_of pc' = Done res" using connect_finish_touches [OF fin] called by simp
    ultimately show ?thesis using race_work [OF k _ _ at(1) conn] called call by (intro matched_step) simp_all
  qed (use call in simp_all)
qed

lemma disconnected_others:
  assumes "lxi_inv sa" and "open_at sa d" and "open_at sa d'" and "d \<noteq> d'" and "disconnect_call w d' sa = ret st'"
    and "disconnect_free d' st' = ret st2"
  shows "agrees st' (disconnect_clear d' st2) d"
proof (rule touches_agrees)
  show "touches (nat d') {p. s_data (sessions st' ! nat d') = Some p} st' (disconnect_clear d' st2)"
    using disconnect_end_touches [OF assms(6)] by simp
  show "nat d \<noteq> nat d'" using assms(2-4) by (auto simp: open_at_def)
  show "p \<notin> {p. s_data (sessions st' ! nat d') = Some p}" if "s_data (sessions st' ! nat d) = Some p" for p
    using open_distinct [OF assms(1-4)] disconnect_call_touches [OF assms(5)] that by simp
qed

lemma disconnect_matched:
  assumes sim: "simulates W ts m st sa" and ok: "atomic_ok W ts sa" and k: "k < length ts" "ts ! k = (call, pc)"
    and call: "call = Disconnect d" and w: "w \<in> W" and step: "locked_step w call pc st = ret (pc', st')"
  shows "matched W ts sa (Locking (ts[k := (call, pc')]) m st')"
proof -
  have hold: "m = Some k" "behind W (call, pc) st sa"
    using simulates_holder [OF sim k] locked_step_holds [OF step] by simp_all
  have holds: "holds pc \<or> m = None" "holds pc'" using locked_step_holds [OF step] by simp_all
  note th = atomic_thread [OF ok k]
  note on = simulates_hold [OF sim k holds, folded hold(1)]
  have other: "d' \<noteq> d" if "l < length ts" "l \<noteq> k" "uses_entry (ts ! l) d'" for l d'
    using uses_other [OF ok that(1,3) k(1) that(2)] k(2) call by blast
  from step show ?thesis
  proof (cases rule: locked_step_cases)
    case (disconnected d0)
    then have at: "st = sa" "disconnect_call w d sa = ret st'" using hold(2) call by simp_all
    have "pc_of pc = At_work" using disconnected by simp
    then obtain res sa' where work: "api_work w call sa = ret (res, sa')" using atomic_work [OF ok k _ w] by blast
    then obtain st2 where fin: "disconnect_free d st' = ret st2" "sa' = disconnect_clear d st2" "res = LXI_OK"
      using at(2) call by (auto simp: disconnect_locked_split cbind_ret_iff)
    have "open_at sa d" using th(4) disconnected call by simp
    then have "agrees st' sa' d'" if "l < length ts" "l \<noteq> k" "uses_entry (ts ! l) d'" for l d'
      using disconnected_others [OF th(1) uses_open [OF ok that(1,3)] _ other [OF that] at(2) fin(1)] fin(2) by simp
    then have "simulates W (ts[k := (call, pc')]) m st' sa'"
      using fin disconnect_end_touches [OF fin(1)] disconnected call by (intro on) simp_all
    then show ?thesis using race_work [OF k _ _ w work] fin(3) disconnected call by (intro matched_step) simp_all
  next
    case (freed d0)
    then have free: "disconnect_free d st = ret st'" "sa = disconnect_clear d st'" using hold(2) call by auto
    have "agrees st' sa d'" if "l < length ts" "l \<noteq> k" "uses_entry (ts ! l) d'" for l d'
    proof -
      have "0 \<le> d'" using uses_open [OF ok that(1,3)] by (simp add: open_at_def)
      then have "nat d' \<noteq> nat d" using other [OF that] disconnect_free_touches [OF free(1)] by auto
      then show ?thesis using disconnect_clear_touches [of d "{}" st'] free(2) by (intro touches_agrees [where P = "{}"]) simp_all
    qed
    then have "simulates W (ts[k := (call, pc')]) m st' sa"
      using free disconnect_clear_touches [of d "{}" st'] freed call by (intro on) simp_all
    then show ?thesis using freed by (intro matched_same [OF k]) simp_all
  next
    case (cleared d0)
    then have "st' = sa" using hold(2) call by simp
    then have "simulates W (ts[k := (call, pc')]) m st' sa" using cleared by (intro on) simp_all
    then show ?thesis using cleared by (intro matched_same [OF k]) simp_all
  qed (use call in simp_all)
qed

text \<open>The work of a locked call does not fault, and it goes on.\<close>

lemma locked_step_returns:
  assumes "atomic_ok W ts sa" and "k < length ts" and "ts ! k = (call, pc)" and "behind W (call, pc) st sa"
    and "\<nexists>r. pc = M_worked r" and "pc \<noteq> M_check" and "\<nexists>ok. pc = M_checked ok" and "w \<in> W"
  shows "\<exists>pc' st'. locked_step w call pc st = ret (pc', st')"
proof -
  have work: "\<exists>r sa'. api_work w call sa = ret (r, sa')" if "pc_of pc = At_work" "w \<in> W" for w
    using atomic_work [OF assms(1-3) that] by blast
  show ?thesis
  proof (cases "(W, (call, pc), st, sa)" rule: behind.cases)
    case (3 _ call' _ _)
    then have "st = sa" "works_locked call" using assms(4) by simp_all
    moreover have "\<exists>z. disconnect_call w d sa = ret z" if "call = Disconnect d" for d
    proof -
      obtain r sa' where "api_work w call sa = ret (r, sa')" using work [OF _ assms(8)] 3 by auto
      then show ?thesis using that by (auto simp: disconnect_locked_split cbind_ret_iff)
    qed
    ultimately show ?thesis using 3 by (cases call) auto
  next
    case (4 _ address port name timeout pr i)
    then show ?thesis by (cases "setup_protocol w i pr st") simp_all
  next
    case (5 _ address port name timeout pr i w')
    then have "w' \<in> W" "find_free (sessions sa) = Some i" "setup_protocol w' i pr sa = Some st" using assms(4) by simp_all
    moreover from this obtain r sa' where "lxi_connect w' address port name timeout pr sa = ret (r, sa')"
      using work [of w'] 5 by auto
    ultimately show ?thesis using 5 by (auto simp: lxi_connect_split cbind_ret_iff)
  next
    case (6 _ address port name timeout pr i r)
    then show ?thesis using assms(4) by simp
  next
    case (7 _ d)
    then show ?thesis using assms(4) by auto
  next
    case (8 _ d)
    then show ?thesis by simp
  qed (use assms in auto)
qed

lemma api_check_range:
  assumes "device_of call = Some d"
  shows "api_check call st = (if in_range d then cbind (session_at d st) (\<lambda>s. ret (allocated s)) else ret False)"
  using assms by (auto simp: in_range_def is_valid_session_def)

lemma check_reads:
  assumes "atomic_ok W ts sa" and "k < length ts" and "ts ! k = (call, pc)" and "device_of call = Some d" and "in_range d"
  shows "\<exists>s. session_at d sa = ret s"
proof -
  note th = atomic_thread [OF assms(1-3)]
  have "d \<noteq> int SESSIONS_MAX" using th(2) assms(4) by (cases call) auto
  then show ?thesis using assms(5) th(1) by (auto simp: session_at_def in_range_def lxi_inv_def)
qed

text \<open>The calls that read an entry without the mutex find what the atomic machine finds.\<close>

lemma fetch_matched:
  assumes sim: "simulates W ts m st sa" and ok: "atomic_ok W ts sa" and k: "k < length ts" "ts ! k = (call, M_valid)"
    and call: "fetches call" "device_of call = Some d"
  shows "session_at d st = ret (sessions sa ! nat d) \<and>
    matched W ts sa (Locking (ts[k := (call, M_fetched (sessions sa ! nat d))]) m st)"
proof -
  let ?s = "sessions sa ! nat d"
  have use: "uses_entry (ts ! k) d" using k call by simp
  have sa: "session_at d sa = ret ?s"
    using session_at_open [OF atomic_thread(1) [OF ok k]] uses_open [OF ok k(1) use] by simp
  have "agrees st sa d" using simulatesD(5) [OF sim k(1) use] .
  then have "session_at d st = ret ?s" using sa by (simp add: agrees_def)
  moreover have "simulates W (ts[k := (call, M_fetched ?s)]) m st sa"
    using call by (intro simulates_move [OF sim k]) simp_all
  moreover have "race_step W (Running (race_view ts) sa) (Running ((race_view ts)[k := (call, At_call ?s)]) sa)"
    using race_step.fetch [of k "race_view ts" call d sa ?s W] k call sa by simp
  ultimately show ?thesis by (simp add: matched_step)
qed

lemma entry_matched:
  assumes sim: "simulates W ts m st sa" and ok: "atomic_ok W ts sa" and k: "k < length ts" "ts ! k = (call, M_fetched s)"
    and w: "w \<in> W"
  shows "\<exists>r st'. entry_work w call s st = ret (r, st') \<and> matched W ts sa (Locking (ts[k := (call, M_returned r)]) m st')"
proof -
  note th = atomic_thread [OF ok k]
  obtain d where d: "fetches call" "device_of call = Some d" "open_at sa d" "s = sessions sa ! nat d" using th(4) by auto
  have "agrees st sa d" using simulatesD(5) [OF sim k(1), of d] k(2) d(2) by simp
  then have load: "load_block (s_data s) st = load_block (s_data s) sa"
    using session_at_open [OF th(1) d(3)] d(4) by (simp add: agrees_def)
  have "lxi_world w" using ok w by (simp add: atomic_ok_def)
  then obtain r sa' where sa': "entry_work w call s sa = ret (r, sa')"
    using entry_work_ok [OF _ th(1-3), of w s] th(4) by auto
  then obtain h where st': "entry_work w call s st = ret (r, st\<lparr>events := h\<rparr>)" "sa' = sa\<lparr>events := h\<rparr>"
    using entry_work_agrees [OF d(1) load simulatesD(4) [OF sim], of w] by auto
  have "simulates W ts m (st\<lparr>events := h\<rparr>) sa'"
    using sim st'(2) by (auto simp: simulates_def behind_events agrees_events split: option.splits)
  then have "simulates W (ts[k := (call, M_returned r)]) m (st\<lparr>events := h\<rparr>) sa'" using k by (rule simulates_move) simp_all
  moreover have "race_step W (Running (race_view ts) sa) (Running ((race_view ts)[k := (call, Done r)]) sa')"
    using race_step.through [of k "race_view ts" call s w W sa r sa'] k w sa' by simp
  ultimately show ?thesis using st'(1) by (simp add: matched_step)
qed

lemma work_matched:
  assumes "simulates W ts m st sa" and "atomic_ok W ts sa" and "k < length ts" and "ts ! k = (call, pc)" and "w \<in> W"
    and "locked_step w call pc st = ret (pc', st')"
  shows "matched W ts sa (Locking (ts[k := (call, pc')]) m st')"
  using assms(6)
  by (cases rule: locked_step_cases) (use connect_matched [OF assms(1-4) _ assms(5,6)] disconnect_matched [OF assms(1-4) _ assms(5,6)] in blast)+

lemma work_no_fault:
  assumes "simulates W ts m st sa" and "atomic_ok W ts sa" and "k < length ts" and "ts ! k = (call, pc)" and "w \<in> W"
  shows "locked_step w call pc st \<noteq> fail e"
proof (cases "holds pc \<and> (\<nexists>r. pc = M_worked r) \<and> pc \<noteq> M_check \<and> (\<nexists>ok. pc = M_checked ok)")
  case True
  then show ?thesis
    using locked_step_returns [OF assms(2-4) simulates_holder(2) [OF assms(1,3,4)]] assms(5) by fastforce
next
  case False
  then show ?thesis by (cases "(w, call, pc, st)" rule: locked_step.cases) auto
qed

lemma step_matched:
  assumes "mutex_step W (Locking ts m st) c" and "simulates W ts m st sa" and "atomic_ok W ts sa"
  shows "matched W ts sa c"
  using assms(1)
proof cases
  case (enter k call)
  then show ?thesis
    using race_step.check [of k "race_view ts" call sa True W]
    by (auto intro!: matched_step simulates_move [OF assms(2)])
next
  case (out_of_range k call d)
  then have "api_check call sa = ret False" using api_check_range by simp
  then show ?thesis
    using race_step.check [of k "race_view ts" call sa False W] out_of_range
    by (auto intro!: matched_step simulates_move [OF assms(2)])
next
  case (lock_check k call d)
  have "simulates W (ts[k := (call, M_check)]) (Some k) st sa"
    using lock_check simulatesD [OF assms(2)] by (intro simulates_hold [OF assms(2) lock_check(3,4)]) auto
  then show ?thesis using lock_check matched_same by auto
next
  case (read_entry k call d s)
  note hold = simulates_holder [OF assms(2) read_entry(2,3)]
  have "st = sa" "in_range d" using hold read_entry(4) by auto
  then have "api_check call sa = ret (allocated s)" using read_entry api_check_range by simp
  moreover have "simulates W (ts[k := (call, M_checked (allocated s))]) m st sa"
    using hold \<open>st = sa\<close> simulatesD [OF assms(2)] simulates_hold [OF assms(2) read_entry(2,3), of "M_checked (allocated s)"] by simp
  ultimately show ?thesis
    using race_step.check [of k "race_view ts" call sa "allocated s" W] read_entry by (auto intro!: matched_step)
next
  case (read_fault k call d e)
  have "st = sa" "in_range d" using simulates_holder [OF assms(2) read_fault(2,3)] read_fault(4) by auto
  then show ?thesis using check_reads [OF assms(3) read_fault(2,3,4)] read_fault(5) by auto
next
  case (unlock_check k call ok)
  have "st = sa" using simulates_holder(2) [OF assms(2) unlock_check(2,3)] by simp
  then have "simulates W (ts[k := (call, if ok then M_valid else M_returned LXI_ERROR)]) None st sa"
    using simulates_release [OF assms(2) unlock_check(2,3)] by simp
  then show ?thesis using unlock_check matched_same [OF unlock_check(2,3)] by (cases ok) simp_all
next
  case (lock_work k call)
  have "simulates W (ts[k := (call, M_locked)]) (Some k) st sa"
    using lock_work simulatesD [OF assms(2)] by (intro simulates_hold [OF assms(2) lock_work(3,4)]) auto
  then show ?thesis using lock_work matched_same by auto
next
  case (work_locked k call pc w pc' st')
  then show ?thesis using work_matched [OF assms(2,3)] by blast
next
  case (work_fault k call pc w e)
  then show ?thesis using work_no_fault [OF assms(2,3)] by blast
next
  case (init_unlocked k r st')
  then show ?thesis using atomic_thread(3) [OF assms(3)] by blast
next
  case (fetch_entry k call d s)
  then show ?thesis using fetch_matched [OF assms(2,3) fetch_entry(2-5)] by auto
next
  case (fetch_fault k call d e)
  then show ?thesis using fetch_matched [OF assms(2,3) fetch_fault(2-5)] by auto
next
  case (call_entry k call s w r st')
  then show ?thesis using entry_matched [OF assms(2,3) call_entry(2-4)] by auto
next
  case (call_fault k call s w e)
  then show ?thesis using entry_matched [OF assms(2,3) call_fault(2-4)] by auto
next
  case (unlock_work k call r)
  have "st = sa" using simulates_holder(2) [OF assms(2) unlock_work(2,3)] by simp
  then have "simulates W (ts[k := (call, M_returned r)]) None st sa"
    using simulates_release [OF assms(2) unlock_work(2,3)] by simp
  then show ?thesis using unlock_work matched_same [OF unlock_work(2,3)] by simp
qed

lemma mutex_run_matched:
  assumes W: "\<forall>w \<in> W. lxi_world w" and inv: "lxi_inv st" and disc: "disciplined calls"
    and run: "mutex_run W n (mutex_start calls st) c"
  shows "\<exists>ts m st' sa. c = Locking ts m st' \<and> simulates W ts m st' sa \<and> atomic_ok W ts sa \<and> map fst ts = calls \<and>
    race_reach W (Running (map (\<lambda>call. (call, At_check)) calls) st) (Running (race_view ts) sa)"
  using run
proof (induction n "mutex_start calls st" c rule: mutex_run.induct)
  case refl
  let ?ts = "map (\<lambda>call. (call, M_start)) calls"
  have view: "race_view ?ts = map (\<lambda>call. (call, At_check)) calls" by (simp add: race_view_def)
  have "simulates W ?ts None st st" by (simp add: simulates_def owned_def)
  moreover have "atomic_ok W ?ts st" using W inv disc view by (simp add: atomic_ok_def race_inv_def comp_def)
  ultimately show ?case using view race_reach.refl by (force simp: mutex_start_def comp_def)
next
  case (step n c' c'')
  then obtain ts m st' sa where c': "c' = Locking ts m st'" "simulates W ts m st' sa" "atomic_ok W ts sa" "map fst ts = calls"
    and reach: "race_reach W (Running (map (\<lambda>call. (call, At_check)) calls) st) (Running (race_view ts) sa)"
    by blast
  obtain ts' m' st'' sa' where c'': "c'' = Locking ts' m' st''" "simulates W ts' m' st'' sa'"
    and move: "race_view ts' = race_view ts \<and> sa' = sa \<or> race_step W (Running (race_view ts) sa) (Running (race_view ts') sa')"
    using step_matched step.hyps(3) c' unfolding matched_def by blast
  have "race_reach W (Running (map (\<lambda>call. (call, At_check)) calls) st) (Running (race_view ts') sa')"
    using move reach by (auto intro: race_reach.step)
  moreover have "race_inv (race_view ts') sa' \<and> map fst (race_view ts') = map fst (race_view ts)"
    using move race_step_inv [OF W] c'(3) by (fastforce simp: atomic_ok_def)
  then have "atomic_ok W ts' sa'" "map fst ts' = calls" using c'(3,4) W disc by (simp_all add: atomic_ok_def)
  ultimately show ?case using c'' by blast
qed

text \<open>
  C8. What the mutex guarantees, for any number of threads with one call each, none of which is \<^verbatim>\<open>lxi_init\<close>, uses
  handle 1024, a length outside its buffer or a negative timeout, or closes a handle another thread uses, whatever worlds
  that keep their contracts (memory is available, sockets behave as documented, instruments return no more than asked,
  the timed join is decided and not deadlocked) answer them. In every reachable state of the machine in which the work of a
  locked call is many steps and unlocked calls run in between, nothing has faulted, a thread holds the mutex exactly between
  its lock and its unlock, and there is an interleaving of atomic checks and atomic work with the same results and the
  same history of outside events, and the same session table and memory whenever the mutex is free.
\<close>

theorem mutex_refines_race:
  assumes "\<forall>w \<in> W. lxi_world w" and "lxi_inv st" and "disciplined calls" and "mutex_run W n (mutex_start calls st) c"
  shows "\<exists>ts m st' sa. c = Locking ts m st' \<and> (\<forall>k < length ts. holds (snd (ts ! k)) \<longleftrightarrow> m = Some k) \<and>
    race_reach W (Running (map (\<lambda>call. (call, At_check)) calls) st) (Running (race_view ts) sa) \<and>
    events sa = events st' \<and> (m = None \<longrightarrow> sa = st')"
proof -
  obtain ts m st' sa where c: "c = Locking ts m st'" "simulates W ts m st' sa"
    and reach: "race_reach W (Running (map (\<lambda>call. (call, At_check)) calls) st) (Running (race_view ts) sa)"
    using mutex_run_matched [OF assms] by blast
  have "\<forall>k < length ts. holds (snd (ts ! k)) \<longleftrightarrow> m = Some k" using simulatesD(1) [OF c(2)] by (simp add: owned_def)
  then show ?thesis using c(1) reach simulatesD(2,4) [OF c(2)] by (metis (no_types))
qed

section \<open>Every call returns\<close>

text \<open>How many steps a thread has before it, at most.\<close>

fun steps_left :: "mpc \<Rightarrow> nat" where
  "steps_left M_start = 9"
| "steps_left M_check = 8"
| "steps_left (M_checked ok) = 7"
| "steps_left M_valid = 6"
| "steps_left M_locked = 5"
| "steps_left (M_found i) = 4"
| "steps_left (M_set i w) = 3"
| "steps_left (M_called i r) = 2"
| "steps_left M_disconnected = 3"
| "steps_left M_freed = 2"
| "steps_left (M_worked r) = 1"
| "steps_left (M_fetched s) = 1"
| "steps_left (M_returned r) = 0"

fun remaining :: "mconfig \<Rightarrow> nat" where
  "remaining (Locking ts m st) = (\<Sum>t\<leftarrow>ts. steps_left (snd t))"
| "remaining (Faulted e) = 0"

lemma sum_list_update_less:
  "k < length ts \<Longrightarrow> f (x :: 'a) < f (ts ! k) \<Longrightarrow> (\<Sum>t\<leftarrow>ts[k := x]. f t) < (\<Sum>t\<leftarrow>ts. f t :: nat)"
proof (induction ts arbitrary: k)
  case (Cons t ts)
  then show ?case by (cases k) auto
qed simp

lemma locked_step_less: "locked_step w call pc st = ret (pc', st') \<Longrightarrow> steps_left pc' < steps_left pc"
  by (erule locked_step_cases) simp_all

lemma remaining_step: "mutex_step W c c' \<Longrightarrow> (\<forall>e. c' \<noteq> Faulted e) \<Longrightarrow> remaining c' < remaining c"
proof (induction rule: mutex_step.induct)
  case (work_locked k ts call pc w st pc' st' m)
  then show ?case using locked_step_less [OF work_locked.hyps(4)] by (auto intro!: sum_list_update_less)
qed (auto intro!: sum_list_update_less)

lemma mutex_run_bound:
  assumes "mutex_run W n c0 c" and "\<forall>e. c \<noteq> Faulted e"
  shows "n + remaining c \<le> remaining c0"
  using assms
proof (induction rule: mutex_run.induct)
  case (step n c c' c'')
  have "\<forall>e. c' \<noteq> Faulted e" using step.hyps(2) by auto
  then show ?case using step.IH remaining_step [OF step.hyps(2) step.prems] by simp
qed simp

lemma remaining_start: "remaining (mutex_start calls st) = 9 * length calls"
  by (induction calls) (simp_all add: mutex_start_def)

text \<open>A thread that holds the mutex, or any thread while it is free, can go on.\<close>

lemma holder_progress:
  assumes sim: "simulates W ts m st sa" and ok: "atomic_ok W ts sa" and w: "w \<in> W"
    and k: "k < length ts" "ts ! k = (call, pc)" and "holds pc"
  shows "\<exists>c. mutex_step W (Locking ts m st) c"
proof -
  note hold = simulates_holder [OF sim k assms(6)]
  show ?thesis
  proof (cases "(\<exists>r. pc = M_worked r) \<or> pc = M_check \<or> (\<exists>ok. pc = M_checked ok)")
    case False
    then obtain pc' st' where "locked_step w call pc st = ret (pc', st')"
      using locked_step_returns [OF ok k hold(2)] w by blast
    then show ?thesis using mutex_step.work_locked k w by metis
  next
    case True
    then consider r where "pc = M_worked r" | "pc = M_check" | b where "pc = M_checked b" by blast
    then show ?thesis
    proof cases
      case 2
      then obtain d where "st = sa" "device_of call = Some d" "in_range d" using hold(2) by auto
      then show ?thesis using 2 k check_reads [OF ok k] mutex_step.read_entry by metis
    qed (use k mutex_step.unlock_work mutex_step.unlock_check in metis)+
  qed
qed

lemma free_progress:
  assumes sim: "simulates W ts None st sa" and ok: "atomic_ok W ts sa" and w: "w \<in> W"
    and k: "k < length ts" "ts ! k = (call, pc)" and "\<not> holds pc" and "\<forall>r. pc \<noteq> M_returned r"
  shows "\<exists>c. mutex_step W (Locking ts None st) c"
proof (cases pc)
  case M_start
  then show ?thesis
    using k mutex_step.enter mutex_step.out_of_range mutex_step.lock_check by (metis not_None_eq)
next
  case M_valid
  show ?thesis
  proof (cases "fetches call")
    case True
    then obtain d where d: "device_of call = Some d" by (cases call) simp_all
    then show ?thesis using fetch_matched [OF sim ok k(1)] k M_valid True mutex_step.fetch_entry by metis
  next
    case False
    then have "works_locked call" using atomic_thread(3) [OF ok k] by (cases call) simp_all
    then show ?thesis using k M_valid mutex_step.lock_work by metis
  qed
next
  case (M_fetched s)
  then show ?thesis using entry_matched [OF sim ok k(1) _ w] k w mutex_step.call_entry by metis
qed (use assms(6,7) in simp_all)

lemma mutex_progress:
  assumes sim: "simulates W ts m st sa" and ok: "atomic_ok W ts sa" and w: "w \<in> W"
    and busy: "t \<in> set ts" "\<forall>r. snd t \<noteq> M_returned r"
  shows "\<exists>c. mutex_step W (Locking ts m st) c"
proof (cases m)
  case None
  obtain k call pc where k: "k < length ts" "ts ! k = (call, pc)" "t = (call, pc)"
    using busy(1) by (metis in_set_conv_nth surj_pair)
  have "\<not> holds pc" using simulatesD(1) [OF sim] k None by (force simp: owned_def)
  then show ?thesis using free_progress [of W ts st sa w k call pc] sim ok w k busy(2) None by simp
next
  case (Some k)
  then have "k < length ts" "holds (snd (ts ! k))" using simulatesD(1) [OF sim] by (auto simp: owned_def)
  then show ?thesis using holder_progress [OF sim ok w, of k] by (metis surjective_pairing)
qed

text \<open>
  C7. Every call returns, under the same conditions: any number of threads with one call each, none of which is
  \<^verbatim>\<open>lxi_init\<close>, uses handle 1024, a length outside its buffer or a negative timeout, or closes a handle another thread uses;
  and worlds that keep their contracts, in particular a timed join that is decided and not deadlocked, so that no
  connection blocks for ever with the mutex held. However locks, checks and the steps of the work interleave, the run
  has at most nine steps for each thread and never faults; the table's invariant holds whenever the mutex is free;
  and as long as a thread has not returned, some thread can take a step. So no schedule blocks for ever on the mutex,
  and when no step is left every thread has returned and the mutex is free.
\<close>

theorem owners_all_return:
  assumes "\<forall>w \<in> W. lxi_world w" and "W \<noteq> {}" and "lxi_inv st" and "disciplined calls"
    and "mutex_run W n (mutex_start calls st) c"
  shows "n \<le> 9 * length calls \<and>
    (\<exists>ts m st'. c = Locking ts m st' \<and> map fst ts = calls \<and> (m = None \<longrightarrow> lxi_inv st') \<and>
       ((\<exists>c'. mutex_step W c c') \<or> m = None \<and> (\<forall>t \<in> set ts. \<exists>r. snd t = M_returned r)))"
proof -
  obtain ts m st' sa where c: "c = Locking ts m st'" "simulates W ts m st' sa" "atomic_ok W ts sa" "map fst ts = calls"
    using mutex_run_matched [OF assms(1,3-5)] by blast
  obtain w where w: "w \<in> W" using assms(2) by blast
  have "n \<le> 9 * length calls" using mutex_run_bound [OF assms(5)] c(1) remaining_start [of calls st] by simp
  moreover have "lxi_inv st'" if "m = None"
    using simulatesD(2) [OF c(2) that] c(3) by (simp add: atomic_ok_def race_inv_def)
  moreover have "(\<exists>c'. mutex_step W c c') \<or> m = None \<and> (\<forall>t \<in> set ts. \<exists>r. snd t = M_returned r)"
  proof (cases "\<forall>t \<in> set ts. \<exists>r. snd t = M_returned r")
    case True
    then have "\<not> holds (snd (ts ! k))" if "k < length ts" for k using that nth_mem by fastforce
    then have "m = None" using simulatesD(1) [OF c(2)] by (cases m) (auto simp: owned_def)
    then show ?thesis using True by blast
  next
    case False
    then show ?thesis using mutex_progress [OF c(2,3) w] c(1) by blast
  qed
  ultimately show ?thesis using c(1,4) by blast
qed

text \<open>Two threads on a table with one open session: one closes it, one uses a number that is not open.\<close>

lemma locked_run: "mutex_run {demo_world} 1 (mutex_start [Disconnect 0, Send 1 [65] 1 1000] one_session)
    (Locking [(Disconnect 0, M_check), (Send 1 [65] 1 1000, M_start)] (Some 0) one_session)"
proof -
  have "mutex_step {demo_world} (mutex_start [Disconnect 0, Send 1 [65] 1 1000] one_session)
      (Locking [(Disconnect 0, M_check), (Send 1 [65] 1 1000, M_start)] (Some 0) one_session)"
    using mutex_step.lock_check [of 0 "[(Disconnect 0, M_start), (Send 1 [65] 1 1000, M_start)]" "Disconnect 0" 0
        "{demo_world}" one_session]
    by (simp add: mutex_start_def in_range_def)
  then show ?thesis using mutex_run.step [OF mutex_run.refl] by fastforce
qed

lemma locked_run_disciplined: "disciplined [Disconnect 0, Send 1 [65] 1 1000]"
  by (simp add: disciplined_def SESSIONS_MAX_def less_Suc_eq numeral_2_eq_2)

lemma demo_worlds: "\<forall>w \<in> {demo_world}. lxi_world w"
  by (simp add: demo_lxi_world)

theorem mutex_refines_race_witness:
  "\<exists>ts m st' sa. Locking [(Disconnect 0, M_check), (Send 1 [65] 1 1000, M_start)] (Some 0) one_session = Locking ts m st' \<and>
    (\<forall>k < length ts. holds (snd (ts ! k)) \<longleftrightarrow> m = Some k) \<and>
    race_reach {demo_world} (Running (map (\<lambda>call. (call, At_check)) [Disconnect 0, Send 1 [65] 1 1000]) one_session)
      (Running (race_view ts) sa) \<and> events sa = events st' \<and> (m = None \<longrightarrow> sa = st')"
  by (rule mutex_refines_race [OF demo_worlds one_session_ok(1) locked_run_disciplined locked_run])

theorem owners_all_return_witness:
  "\<exists>ts m st'. Locking [(Disconnect 0, M_check), (Send 1 [65] 1 1000, M_start)] (Some 0) one_session = Locking ts m st' \<and>
    map fst ts = [Disconnect 0, Send 1 [65] 1 1000] \<and> (m = None \<longrightarrow> lxi_inv st') \<and>
    ((\<exists>c'. mutex_step {demo_world}
        (Locking [(Disconnect 0, M_check), (Send 1 [65] 1 1000, M_start)] (Some 0) one_session) c') \<or>
     m = None \<and> (\<forall>t \<in> set ts. \<exists>r. snd t = M_returned r))"
  using owners_all_return [OF demo_worlds _ one_session_ok(1) locked_run_disciplined locked_run] by blast

end
