(* ===== verification/Vxi11core_svc.thy ===== *)
theory Vxi11core_svc
  imports Rpc_Objects
begin

text \<open>
  The server side that \<^verbatim>\<open>rpcgen\<close> derived from the same protocol, \<^verbatim>\<open>src/src/vxi11core_svc.c\<close>: the
  dispatchers \<^verbatim>\<open>device_async_1\<close> and \<^verbatim>\<open>device_core_1\<close> and the registration in \<^verbatim>\<open>main\<close>. The
  transport (\<^verbatim>\<open>svc_getargs\<close>, \<^verbatim>\<open>svc_sendreply\<close>, ...) and the service functions \<^verbatim>\<open>..._1_svc\<close>, which
  the repository does not contain, are the parameter \<open>svc\<close>. A dispatcher extends a log of what it
  did. The theorems: a request is answered once and its decoded argument is freed once.
\<close>

datatype transport = UDP | TCP

datatype svc_event =
    Sv_reply_void
  | Sv_noproc
  | Sv_decode_error
  | Sv_call nat rpc_obj
  | Sv_reply rpc_obj
  | Sv_systemerr
  | Sv_freeargs bool
  | Sv_freeresult bool
  | Sv_unset nat nat
  | Sv_create transport
  | Sv_register nat nat transport
  | Sv_run
  | Sv_exit nat

type_synonym svc_log = "svc_event list"

record svc =
  sv_getargs :: "svc_log \<Rightarrow> rpc_obj xdrproc \<Rightarrow> rpc_obj \<Rightarrow> bool \<times> rpc_obj"
  sv_local :: "nat \<Rightarrow> svc_log \<Rightarrow> rpc_obj \<Rightarrow> bool_t \<times> rpc_obj"
  sv_sendreply :: "svc_log \<Rightarrow> rpc_obj xdrproc \<Rightarrow> rpc_obj \<Rightarrow> bool"
  sv_freeargs :: "svc_log \<Rightarrow> rpc_obj xdrproc \<Rightarrow> rpc_obj \<Rightarrow> bool"
  sv_freeresult :: "svc_log \<Rightarrow> rpc_obj xdrproc \<Rightarrow> rpc_obj \<Rightarrow> bool"

definition NULLPROC :: nat where "NULLPROC = 0"

section \<open>The dispatch tables\<close>

text \<open>
  What the \<^verbatim>\<open>switch\<close> sets up for a procedure: the two XDR routines and the zeroed argument, seen
  at the type of its member of the union.
\<close>

record svc_entry =
  se_xarg :: "rpc_obj xdrproc"
  se_zero :: rpc_obj
  se_xres :: "rpc_obj xdrproc"

definition zero_opaque :: opaque where
  "zero_opaque = \<lparr>op_len = 0, op_val = None\<rparr>"

definition zero_Create_LinkParms :: Create_LinkParms where
  "zero_Create_LinkParms =
     \<lparr>clp_clientId = 0, clp_lockDevice = 0, clp_lock_timeout = 0, clp_device = None\<rparr>"

definition zero_Device_WriteParms :: Device_WriteParms where
  "zero_Device_WriteParms =
     \<lparr>dwp_lid = 0, dwp_io_timeout = 0, dwp_lock_timeout = 0, dwp_flags = 0, dwp_data = zero_opaque\<rparr>"

definition zero_Device_ReadParms :: Device_ReadParms where
  "zero_Device_ReadParms =
     \<lparr>drp_lid = 0, drp_requestSize = 0, drp_io_timeout = 0, drp_lock_timeout = 0, drp_flags = 0,
      drp_termChar = 0\<rparr>"

definition zero_Device_GenericParms :: Device_GenericParms where
  "zero_Device_GenericParms =
     \<lparr>dgp_lid = 0, dgp_flags = 0, dgp_lock_timeout = 0, dgp_io_timeout = 0\<rparr>"

definition zero_Device_LockParms :: Device_LockParms where
  "zero_Device_LockParms =
     \<lparr>dlp_lid = 0, dlp_flags = 0, dlp_lock_timeout = 0\<rparr>"

definition zero_Device_Link :: Device_Link where
  "zero_Device_Link =
     0"

definition zero_Device_EnableSrqParms :: Device_EnableSrqParms where
  "zero_Device_EnableSrqParms =
     \<lparr>dep_lid = 0, dep_enable = 0, dep_handle = zero_opaque\<rparr>"

definition zero_Device_DocmdParms :: Device_DocmdParms where
  "zero_Device_DocmdParms =
     \<lparr>ddp_lid = 0, ddp_flags = 0, ddp_io_timeout = 0, ddp_lock_timeout = 0, ddp_cmd = 0,
      ddp_network_order = 0, ddp_datasize = 0, ddp_data_in = zero_opaque\<rparr>"

definition zero_Device_RemoteFunc :: Device_RemoteFunc where
  "zero_Device_RemoteFunc =
     \<lparr>drf_hostAddr = 0, drf_hostPort = 0, drf_progNum = 0, drf_progVers = 0, drf_progFamily = 0\<rparr>"

definition device_async_entry :: "xdr_lib \<Rightarrow> nat \<Rightarrow> svc_entry option" where
  "device_async_entry lib proc =
     (if proc = device_abort
      then Some \<lparr>se_xarg = xdrproc_Device_Link lib, se_zero = Obj_Device_Link zero_Device_Link,
                 se_xres = xdrproc_Device_Error lib\<rparr>
      else None)"

definition device_core_entry :: "xdr_lib \<Rightarrow> nat \<Rightarrow> svc_entry option" where
  "device_core_entry lib proc =
     (if proc = create_link
      then Some \<lparr>se_xarg = xdrproc_Create_LinkParms lib, se_zero = Obj_Create_LinkParms zero_Create_LinkParms,
                 se_xres = xdrproc_Create_LinkResp lib\<rparr>
      else if proc = device_write
      then Some \<lparr>se_xarg = xdrproc_Device_WriteParms lib, se_zero = Obj_Device_WriteParms zero_Device_WriteParms,
                 se_xres = xdrproc_Device_WriteResp lib\<rparr>
      else if proc = device_read
      then Some \<lparr>se_xarg = xdrproc_Device_ReadParms lib, se_zero = Obj_Device_ReadParms zero_Device_ReadParms,
                 se_xres = xdrproc_Device_ReadResp lib\<rparr>
      else if proc = device_readstb
      then Some \<lparr>se_xarg = xdrproc_Device_GenericParms lib, se_zero = Obj_Device_GenericParms zero_Device_GenericParms,
                 se_xres = xdrproc_Device_ReadStbResp lib\<rparr>
      else if proc = device_trigger
      then Some \<lparr>se_xarg = xdrproc_Device_GenericParms lib, se_zero = Obj_Device_GenericParms zero_Device_GenericParms,
                 se_xres = xdrproc_Device_Error lib\<rparr>
      else if proc = device_clear
      then Some \<lparr>se_xarg = xdrproc_Device_GenericParms lib, se_zero = Obj_Device_GenericParms zero_Device_GenericParms,
                 se_xres = xdrproc_Device_Error lib\<rparr>
      else if proc = device_remote
      then Some \<lparr>se_xarg = xdrproc_Device_GenericParms lib, se_zero = Obj_Device_GenericParms zero_Device_GenericParms,
                 se_xres = xdrproc_Device_Error lib\<rparr>
      else if proc = device_local
      then Some \<lparr>se_xarg = xdrproc_Device_GenericParms lib, se_zero = Obj_Device_GenericParms zero_Device_GenericParms,
                 se_xres = xdrproc_Device_Error lib\<rparr>
      else if proc = device_lock
      then Some \<lparr>se_xarg = xdrproc_Device_LockParms lib, se_zero = Obj_Device_LockParms zero_Device_LockParms,
                 se_xres = xdrproc_Device_Error lib\<rparr>
      else if proc = device_unlock
      then Some \<lparr>se_xarg = xdrproc_Device_Link lib, se_zero = Obj_Device_Link zero_Device_Link,
                 se_xres = xdrproc_Device_Error lib\<rparr>
      else if proc = device_enable_srq
      then Some \<lparr>se_xarg = xdrproc_Device_EnableSrqParms lib, se_zero = Obj_Device_EnableSrqParms zero_Device_EnableSrqParms,
                 se_xres = xdrproc_Device_Error lib\<rparr>
      else if proc = device_docmd
      then Some \<lparr>se_xarg = xdrproc_Device_DocmdParms lib, se_zero = Obj_Device_DocmdParms zero_Device_DocmdParms,
                 se_xres = xdrproc_Device_DocmdResp lib\<rparr>
      else if proc = destroy_link
      then Some \<lparr>se_xarg = xdrproc_Device_Link lib, se_zero = Obj_Device_Link zero_Device_Link,
                 se_xres = xdrproc_Device_Error lib\<rparr>
      else if proc = create_intr_chan
      then Some \<lparr>se_xarg = xdrproc_Device_RemoteFunc lib, se_zero = Obj_Device_RemoteFunc zero_Device_RemoteFunc,
                 se_xres = xdrproc_Device_Error lib\<rparr>
      else if proc = destroy_intr_chan
      then Some \<lparr>se_xarg = xdr_void, se_zero = Obj_void, se_xres = xdrproc_Device_Error lib\<rparr>
      else None)"

section \<open>Serving a request\<close>

text \<open>The code after the \<^verbatim>\<open>switch\<close>, the same in both dispatchers.\<close>

definition svc_serve :: "svc \<Rightarrow> svc_entry \<Rightarrow> nat \<Rightarrow> svc_log \<Rightarrow> svc_log" where
  "svc_serve sv en proc l =
     (let (ok, argument) = sv_getargs sv l (se_xarg en) (se_zero en) in
      if \<not> ok then l @ [Sv_decode_error]
      else
        let (retval, result) = sv_local sv proc l argument;
            l = l @ [Sv_call proc argument];
            l = (if 0 < sint retval
                 then if sv_sendreply sv l (se_xres en) result then l @ [Sv_reply result]
                      else l @ [Sv_systemerr]
                 else l)
        in if \<not> sv_freeargs sv l (se_xarg en) argument then l @ [Sv_freeargs False, Sv_exit 1]
           else let l = l @ [Sv_freeargs True]
                in l @ [Sv_freeresult (sv_freeresult sv l (se_xres en) result)])"

definition device_async_1 :: "svc \<Rightarrow> xdr_lib \<Rightarrow> nat \<Rightarrow> svc_log \<Rightarrow> svc_log" where
  "device_async_1 sv lib rq_proc l =
     (if rq_proc = NULLPROC then l @ [Sv_reply_void]
      else case device_async_entry lib rq_proc of
             None \<Rightarrow> l @ [Sv_noproc]
           | Some en \<Rightarrow> svc_serve sv en rq_proc l)"

definition device_core_1 :: "svc \<Rightarrow> xdr_lib \<Rightarrow> nat \<Rightarrow> svc_log \<Rightarrow> svc_log" where
  "device_core_1 sv lib rq_proc l =
     (if rq_proc = NULLPROC then l @ [Sv_reply_void]
      else case device_core_entry lib rq_proc of
             None \<Rightarrow> l @ [Sv_noproc]
           | Some en \<Rightarrow> svc_serve sv en rq_proc l)"

section \<open>Registration\<close>

text \<open>
  \<^verbatim>\<open>main\<close> stops at the first call that fails. The parameter says which creations of a transport
  and which registrations succeed; every path ends in \<^verbatim>\<open>exit (1)\<close>, the last one after
  \<^verbatim>\<open>svc_run\<close> has returned.
\<close>

record portmap =
  pm_create :: "transport \<Rightarrow> bool"
  pm_register :: "nat \<Rightarrow> nat \<Rightarrow> transport \<Rightarrow> bool"

definition svc_main :: "portmap \<Rightarrow> svc_log" where
  "svc_main pm =
     (let l = [Sv_unset DEVICE_ASYNC DEVICE_ASYNC_VERSION, Sv_unset DEVICE_CORE DEVICE_CORE_VERSION] in
      if \<not> pm_create pm UDP then l @ [Sv_exit 1]
      else let l = l @ [Sv_create UDP] in
      if \<not> pm_register pm DEVICE_ASYNC DEVICE_ASYNC_VERSION UDP then l @ [Sv_exit 1]
      else let l = l @ [Sv_register DEVICE_ASYNC DEVICE_ASYNC_VERSION UDP] in
      if \<not> pm_register pm DEVICE_CORE DEVICE_CORE_VERSION UDP then l @ [Sv_exit 1]
      else let l = l @ [Sv_register DEVICE_CORE DEVICE_CORE_VERSION UDP] in
      if \<not> pm_create pm TCP then l @ [Sv_exit 1]
      else let l = l @ [Sv_create TCP] in
      if \<not> pm_register pm DEVICE_ASYNC DEVICE_ASYNC_VERSION TCP then l @ [Sv_exit 1]
      else let l = l @ [Sv_register DEVICE_ASYNC DEVICE_ASYNC_VERSION TCP] in
      if \<not> pm_register pm DEVICE_CORE DEVICE_CORE_VERSION TCP then l @ [Sv_exit 1]
      else l @ [Sv_register DEVICE_CORE DEVICE_CORE_VERSION TCP, Sv_run, Sv_exit 1])"

section \<open>A request is answered once\<close>

definition is_answer :: "svc_event \<Rightarrow> bool" where
  "is_answer e \<longleftrightarrow> e = Sv_reply_void \<or> e = Sv_noproc \<or> e = Sv_decode_error \<or> e = Sv_systemerr \<or>
     (\<exists>r. e = Sv_reply r)"

definition is_call :: "svc_event \<Rightarrow> bool" where
  "is_call e \<longleftrightarrow> (\<exists>p a. e = Sv_call p a)"

definition is_freeargs :: "svc_event \<Rightarrow> bool" where
  "is_freeargs e \<longleftrightarrow> (\<exists>ok. e = Sv_freeargs ok)"

lemmas svc_event_defs = is_answer_def is_call_def is_freeargs_def

definition answered_once :: "svc \<Rightarrow> svc_log \<Rightarrow> svc_log \<Rightarrow> bool" where
  "answered_once sv l evs \<longleftrightarrow>
     length (filter is_answer evs) \<le> 1 \<and>
     length (filter is_freeargs evs) = length (filter is_call evs) \<and>
     length (filter is_call evs) \<le> 1 \<and>
     (filter is_answer evs = [] \<longrightarrow>
        (\<exists>p arg. Sv_call p arg \<in> set evs \<and> sint (fst (sv_local sv p l arg)) \<le> 0))"

lemma svc_serve_answers: "\<exists>evs. svc_serve sv en proc l = l @ evs \<and> answered_once sv l evs"
proof -
  obtain ok arg where 1: "sv_getargs sv l (se_xarg en) (se_zero en) = (ok, arg)" by force
  obtain rv res where 2: "sv_local sv proc l arg = (rv, res)" by force
  show ?thesis
    using 1 2 by (cases ok; cases "0 < sint rv")
      (auto simp: svc_serve_def answered_once_def svc_event_defs Let_def)
qed

text \<open>
  C26. Whatever the transport and the service functions do, a dispatcher sends at most one answer
  to a request (a reply, or an RPC error), runs at most one service function and frees the decoded
  argument as often as it runs one; it sends no answer only when the service function asked for
  none.
\<close>

theorem dispatch_answers_once:
  "(\<exists>evs. device_core_1 sv lib rq_proc l = l @ evs \<and> answered_once sv l evs) \<and>
   (\<exists>evs. device_async_1 sv lib rq_proc l = l @ evs \<and> answered_once sv l evs)"
proof -
  have one: "answered_once sv l [Sv_reply_void]" "answered_once sv l [Sv_noproc]"
    by (simp_all add: answered_once_def svc_event_defs)
  show ?thesis
    using one svc_serve_answers [of sv _ rq_proc l]
    by (auto simp: device_core_1_def device_async_1_def split: option.splits)
qed

end
