(* ===== verification/Rpc_Loopback.thy ===== *)
theory Rpc_Loopback
  imports Vxi11core_clnt Vxi11core_svc Xdr_Mem
begin

text \<open>
  The client stubs against the generated dispatchers. \<open>loop_rpc\<close> is an RPC library whose
  \<^verbatim>\<open>clnt_call\<close> encodes the argument with the routine the stub passed, hands the bytes to
  \<open>device_core_1\<close> or \<open>device_async_1\<close>, whichever the handle was created for, encodes the reply with the
  routine of the dispatcher's table and decodes it with the routine the stub passed. The theorem: a
  procedure called through its stub returns what the service function returned, so the two
  generated files agree on numbers, types and layouts.
\<close>

definition out_stream :: "nat \<Rightarrow> XDR" where
  "out_stream n = \<lparr>x_op = XDR_ENCODE, x_buf = replicate n 0, x_pos = 0\<rparr>"

definition loop_svc :: "(nat \<Rightarrow> rpc_obj \<Rightarrow> bool_t \<times> rpc_obj) \<Rightarrow> nat \<Rightarrow> XDR \<Rightarrow> svc" where
  "loop_svc handler n req =
     \<lparr>sv_getargs = (\<lambda>l xa z. case xa req z of (ok, _, a) \<Rightarrow> (ok, a)),
      sv_local = (\<lambda>p l a. handler p a),
      sv_sendreply = (\<lambda>l xr r. fst (xr (out_stream n) r)),
      sv_freeargs = (\<lambda>_ _ _. True),
      sv_freeresult = (\<lambda>_ _ _. True)\<rparr>"

definition replies :: "svc_log \<Rightarrow> rpc_obj list" where
  "replies l = concat (map (\<lambda>e. case e of Sv_reply r \<Rightarrow> [r] | _ \<Rightarrow> []) l)"

text \<open>The handle of a program says which dispatcher serves it.\<close>

definition core_client :: nat where "core_client = 1"
definition async_client :: nat where "async_client = 2"

definition loop_dispatch :: "nat \<Rightarrow> svc \<Rightarrow> xdr_lib \<Rightarrow> nat \<Rightarrow> svc_log \<Rightarrow> svc_log" where
  "loop_dispatch cl = (if cl = async_client then device_async_1 else device_core_1)"

definition loop_entry :: "nat \<Rightarrow> xdr_lib \<Rightarrow> nat \<Rightarrow> svc_entry option" where
  "loop_entry cl = (if cl = async_client then device_async_entry else device_core_entry)"

definition loop_call ::
    "xdr_lib \<Rightarrow> (nat \<Rightarrow> rpc_obj \<Rightarrow> bool_t \<times> rpc_obj) \<Rightarrow> nat \<Rightarrow> nat \<Rightarrow> nat \<Rightarrow> rpc_obj xdrproc \<Rightarrow> rpc_obj \<Rightarrow>
     rpc_obj xdrproc \<Rightarrow> rpc_obj \<Rightarrow> int \<times> rpc_obj" where
  "loop_call lib handler n cl proc xargs argsp xres resp =
     (case xargs (out_stream n) argsp of
        (ok, x, _) \<Rightarrow>
          if \<not> ok then (1, resp)
          else case (replies (loop_dispatch cl (loop_svc handler n (reread x 0)) lib proc []),
                     loop_entry cl lib proc) of
                 (r # _, Some en) \<Rightarrow>
                   (case se_xres en (out_stream n) r of
                      (_, y, _) \<Rightarrow>
                        (case xres (reread y 0) resp of
                           (ok, _, res) \<Rightarrow> if ok then (RPC_SUCCESS, res) else (2, resp)))
               | _ \<Rightarrow> (5, resp))"

definition loop_rpc ::
    "xdr_lib \<Rightarrow> (nat \<Rightarrow> rpc_obj \<Rightarrow> bool_t \<times> rpc_obj) \<Rightarrow> nat \<Rightarrow> rpc" where
  "loop_rpc lib handler n =
     \<lparr>rpc_create = (\<lambda>_ _ prog _ _. Some (if prog = DEVICE_ASYNC then async_client else core_client)),
      rpc_call = (\<lambda>h cl proc xargs argsp xres resp tv.
        loop_call lib handler n cl proc xargs argsp xres resp)\<rparr>"

lemma fits_out_stream: "fits (out_stream n) bs \<longleftrightarrow> length bs \<le> n"
  by (simp add: fits_def out_stream_def)

lemma out_stream_simps [simp]: "x_op (out_stream n) = XDR_ENCODE" "x_pos (out_stream n) = 0"
  by (simp_all add: out_stream_def)

text \<open>A routine carries an object when it writes it and reads it back over another one.\<close>

definition carries :: "nat \<Rightarrow> rpc_obj xdrproc \<Rightarrow> rpc_obj \<Rightarrow> rpc_obj \<Rightarrow> bool" where
  "carries n xp obj z \<longleftrightarrow> (\<exists>x x'. xp (out_stream n) obj = (True, x, obj) \<and> xp (reread x 0) z = (True, x', obj))"

lemma carries_cast:
  assumes "xdr_codec p V e" and "\<And>v. view (wrap v) = Some v" and "V v" and "length (e v) \<le> n"
  shows "carries n (xdr_cast view wrap p) (wrap v) (wrap z)"
proof -
  from xdr_codec.roundtrip [OF assms(1), of "out_stream n" v z] assms(3,4)
  obtain x where "p (out_stream n) v = (True, x, v)"
    "p (reread x 0) z = (True, skip (reread x 0) (length (e v)), v)"
    by (auto simp: fits_out_stream)
  then show ?thesis using assms(2) unfolding carries_def by (auto simp: xdr_cast_def)
qed

lemma carries_void: "carries n xdr_void Obj_void Obj_void"
  by (simp add: carries_def xdr_void_def)

lemma loop_call_returns:
  assumes arg: "carries n xa a z" and res: "carries n xr r r0"
    and entry: "loop_entry cl lib proc = Some \<lparr>se_xarg = xa, se_zero = z, se_xres = xr\<rparr>"
    and proc: "proc \<noteq> NULLPROC" and handler: "handler proc a = (1, r)"
  shows "loop_call lib handler n cl proc xa a xr r0 = (RPC_SUCCESS, r)"
proof -
  obtain x x' where x: "xa (out_stream n) a = (True, x, a)" "xa (reread x 0) z = (True, x', a)"
    using arg unfolding carries_def by blast
  obtain y y' where y: "xr (out_stream n) r = (True, y, r)" "xr (reread y 0) r0 = (True, y', r)"
    using res unfolding carries_def by blast
  have "loop_dispatch cl (loop_svc handler n (reread x 0)) lib proc [] =
      [Sv_call proc a, Sv_reply r, Sv_freeargs True, Sv_freeresult True]"
    using proc handler x y entry
    by (auto simp: loop_dispatch_def loop_entry_def device_core_1_def device_async_1_def svc_serve_def loop_svc_def
        split: if_splits)
  then show ?thesis using x y by (simp add: loop_call_def replies_def entry)
qed

text \<open>
  A stub agrees with a dispatcher on a procedure: for every service function, every valid argument and
  every valid result, as long as their encodings fit the transport, the stub hands over the argument
  the caller built and returns the function's result, with status RPC_SUCCESS.
\<close>

definition agrees ::
    "xdr_lib \<Rightarrow> nat \<Rightarrow> nat \<Rightarrow>
     ('a \<Rightarrow> bool) \<Rightarrow> ('a \<Rightarrow> bytes) \<Rightarrow> ('a \<Rightarrow> rpc_obj) \<Rightarrow> ('r \<Rightarrow> bool) \<Rightarrow> ('r \<Rightarrow> bytes) \<Rightarrow> ('r \<Rightarrow> rpc_obj) \<Rightarrow>
     (rpc \<Rightarrow> xdr_lib \<Rightarrow> 'a \<Rightarrow> 'r \<Rightarrow> CLIENT \<Rightarrow> hist \<Rightarrow> (int \<times> 'r \<times> hist) c) \<Rightarrow> bool" where
  "agrees lib cl proc Va ea wa Vr er wr stub \<longleftrightarrow>
     (\<forall>handler n a r r0 h. Va a \<longrightarrow> length (ea a) \<le> n \<longrightarrow> Vr r \<longrightarrow> length (er r) \<le> n \<longrightarrow>
        handler proc (wa a) = (1, wr r) \<longrightarrow>
        stub (loop_rpc lib handler n) lib a r0 (Some cl) h =
          ret (RPC_SUCCESS, r, h @ [Ev_clnt_call cl proc (wa a) RPC_SUCCESS (wr r)]))"

lemma agreesI:
  assumes arg: "\<And>a n. Va a \<Longrightarrow> length (ea a) \<le> n \<Longrightarrow> carries n xa (wa a) z"
    and res: "xdr_codec pr Vr er" "\<And>v. vr (wr v) = Some v" "xr = xdr_cast vr wr pr"
    and entry: "loop_entry cl lib proc = Some \<lparr>se_xarg = xa, se_zero = z, se_xres = xr\<rparr>"
    and proc: "proc \<noteq> NULLPROC"
    and stub: "\<And>net a r0 h. stub net lib a r0 (Some cl) h = call_stub net (Some cl) proc xa (wa a) xr (wr r0) vr r0 h"
  shows "agrees lib cl proc Va ea wa Vr er wr stub"
proof -
  have "loop_call lib handler n cl proc xa (wa a) xr (wr r0) = (RPC_SUCCESS, wr r)"
    if "Va a" "length (ea a) \<le> n" "Vr r" "length (er r) \<le> n" "handler proc (wa a) = (1, wr r)" for handler n a r r0
    using loop_call_returns [OF arg [OF that(1,2)] _ entry proc, of "wr r" "wr r0"] that(5)
      carries_cast [OF res(1,2) that(3,4)] res(3) by blast
  then show ?thesis
    unfolding agrees_def stub call_stub_Some by (simp add: loop_rpc_def res(2))
qed

text \<open>A stub whose argument has a routine of its own.\<close>

lemma agrees_cast:
  assumes "xdr_codec pa Va ea" and "\<And>v. va (wa v) = Some v" and "xa = xdr_cast va wa pa"
    and "xdr_codec pr Vr er" and "\<And>v. vr (wr v) = Some v" and "xr = xdr_cast vr wr pr"
    and "loop_entry cl lib proc = Some \<lparr>se_xarg = xa, se_zero = wa z, se_xres = xr\<rparr>" and "proc \<noteq> NULLPROC"
    and "\<And>net a r0 h. stub net lib a r0 (Some cl) h = call_stub net (Some cl) proc xa (wa a) xr (wr r0) vr r0 h"
  shows "agrees lib cl proc Va ea wa Vr er wr stub"
proof (rule agreesI [where xa = xa and z = "wa z" and pr = pr and vr = vr and xr = xr])
  show "carries n xa (wa a) (wa z)" if "Va a" "length (ea a) \<le> n" for a n
    unfolding assms(3) using that by (rule carries_cast [OF assms(1,2)])
qed (use assms(4-) in simp_all)

lemma agreesD:
  assumes "agrees lib cl proc Va ea wa Vr er wr stub" and "Va a" and "length (ea a) \<le> n" and "Vr r"
    and "length (er r) \<le> n" and "handler proc (wa a) = (1, wr r)"
  shows "stub (loop_rpc lib handler n) lib a r0 (Some cl) h =
    ret (RPC_SUCCESS, r, h @ [Ev_clnt_call cl proc (wa a) RPC_SUCCESS (wr r)])"
  using assms unfolding agrees_def by blast

lemmas entry_simps = loop_entry_def core_client_def async_client_def device_core_entry_def device_async_entry_def
  proc_numbers NULLPROC_def

lemma unat_xdr_unbounded [simp]: "unat xdr_unbounded = 4294967295"
  by (simp add: xdr_unbounded_def unsigned_minus_1_eq_mask mask_eq_exp_minus_1)

text \<open>The procedures, each at the types the protocol gives it.\<close>

context rfc4506
begin

lemma create_link_agrees:
  "agrees lib core_client create_link valid_Create_LinkParms enc_Create_LinkParms Obj_Create_LinkParms
       (\<lambda>_. True) enc_Create_LinkResp Obj_Create_LinkResp create_link_1"
  by (rule agrees_cast [OF codecs(3) _ xdrproc_Create_LinkParms_def codecs(4) _ xdrproc_Create_LinkResp_def, where z = zero_Create_LinkParms])
    (simp_all add: entry_simps create_link_1_def)

lemma device_write_agrees:
  "agrees lib core_client device_write valid_Device_WriteParms enc_Device_WriteParms Obj_Device_WriteParms
       (\<lambda>_. True) enc_Device_WriteResp Obj_Device_WriteResp device_write_1"
  by (rule agrees_cast [OF codecs(5) _ xdrproc_Device_WriteParms_def codecs(6) _ xdrproc_Device_WriteResp_def, where z = zero_Device_WriteParms])
    (simp_all add: entry_simps device_write_1_def)

lemma device_read_agrees:
  "agrees lib core_client device_read (\<lambda>_. True) enc_Device_ReadParms Obj_Device_ReadParms
       valid_Device_ReadResp enc_Device_ReadResp Obj_Device_ReadResp device_read_1"
  by (rule agrees_cast [OF codecs(7) _ xdrproc_Device_ReadParms_def codecs(8) _ xdrproc_Device_ReadResp_def, where z = zero_Device_ReadParms])
    (simp_all add: entry_simps device_read_1_def)

lemma device_readstb_agrees:
  "agrees lib core_client device_readstb (\<lambda>_. True) enc_Device_GenericParms Obj_Device_GenericParms
       (\<lambda>_. True) enc_Device_ReadStbResp Obj_Device_ReadStbResp device_readstb_1"
  by (rule agrees_cast [OF codecs(10) _ xdrproc_Device_GenericParms_def codecs(9) _ xdrproc_Device_ReadStbResp_def, where z = zero_Device_GenericParms])
    (simp_all add: entry_simps device_readstb_1_def)

lemma device_trigger_agrees:
  "agrees lib core_client device_trigger (\<lambda>_. True) enc_Device_GenericParms Obj_Device_GenericParms
       (\<lambda>_. True) enc_Device_Error Obj_Device_Error device_trigger_1"
  by (rule agrees_cast [OF codecs(10) _ xdrproc_Device_GenericParms_def codecs(2) _ xdrproc_Device_Error_def, where z = zero_Device_GenericParms])
    (simp_all add: entry_simps device_trigger_1_def)

lemma device_clear_agrees:
  "agrees lib core_client device_clear (\<lambda>_. True) enc_Device_GenericParms Obj_Device_GenericParms
       (\<lambda>_. True) enc_Device_Error Obj_Device_Error device_clear_1"
  by (rule agrees_cast [OF codecs(10) _ xdrproc_Device_GenericParms_def codecs(2) _ xdrproc_Device_Error_def, where z = zero_Device_GenericParms])
    (simp_all add: entry_simps device_clear_1_def)

lemma device_remote_agrees:
  "agrees lib core_client device_remote (\<lambda>_. True) enc_Device_GenericParms Obj_Device_GenericParms
       (\<lambda>_. True) enc_Device_Error Obj_Device_Error device_remote_1"
  by (rule agrees_cast [OF codecs(10) _ xdrproc_Device_GenericParms_def codecs(2) _ xdrproc_Device_Error_def, where z = zero_Device_GenericParms])
    (simp_all add: entry_simps device_remote_1_def)

lemma device_local_agrees:
  "agrees lib core_client device_local (\<lambda>_. True) enc_Device_GenericParms Obj_Device_GenericParms
       (\<lambda>_. True) enc_Device_Error Obj_Device_Error device_local_1"
  by (rule agrees_cast [OF codecs(10) _ xdrproc_Device_GenericParms_def codecs(2) _ xdrproc_Device_Error_def, where z = zero_Device_GenericParms])
    (simp_all add: entry_simps device_local_1_def)

lemma device_lock_agrees:
  "agrees lib core_client device_lock (\<lambda>_. True) enc_Device_LockParms Obj_Device_LockParms
       (\<lambda>_. True) enc_Device_Error Obj_Device_Error device_lock_1"
  by (rule agrees_cast [OF codecs(13) _ xdrproc_Device_LockParms_def codecs(2) _ xdrproc_Device_Error_def, where z = zero_Device_LockParms])
    (simp_all add: entry_simps device_lock_1_def)

lemma device_unlock_agrees:
  "agrees lib core_client device_unlock (\<lambda>_. True) be32 Obj_Device_Link
       (\<lambda>_. True) enc_Device_Error Obj_Device_Error device_unlock_1"
  by (rule agrees_cast [OF codecs(1) _ xdrproc_Device_Link_def codecs(2) _ xdrproc_Device_Error_def, where z = zero_Device_Link])
    (simp_all add: entry_simps device_unlock_1_def)

lemma device_enable_srq_agrees:
  "agrees lib core_client device_enable_srq valid_Device_EnableSrqParms enc_Device_EnableSrqParms Obj_Device_EnableSrqParms
       (\<lambda>_. True) enc_Device_Error Obj_Device_Error device_enable_srq_1"
  by (rule agrees_cast [OF codecs(12) _ xdrproc_Device_EnableSrqParms_def codecs(2) _ xdrproc_Device_Error_def, where z = zero_Device_EnableSrqParms])
    (simp_all add: entry_simps device_enable_srq_1_def)

lemma device_docmd_agrees:
  "agrees lib core_client device_docmd valid_Device_DocmdParms enc_Device_DocmdParms Obj_Device_DocmdParms
       valid_Device_DocmdResp enc_Device_DocmdResp Obj_Device_DocmdResp device_docmd_1"
  by (rule agrees_cast [OF codecs(14) _ xdrproc_Device_DocmdParms_def codecs(15) _ xdrproc_Device_DocmdResp_def, where z = zero_Device_DocmdParms])
    (simp_all add: entry_simps device_docmd_1_def)

lemma destroy_link_agrees:
  "agrees lib core_client destroy_link (\<lambda>_. True) be32 Obj_Device_Link
       (\<lambda>_. True) enc_Device_Error Obj_Device_Error destroy_link_1"
  by (rule agrees_cast [OF codecs(1) _ xdrproc_Device_Link_def codecs(2) _ xdrproc_Device_Error_def, where z = zero_Device_Link])
    (simp_all add: entry_simps destroy_link_1_def)

lemma create_intr_chan_agrees:
  "agrees lib core_client create_intr_chan (\<lambda>_. True) enc_Device_RemoteFunc Obj_Device_RemoteFunc
       (\<lambda>_. True) enc_Device_Error Obj_Device_Error create_intr_chan_1"
  by (rule agrees_cast [OF codecs(11) _ xdrproc_Device_RemoteFunc_def codecs(2) _ xdrproc_Device_Error_def, where z = zero_Device_RemoteFunc])
    (simp_all add: entry_simps create_intr_chan_1_def)

lemma device_abort_agrees:
  "agrees lib async_client device_abort (\<lambda>_. True) be32 Obj_Device_Link
       (\<lambda>_. True) enc_Device_Error Obj_Device_Error device_abort_1"
  by (rule agrees_cast [OF codecs(1) _ xdrproc_Device_Link_def codecs(2) _ xdrproc_Device_Error_def, where z = zero_Device_Link])
    (simp_all add: entry_simps device_abort_1_def)

lemma destroy_intr_chan_agrees:
  "agrees lib core_client destroy_intr_chan (\<lambda>_. True) (\<lambda>_. []) (\<lambda>_. Obj_void)
       (\<lambda>_. True) enc_Device_Error Obj_Device_Error (\<lambda>net lib _. destroy_intr_chan_1 net lib)"
  by (rule agreesI [OF _ codecs(2) _ xdrproc_Device_Error_def, where xa = xdr_void and z = Obj_void])
    (simp_all add: carries_void entry_simps destroy_intr_chan_1_def)

lemmas stubs_agree =
  create_link_agrees device_write_agrees device_read_agrees device_readstb_agrees device_trigger_agrees device_clear_agrees device_remote_agrees device_local_agrees
  device_lock_agrees device_unlock_agrees device_enable_srq_agrees device_docmd_agrees destroy_link_agrees create_intr_chan_agrees device_abort_agrees
  destroy_intr_chan_agrees

end

text \<open>
  C12. Stubs and dispatchers agree. With any XDR library that follows RFC 4506, each of the fifteen
  procedures of the core program called through its client stub against \<open>device_core_1\<close>, and
  \<^verbatim>\<open>device_abort\<close> against \<open>device_async_1\<close>, hands the service function exactly the argument the caller
  built and returns exactly its result, with status RPC_SUCCESS.
\<close>

theorem stubs_agree_with_dispatcher:
  assumes "rfc4506 lib"
  shows "agrees lib core_client create_link valid_Create_LinkParms enc_Create_LinkParms Obj_Create_LinkParms
       (\<lambda>_. True) enc_Create_LinkResp Obj_Create_LinkResp create_link_1 \<and>
    agrees lib core_client device_write valid_Device_WriteParms enc_Device_WriteParms Obj_Device_WriteParms
       (\<lambda>_. True) enc_Device_WriteResp Obj_Device_WriteResp device_write_1 \<and>
    agrees lib core_client device_read (\<lambda>_. True) enc_Device_ReadParms Obj_Device_ReadParms
       valid_Device_ReadResp enc_Device_ReadResp Obj_Device_ReadResp device_read_1 \<and>
    agrees lib core_client device_readstb (\<lambda>_. True) enc_Device_GenericParms Obj_Device_GenericParms
       (\<lambda>_. True) enc_Device_ReadStbResp Obj_Device_ReadStbResp device_readstb_1 \<and>
    agrees lib core_client device_trigger (\<lambda>_. True) enc_Device_GenericParms Obj_Device_GenericParms
       (\<lambda>_. True) enc_Device_Error Obj_Device_Error device_trigger_1 \<and>
    agrees lib core_client device_clear (\<lambda>_. True) enc_Device_GenericParms Obj_Device_GenericParms
       (\<lambda>_. True) enc_Device_Error Obj_Device_Error device_clear_1 \<and>
    agrees lib core_client device_remote (\<lambda>_. True) enc_Device_GenericParms Obj_Device_GenericParms
       (\<lambda>_. True) enc_Device_Error Obj_Device_Error device_remote_1 \<and>
    agrees lib core_client device_local (\<lambda>_. True) enc_Device_GenericParms Obj_Device_GenericParms
       (\<lambda>_. True) enc_Device_Error Obj_Device_Error device_local_1 \<and>
    agrees lib core_client device_lock (\<lambda>_. True) enc_Device_LockParms Obj_Device_LockParms
       (\<lambda>_. True) enc_Device_Error Obj_Device_Error device_lock_1 \<and>
    agrees lib core_client device_unlock (\<lambda>_. True) be32 Obj_Device_Link
       (\<lambda>_. True) enc_Device_Error Obj_Device_Error device_unlock_1 \<and>
    agrees lib core_client device_enable_srq valid_Device_EnableSrqParms enc_Device_EnableSrqParms Obj_Device_EnableSrqParms
       (\<lambda>_. True) enc_Device_Error Obj_Device_Error device_enable_srq_1 \<and>
    agrees lib core_client device_docmd valid_Device_DocmdParms enc_Device_DocmdParms Obj_Device_DocmdParms
       valid_Device_DocmdResp enc_Device_DocmdResp Obj_Device_DocmdResp device_docmd_1 \<and>
    agrees lib core_client destroy_link (\<lambda>_. True) be32 Obj_Device_Link
       (\<lambda>_. True) enc_Device_Error Obj_Device_Error destroy_link_1 \<and>
    agrees lib core_client create_intr_chan (\<lambda>_. True) enc_Device_RemoteFunc Obj_Device_RemoteFunc
       (\<lambda>_. True) enc_Device_Error Obj_Device_Error create_intr_chan_1 \<and>
    agrees lib async_client device_abort (\<lambda>_. True) be32 Obj_Device_Link
       (\<lambda>_. True) enc_Device_Error Obj_Device_Error device_abort_1 \<and>
    agrees lib core_client destroy_intr_chan (\<lambda>_. True) (\<lambda>_. []) (\<lambda>_. Obj_void)
       (\<lambda>_. True) enc_Device_Error Obj_Device_Error (\<lambda>net lib _. destroy_intr_chan_1 net lib)"
  using rfc4506.stubs_agree [OF assms] by (intro conjI)

text \<open>An instrument that takes every write and answers every read with two bytes.\<close>

definition echo_handler :: "nat \<Rightarrow> rpc_obj \<Rightarrow> bool_t \<times> rpc_obj" where
  "echo_handler proc a =
     (1, if proc = device_write then Obj_Device_WriteResp \<lparr>dwr_error = 0, dwr_size = 6\<rparr>
         else Obj_Device_ReadResp \<lparr>drr_error = 0, drr_reason = 4,
                drr_data = \<lparr>op_len = 2, op_val = Some [0x4F, 0x4B]\<rparr>\<rparr>)"

theorem stubs_agree_with_dispatcher_witness:
  "device_read_1 (loop_rpc mem_lib echo_handler 64) mem_lib
      \<lparr>drp_lid = 7, drp_requestSize = 100, drp_io_timeout = 1000, drp_lock_timeout = 0, drp_flags = 0,
       drp_termChar = 0\<rparr>
      \<lparr>drr_error = 0, drr_reason = 0, drr_data = \<lparr>op_len = 0, op_val = None\<rparr>\<rparr> (Some core_client) [] =
    ret (RPC_SUCCESS, \<lparr>drr_error = 0, drr_reason = 4,
        drr_data = \<lparr>op_len = 2, op_val = Some [0x4F, 0x4B]\<rparr>\<rparr>, [] @ [Ev_clnt_call core_client device_read
      (Obj_Device_ReadParms \<lparr>drp_lid = 7, drp_requestSize = 100, drp_io_timeout = 1000,
       drp_lock_timeout = 0, drp_flags = 0, drp_termChar = 0\<rparr>) RPC_SUCCESS
      (Obj_Device_ReadResp \<lparr>drr_error = 0, drr_reason = 4,
        drr_data = \<lparr>op_len = 2, op_val = Some [0x4F, 0x4B]\<rparr>\<rparr>)])"
proof -
  have "agrees mem_lib core_client device_read (\<lambda>_. True) enc_Device_ReadParms Obj_Device_ReadParms
       valid_Device_ReadResp enc_Device_ReadResp Obj_Device_ReadResp device_read_1"
    using stubs_agree_with_dispatcher [OF xdrmem.rfc4506_axioms] by (elim conjE)
  then show ?thesis
    by (rule agreesD)
      (simp_all add: valid_Device_ReadResp_def valid_opaque_def enc_Device_ReadParms_def enc_Device_ReadResp_def
        enc_opaque_def enc_string_def enc_run_def xdr_pad_def echo_handler_def proc_numbers)
qed

end
