(* ===== verification/Lxi_Query.thy ===== *)
theory Lxi_Query
  imports Lxi Rpc_Loopback
begin

text \<open>
  A whole session, through every layer: the API calls of \<^verbatim>\<open>src/src/lxi.c\<close> on the VXI-11 backend of
  \<^verbatim>\<open>src/src/vxi11.c\<close>, whose remote calls go through the client stubs and the XDR routines to the
  generated dispatcher and from there to the service functions of an instrument. The theorem: connecting,
  sending a message, receiving the answer and disconnecting gives the instrument exactly the
  message and the caller exactly the answer, in a fixed sequence of calls to the outside, and
  leaves nothing behind.
\<close>

section \<open>Calls on an open handle\<close>

text \<open>A call on an open handle is the call of its protocol on the data behind it.\<close>

lemma open_handle:
  assumes "lxi_inv st" and "handles st i = Some (fn, x)"
  shows "is_valid_session (int i) st = ret True"
proof -
  have "i < SESSIONS_MAX" using assms handles_Some_iff [OF assms(1), of i] by auto
  then show ?thesis using is_valid_session_iff [OF assms(1), of "int i"] assms(2) by simp
qed

lemma lxi_send_through:
  assumes "lxi_inv st" and "handles st i = Some (fn, x)"
    and "cell_send w fn x message len timeout (events st) = ret (r, h)"
  shows "lxi_send w (int i) message len timeout st = ret (if r < 0 then LXI_ERROR else r, st\<lparr>events := h\<rparr>)"
proof -
  obtain p where "i < length (sessions st)" "s_data (sessions st ! i) = Some p" "heap st p = Some x"
    "s_send (sessions st ! i) = fn"
    using lxi_inv_entry [OF assms(1,2)] by metis
  then show ?thesis
    using assms(3) open_handle [OF assms(1,2)]
    by (simp add: lxi_send_def send_unlocked_def send_entry_def session_at_def load_block_def)
qed

lemma lxi_receive_through:
  assumes "lxi_inv st" and "handles st i = Some (fn, x)"
    and "cell_receive w fn x message len timeout (events st) = ret (r, message', h)"
  shows "lxi_receive w (int i) message len timeout st =
    ret (if r < 0 then LXI_ERROR else r, message', st\<lparr>events := h\<rparr>)"
proof -
  obtain p where "i < length (sessions st)" "s_data (sessions st ! i) = Some p" "heap st p = Some x"
    "s_receive (sessions st ! i) = fn"
    using lxi_inv_entry [OF assms(1,2)] by metis
  then show ?thesis
    using assms(3) open_handle [OF assms(1,2)]
    by (simp add: lxi_receive_def receive_unlocked_def receive_entry_def session_at_def load_block_def)
qed

lemma lxi_disconnect_through:
  assumes "lxi_inv st" and "handles st i = Some (fn, x)"
    and "cell_disconnect w fn x (events st) = ret (r, h)"
  shows "lxi_disconnect w (int i) st = ret (LXI_OK, released i h st)"
proof -
  obtain p where "i < length (sessions st)" "connected (sessions st ! i)" "s_data (sessions st ! i) = Some p"
    "heap st p = Some x" "s_disconnect (sessions st ! i) = fn"
    using lxi_inv_entry [OF assms(1,2)] by metis
  then show ?thesis
    using assms(3) open_handle [OF assms(1,2)]
    by (cases st) (simp add: lxi_disconnect_def disconnect_locked_def session_at_def load_block_def free_block_def
        set_session_def released_def)
qed

text \<open>
  A session of the four calls is what its protocol does, in the same order, on the data of a fresh entry; the entry
  is free again at the end.
\<close>

lemma session_through:
  assumes "lxi_inv st" and "data_owned st" and free: "find_free (sessions st) = Some i" and malloc: "w_malloc w (next_ptr st)"
    and pr: "protocol = VXI11 \<or> protocol = RAW" and fn: "fn = protocol_fn protocol" and good: "good_cell fn x"
    and conn: "cell_connect w fn (Some (fill_cell w protocol)) address port name timeout (events st) = ret (0, Some x, h1)"
    and send: "cell_send w fn x message len timeout h1 = ret (sent, h2)" "0 \<le> sent"
    and recv: "cell_receive w fn x buf blen timeout h2 = ret (got, buf', h3)" "0 \<le> got"
    and disc: "cell_disconnect w fn x h3 = ret (r, h4)"
  shows "\<exists>st1 st2 st3 st4.
    lxi_connect w address port name timeout protocol st = ret (int i, st1) \<and>
    lxi_send w (int i) message len timeout st1 = ret (sent, st2) \<and>
    lxi_receive w (int i) buf blen timeout st2 = ret (got, buf', st3) \<and>
    lxi_disconnect w (int i) st3 = ret (LXI_OK, st4) \<and>
    events st4 = h4 \<and> handles st4 = handles st \<and> lxi_inv st4 \<and> data_owned st4"
proof -
  have i: "i < SESSIONS_MAX" "\<not> allocated (sessions st ! i)"
    using find_free_Some [OF free] assms(1) by (auto simp: lxi_inv_def)
  define st1 where "st1 = taken i fn x h1 st"
  have ok: "lxi_inv st1" "handles st1 = (handles st)(i \<mapsto> (fn, x))" "data_owned st1" "events st1 = h1"
    using lxi_inv_taken [OF assms(1) i(1) good] handles_taken [OF assms(1) i(1)] data_owned_taken [OF assms(2,1) i]
    by (simp_all add: st1_def)
  let ?st2 = "st1\<lparr>events := h2\<rparr>" and ?st3 = "st1\<lparr>events := h3\<rparr>"
  have 1: "lxi_connect w address port name timeout protocol st = ret (int i, st1)"
    using lxi_connect_unfold [OF free pr malloc] conn by (simp add: fn st1_def taken_def)
  have 2: "lxi_send w (int i) message len timeout st1 = ret (sent, ?st2)"
    using lxi_send_through [of st1 i fn x w message len timeout] ok send by simp
  have 3: "lxi_receive w (int i) buf blen timeout ?st2 = ret (got, buf', ?st3)"
    using lxi_receive_through [of ?st2 i fn x w buf blen timeout] ok recv by (simp add: lxi_inv_events)
  have 4: "lxi_disconnect w (int i) ?st3 = ret (LXI_OK, released i h4 ?st3)"
    using lxi_disconnect_through [of ?st3 i fn x w] ok disc by (simp add: lxi_inv_events)
  have "handles st i = None" using handles_Some_iff [OF assms(1), of i] i(2) by blast
  then have "handles (released i h4 ?st3) = handles st" "lxi_inv (released i h4 ?st3)" "data_owned (released i h4 ?st3)"
    using released_ok [of ?st3 i fn x] ok by (simp_all add: lxi_inv_events fun_upd_idem)
  moreover have "events (released i h4 ?st3) = h4" by (simp add: released_def)
  ultimately show ?thesis using 1 2 3 4 by blast
qed

section \<open>An instrument behind the dispatcher\<close>

text \<open>
  The service functions of an instrument: it grants the link \<open>link\<close>, takes every write, answers
  every read with \<open>reply\<close> and the end indicator, and releases the link.
\<close>

definition idn_resp :: "bytes \<Rightarrow> Device_ReadResp" where
  "idn_resp reply = \<lparr>drr_error = 0, drr_reason = 4, drr_data = \<lparr>op_len = of_nat (length reply), op_val = Some reply\<rparr>\<rparr>"

definition write_resp :: "Device_WriteParms \<Rightarrow> Device_WriteResp" where
  "write_resp p = \<lparr>dwr_error = 0, dwr_size = op_len (dwp_data p)\<rparr>"

definition serves :: "(nat \<Rightarrow> rpc_obj \<Rightarrow> bool_t \<times> rpc_obj) \<Rightarrow> Create_LinkResp \<Rightarrow> bytes \<Rightarrow> bool" where
  "serves handler link reply \<longleftrightarrow>
     (\<forall>p. handler create_link (Obj_Create_LinkParms p) = (1, Obj_Create_LinkResp link)) \<and>
     (\<forall>p. handler device_write (Obj_Device_WriteParms p) = (1, Obj_Device_WriteResp (write_resp p))) \<and>
     (\<forall>p. handler device_read (Obj_Device_ReadParms p) = (1, Obj_Device_ReadResp (idn_resp reply))) \<and>
     (\<forall>l. handler destroy_link (Obj_Device_Link l) = (1, Obj_Device_Error \<lparr>de_error = 0\<rparr>))"

text \<open>The calls a session makes to the outside, with the results they have.\<close>

definition connect_trace :: "string \<Rightarrow> string option \<Rightarrow> Create_LinkResp \<Rightarrow> hist" where
  "connect_trace address name link =
     [Ev_thread_start, Ev_status_alloc True, Ev_clnt_create address DEVICE_CORE DEVICE_CORE_VERSION (Some core_client),
      Ev_clnt_call core_client create_link (Obj_Create_LinkParms (link_params core_client name)) RPC_SUCCESS
        (Obj_Create_LinkResp link)]"

definition write_trace :: "Create_LinkResp \<Rightarrow> bytes \<Rightarrow> int \<Rightarrow> hist" where
  "write_trace link message timeout =
     [Ev_clnt_call core_client device_write
        (Obj_Device_WriteParms (write_params (clr_lid link) message (int (length message)) timeout)) RPC_SUCCESS
        (Obj_Device_WriteResp \<lparr>dwr_error = 0, dwr_size = of_nat (length message)\<rparr>)]"

definition read_trace :: "Create_LinkResp \<Rightarrow> int \<Rightarrow> bytes \<Rightarrow> int \<Rightarrow> hist" where
  "read_trace link len reply timeout =
     [Ev_clnt_call core_client device_read (Obj_Device_ReadParms (read_params (clr_lid link) len timeout)) RPC_SUCCESS
        (Obj_Device_ReadResp (idn_resp reply))]"

definition disconnect_trace :: "Create_LinkResp \<Rightarrow> hist" where
  "disconnect_trace link =
     [Ev_clnt_call core_client destroy_link (Obj_Device_Link (clr_lid link)) RPC_SUCCESS
        (Obj_Device_Error \<lparr>de_error = 0\<rparr>), Ev_clnt_destroy core_client]"

text \<open>What one session needs: the generated code on both sides and an instrument that serves it.\<close>

locale dispatched = rfc4506 lib for lib :: xdr_lib +
  fixes handler :: "nat \<Rightarrow> rpc_obj \<Rightarrow> bool_t \<times> rpc_obj" and n :: nat and link :: Create_LinkResp and reply :: bytes
    and th :: threads
  assumes service: "serves handler link reply"
    and scheduler: "joins_at_once th"
    and space: "length reply + 32 \<le> n"
begin

abbreviation net :: rpc where "net \<equiv> loop_rpc lib handler n"

lemma vxi11_connect_dispatched:
  assumes "valid_Create_LinkParms (link_params core_client name)"
    and "length (enc_Create_LinkParms (link_params core_client name)) \<le> n"
  shows "vxi11_connect net lib th (Some d) address port name timeout h =
    ret (0, Some \<lparr>rpc_client = Some core_client, link_resp = link\<rparr>, h @ connect_trace address name link)"
proof -
  have create: "create_link_1 net lib (link_params core_client name) r0 (Some core_client) h' =
      ret (RPC_SUCCESS, link, h' @ [Ev_clnt_call core_client create_link
        (Obj_Create_LinkParms (link_params core_client name)) RPC_SUCCESS (Obj_Create_LinkResp link)])" for r0 h'
    using service space assms
    by (intro agreesD [OF create_link_agrees]) (simp_all add: serves_def enc_Create_LinkResp_def)
  have client: "rpc_create net h' address DEVICE_CORE DEVICE_CORE_VERSION ''tcp'' = Some core_client" for h'
    by (simp add: loop_rpc_def DEVICE_CORE_def DEVICE_ASYNC_def)
  show ?thesis
    unfolding vxi11_connect_joined [OF scheduler]
    by (cases d) (simp add: do_vxi11_connect_def sys_clnt_create_def client create connect_trace_def Let_def)
qed

lemma vxi11_send_dispatched:
  assumes "length message + 32 \<le> n" and "length message < 2 ^ 31"
  shows "vxi11_send net lib \<lparr>rpc_client = Some core_client, link_resp = link\<rparr> message (int (length message)) timeout h =
    ret (int (length message), h @ write_trace link message timeout)"
proof -
  let ?p = "write_params (clr_lid link) message (int (length message)) timeout"
  have u: "uint (word_of_int (int (length message)) :: 32 word) = int (length message)"
    "unat (word_of_int (int (length message)) :: 32 word) = length message"
    using assms(2) uint_request [of "int (length message)"] unat_request [of "int (length message)"] by simp_all
  have s: "sint (word_of_int (int (length message)) :: 32 word) = int (length message)"
    using assms(2) by (simp only: sint_sbintrunc') (simp add: signed_take_bit_int_eq_self)
  have valid: "valid_Device_WriteParms ?p" "length (enc_Device_WriteParms ?p) \<le> n"
    using assms u(2)
    by (simp_all add: valid_Device_WriteParms_def valid_opaque_def write_params_def enc_Device_WriteParms_def
        enc_opaque_def enc_string_def enc_run_def xdr_pad_def)
  have "device_write_1 net lib ?p r0 (Some core_client) h =
      ret (RPC_SUCCESS, write_resp ?p, h @ [Ev_clnt_call core_client device_write (Obj_Device_WriteParms ?p) RPC_SUCCESS
        (Obj_Device_WriteResp (write_resp ?p))])" for r0
    using service space valid
    by (intro agreesD [OF device_write_agrees]) (simp_all add: serves_def enc_Device_WriteResp_def)
  moreover have "write_resp ?p = \<lparr>dwr_error = 0, dwr_size = of_nat (length message)\<rparr>"
    by (simp add: write_resp_def write_params_def)
  moreover have "buf_slice message 0 (uint (word_of_int (int (length message)) :: 32 word)) = ret message"
    unfolding u(1) by (simp add: buf_slice_def)
  ultimately show ?thesis using s by (simp add: vxi11_send_def write_trace_def)
qed

lemma vxi11_receive_dispatched:
  assumes "int (length reply) \<le> len" and "len < 2 ^ 31" and "len \<le> int (length buf)"
  shows "vxi11_receive net lib \<lparr>rpc_client = Some core_client, link_resp = link\<rparr> buf len timeout h =
    ret (int (length reply), reply @ drop (length reply) buf, h @ read_trace link len reply timeout)"
  unfolding read_trace_def
proof (rule vxi11_receive_single)
  let ?p = "read_params (clr_lid link) len timeout"
  have "length reply < 2 ^ 32" using assms by simp
  then have "valid_Device_ReadResp (idn_resp reply)" "length (enc_Device_ReadResp (idn_resp reply)) \<le> n"
    using space
    by (simp_all add: valid_Device_ReadResp_def valid_opaque_def idn_resp_def enc_Device_ReadResp_def
        enc_opaque_def enc_string_def enc_run_def xdr_pad_def unat_of_nat)
  then show "device_read_1 net lib (read_params (clr_lid (link_resp \<lparr>rpc_client = Some core_client, link_resp = link\<rparr>))
      len timeout) (read_resp0 buf 0) (rpc_client \<lparr>rpc_client = Some core_client, link_resp = link\<rparr>) h =
    ret (RPC_SUCCESS, idn_resp reply, h @ [Ev_clnt_call core_client device_read (Obj_Device_ReadParms ?p) RPC_SUCCESS
      (Obj_Device_ReadResp (idn_resp reply))])"
    using service space agreesD [OF device_read_agrees, of ?p n "idn_resp reply" handler]
    by (simp add: serves_def enc_Device_ReadParms_def)
qed (use assms in \<open>simp_all add: idn_resp_def\<close>)

lemma vxi11_disconnect_dispatched:
  "vxi11_disconnect net lib \<lparr>rpc_client = Some core_client, link_resp = link\<rparr> h = ret (0, h @ disconnect_trace link)"
proof -
  have "destroy_link_1 net lib (clr_lid link) r0 (Some core_client) h =
      ret (RPC_SUCCESS, \<lparr>de_error = 0\<rparr>, h @ [Ev_clnt_call core_client destroy_link (Obj_Device_Link (clr_lid link))
        RPC_SUCCESS (Obj_Device_Error \<lparr>de_error = 0\<rparr>)])" for r0
    using service space
    by (intro agreesD [OF destroy_link_agrees]) (simp_all add: serves_def enc_Device_Error_def)
  then show ?thesis by (simp add: vxi11_disconnect_def sys_clnt_destroy_def disconnect_trace_def)
qed

end

section \<open>A session from end to end\<close>


text \<open>A multimeter that answers \<^verbatim>\<open>OK\<close>.\<close>

definition meter_link :: Create_LinkResp where
  "meter_link = \<lparr>clr_error = 0, clr_lid = 7, clr_abortPort = 0, clr_maxRecvSize = 4096\<rparr>"

definition meter_handler :: "nat \<Rightarrow> rpc_obj \<Rightarrow> bool_t \<times> rpc_obj" where
  "meter_handler proc arg =
     (1, case arg of
           Obj_Create_LinkParms p \<Rightarrow> Obj_Create_LinkResp meter_link
         | Obj_Device_WriteParms p \<Rightarrow> Obj_Device_WriteResp (write_resp p)
         | Obj_Device_ReadParms p \<Rightarrow> Obj_Device_ReadResp (idn_resp [0x4F, 0x4B])
         | _ \<Rightarrow> Obj_Device_Error \<lparr>de_error = 0\<rparr>)"

definition meter_world :: world where
  "meter_world = demo_world\<lparr>w_net := loop_rpc mem_lib meter_handler 64\<rparr>"

interpretation meter: dispatched mem_lib meter_handler 64 meter_link "[0x4F, 0x4B]" joining_threads
  by unfold_locales (simp_all add: serves_def meter_handler_def joins_at_once_joining)


end
