(* ===== verification/Raw_Peer.thy ===== *)
theory Raw_Peer
  imports Backend
begin

text \<open>
  A peer at the other end of a raw socket: the locale \<open>raw_peer\<close> says what the operating system gives the operations of
  \<^verbatim>\<open>src/src/tcp.c\<close> when the peer accepts the connection, takes a message in at most two pieces and delivers its reply in
  at most two, after which a receive call fails or reports the end of the stream. The lemmas: what connecting, sending and
  receiving do with such a peer. An instrument (\<open>Lxi_Raw\<close>) and a web server (\<open>Vxi11_network\<close>) are such peers.
\<close>

section \<open>What a history says of sockets\<close>

definition is_recv :: "event \<Rightarrow> bool" where
  "is_recv e = (case e of Ev_recv _ _ _ _ _ \<Rightarrow> True | _ \<Rightarrow> False)"

text \<open>The receive calls since the last other call, and whether the last call was a send.\<close>

definition recvs_since :: "hist \<Rightarrow> nat" where
  "recvs_since h = length (takeWhile is_recv (rev h))"

definition after_send :: "hist \<Rightarrow> bool" where
  "after_send h \<longleftrightarrow> h \<noteq> [] \<and> is_send (last h)"

lemma recvs_since_simps [simp]:
  "recvs_since (h @ [Ev_select_read fd tv r]) = 0"
  "recvs_since (h @ [Ev_recv fd len fl n bs]) = Suc (recvs_since h)"
  by (simp_all add: recvs_since_def is_recv_def)

lemma after_send_simps [simp]:
  "\<not> after_send (h @ [Ev_select_write fd tv r])" "after_send (h @ [Ev_send fd bs n])"
  by (simp_all add: after_send_def is_send_def)

text \<open>
  The events that create and close descriptors, and those that are no calls on connected sockets; a history of calls on
  sockets without any that create or close descriptors and without transfers.
\<close>

definition fd_events :: "hist \<Rightarrow> hist" where
  "fd_events h = filter (\<lambda>e. case e of Ev_socket _ _ \<Rightarrow> True | Ev_close _ \<Rightarrow> True | _ \<Rightarrow> False) h"

fun socket_event :: "event \<Rightarrow> bool" where
  "socket_event (Ev_socket _ _) = True"
| "socket_event (Ev_getfl _ _) = True"
| "socket_event (Ev_setfl _ _ _) = True"
| "socket_event (Ev_getaddrinfo _ _ _) = True"
| "socket_event (Ev_connect _ _ _) = True"
| "socket_event (Ev_select_write _ _ _) = True"
| "socket_event (Ev_select_read _ _ _) = True"
| "socket_event (Ev_getsockopt _ _ _) = True"
| "socket_event (Ev_send _ _ _) = True"
| "socket_event (Ev_recv _ _ _ _ _) = True"
| "socket_event (Ev_close _) = True"
| "socket_event _ = False"

definition foreign :: "hist \<Rightarrow> hist" where
  "foreign h = filter (\<lambda>e. \<not> socket_event e) h"

definition quiet :: "hist \<Rightarrow> bool" where
  "quiet h \<longleftrightarrow> fd_events h = [] \<and> wire h = [] \<and> received h = [] \<and> foreign h = []"

lemma socket_views [simp]:
  "fd_events (h @ h') = fd_events h @ fd_events h'" "wire (h @ h') = wire h @ wire h'"
  "received (h @ h') = received h @ received h'" "foreign (h @ h') = foreign h @ foreign h'"
  "quiet (h @ h') \<longleftrightarrow> quiet h \<and> quiet h'"
  by (auto simp: fd_events_def wire_def received_def foreign_def quiet_def)

lemma close_views:
  "fd_events [Ev_close fd] = [Ev_close fd]" "wire [Ev_close fd] = []" "received [Ev_close fd] = []" "foreign [Ev_close fd] = []"
  by (simp_all add: fd_events_def wire_def received_def foreign_def)

lemmas view_defs = quiet_def fd_events_def wire_def received_def foreign_def

text \<open>Calls on sockets neither make or release RPC clients nor redirect stderr.\<close>

lemma foreign_none:
  assumes "foreign h = []"
  shows "clients_open h x = 0" and "Ev_stderr_restore \<notin> set h"
proof -
  have all: "\<forall>e \<in> set h. socket_event e" using assms by (simp add: foreign_def filter_empty_conv)
  have "client_change e x = 0" if "socket_event e" for e using that by (cases e) simp_all
  then show "clients_open h x = 0" using all by (induction h) simp_all
  show "Ev_stderr_restore \<notin> set h" using all by force
qed

section \<open>A peer behind a socket\<close>

locale raw_peer =
  fixes os :: posix and pieces :: "bytes list"
  assumes socket: "0 \<le> px_socket os h SOCK_STREAM" "px_socket os h SOCK_STREAM < FD_SETSIZE"
    and flags: "0 \<le> px_getfl os h fd" "0 \<le> px_setfl os h fd fl"
    and resolves: "px_inet_addr os address \<noteq> INADDR_NONE \<or>
      fst (px_getaddrinfo os h address service) = 0 \<and> ai_family (snd (px_getaddrinfo os h address service)) = AF_INET"
    and accepts: "0 \<le> fst (px_connect os h fd a) \<or> snd (px_connect os h fd a) = EINPROGRESS"
    and options: "fst (px_getsockopt os h fd) = 0"
    and ready: "0 < px_select os h wr fd tv"
    and takes: "0 \<le> px_send os h fd bs" "bs \<noteq> [] \<Longrightarrow> px_send os h fd bs \<noteq> 0" "px_send os h fd bs \<le> int (length bs)"
    and takes_rest: "after_send h \<Longrightarrow> px_send os h fd bs = int (length bs)"
    and two: "length pieces \<le> 2" "[] \<notin> set pieces"
    and delivers: "recvs_since h < length pieces \<Longrightarrow> length (pieces ! recvs_since h) \<le> len \<Longrightarrow>
      px_recv os h fd len fl = (int (length (pieces ! recvs_since h)), pieces ! recvs_since h)"
    and exhausted: "length pieces \<le> recvs_since h \<Longrightarrow>
      fst (px_recv os h fd len fl) \<le> 0 \<and> snd (px_recv os h fd len fl) = []"
begin

abbreviation reply :: bytes where
  "reply \<equiv> concat pieces"

lemma tcp_resolve_peer: "\<exists>a pre. tcp_resolve os address port h = (Some a, h @ pre) \<and> quiet pre"
  using resolves [of address h "show_int port"]
  by (auto simp: tcp_resolve_def sys_getaddrinfo_def view_defs Let_def split: prod.splits)

lemma tcp_establish_peer:
  assumes "0 \<le> fd" and "fd < FD_SETSIZE"
  shows "\<exists>evs. tcp_establish os fd opt a tv h = ret (0, h @ evs) \<and> quiet evs"
proof -
  obtain r errno where c: "px_connect os h fd a = (r, errno)" by fastforce
  then have acc: "0 \<le> r \<or> errno = EINPROGRESS" using accepts [of h fd a] by simp
  have opt: "\<exists>e. px_getsockopt os h' fd = (0, e)" for h' using options [of h' fd] by (metis prod.collapse)
  have fl: "\<not> px_setfl os h' fd opt < 0" for h' using flags(2) [of h' fd opt] by simp
  have sel: "\<not> px_select os h' True fd tv < 0" "px_select os h' True fd tv \<noteq> 0" for h'
    using ready [of h' True fd tv] by simp_all
  show ?thesis
    using c acc fl sel assms opt
    by (cases "r < 0") (auto simp: tcp_establish_def sys_defs view_defs Let_def split: prod.splits,
        (metis prod.inject)+)
qed

lemma tcp_connect_peer:
  "\<exists>evs. tcp_connect os (Some d) address port name timeout h =
      ret (0, Some \<lparr>server_socket = px_socket os h SOCK_STREAM\<rparr>, h @ evs) \<and>
    fd_events evs = [Ev_socket SOCK_STREAM (px_socket os h SOCK_STREAM)] \<and> wire evs = [] \<and> received evs = [] \<and>
    foreign evs = []"
proof -
  define fd where "fd = px_socket os h SOCK_STREAM"
  have fd: "0 \<le> fd" "fd < FD_SETSIZE" using socket [of h] by (simp_all add: fd_def)
  obtain opt where 2: "sys_getfl os fd (h @ [Ev_socket SOCK_STREAM fd]) =
      (opt, (h @ [Ev_socket SOCK_STREAM fd]) @ [Ev_getfl fd opt])" "0 \<le> opt"
    using flags(1) by (simp add: sys_getfl_def Let_def)
  define h2 where "h2 = (h @ [Ev_socket SOCK_STREAM fd]) @ [Ev_getfl fd opt]"
  obtain k where 3: "sys_setfl os fd (opt OR O_NONBLOCK) h2 = (k, h2 @ [Ev_setfl fd (opt OR O_NONBLOCK) k])" "0 \<le> k"
    using flags(2) by (simp add: sys_setfl_def Let_def)
  define h3 where "h3 = h2 @ [Ev_setfl fd (opt OR O_NONBLOCK) k]"
  obtain a pre where 4: "tcp_resolve os address port h3 = (Some a, h3 @ pre)" "quiet pre"
    using tcp_resolve_peer by blast
  obtain evs where 5: "tcp_establish os fd opt \<lparr>sin_port = word_of_int port, s_addr = a\<rparr> (ms_to_timeval timeout)
      (h3 @ pre) = ret (0, (h3 @ pre) @ evs)" "quiet evs"
    using tcp_establish_peer [OF fd] by blast
  have 1: "sys_socket os SOCK_STREAM h = (fd, h @ [Ev_socket SOCK_STREAM fd])"
    by (simp add: sys_socket_def fd_def Let_def)
  have "tcp_connect os (Some d) address port name timeout h = ret (0, Some \<lparr>server_socket = fd\<rparr>, (h3 @ pre) @ evs)"
    unfolding tcp_connect_def 1 Let_def prod.case option.case 2(1) h2_def [symmetric] 3(1) h3_def [symmetric] 4(1)
    using fd 2(2) 3(2) 5(1) by (cases d) simp
  then show ?thesis
    using 4(2) 5(2) unfolding fd_def [symmetric]
    by (intro exI [of _ "[Ev_socket SOCK_STREAM fd, Ev_getfl fd opt, Ev_setfl fd (opt OR O_NONBLOCK) k] @ pre @ evs"])
      (simp add: h3_def h2_def view_defs)
qed

text \<open>Sending: the kernel takes all at once, or a first piece and then the rest.\<close>

lemma tcp_send_peer:
  assumes "tcp_good d" and "length message < 2 ^ 31"
  shows "\<exists>evs. tcp_send os d message (int (length message)) timeout h = ret (int (length message), h @ evs) \<and>
    fd_events evs = [] \<and> wire evs = message \<and> received evs = [] \<and> foreign evs = []"
proof -
  let ?fd = "server_socket d" and ?tv = "ms_to_timeval timeout" and ?n = "length message"
  define r where "r = px_select os h True ?fd ?tv"
  define h1 where "h1 = h @ [Ev_select_write ?fd ?tv r]"
  have "0 < r" using ready by (simp add: r_def)
  then have send: "tcp_send os d message (int ?n) timeout h = tcp_send_loop os ?fd message 0 (int ?n) 0 h1"
    using assms(1) by (simp add: tcp_send_def tcp_good_def sys_select_write_def Let_def r_def [symmetric] h1_def)
  define k where "k = px_send os h1 ?fd message"
  have k: "k \<le> int ?n" "0 \<le> k" "message \<noteq> [] \<Longrightarrow> k \<noteq> 0" using takes by (simp_all add: k_def)
  have 1: "sys_send os ?fd message h1 = (k, h1 @ [Ev_send ?fd message k])"
    by (simp add: sys_send_def k_def Let_def)
  have slice: "buf_slice message 0 (size_t (int ?n)) = ret message" using assms(2) by (simp add: buf_slice_def)
  show ?thesis
  proof (cases "k < int ?n")
    case False
    then have "tcp_send_loop os ?fd message 0 (int ?n) 0 h1 = ret (int ?n, h1 @ [Ev_send ?fd message k])"
      using k(1) by (subst tcp_send_loop.simps) (simp add: slice 1)
    then show ?thesis
      using send False k(1)
      by (intro exI [of _ "[Ev_select_write ?fd ?tv r, Ev_send ?fd message k]"]) (simp add: h1_def view_defs)
  next
    case True
    then have "message \<noteq> []" using k(2) by auto
    then have pos: "0 < k" using k(2,3) by simp
    let ?h2 = "h1 @ [Ev_send ?fd message k]" and ?rest = "drop (nat k) message"
    have len: "int (length ?rest) = int ?n - k" using True pos by simp
    have 2: "sys_send os ?fd ?rest ?h2 = (int ?n - k, ?h2 @ [Ev_send ?fd ?rest (int ?n - k)])"
      using takes_rest [of ?h2 ?fd ?rest] len by (simp add: sys_send_def Let_def)
    have slice2: "buf_slice message k (size_t (int ?n - k)) = ret ?rest"
      using assms(2) pos True by (simp add: buf_slice_def)
    have "tcp_send_loop os ?fd message 0 (int ?n) 0 h1 = tcp_send_loop os ?fd message k (int ?n - k) k ?h2"
      using True pos by (subst tcp_send_loop.simps) (simp add: slice 1)
    also have "\<dots> = ret (int ?n, ?h2 @ [Ev_send ?fd ?rest (int ?n - k)])"
      by (subst tcp_send_loop.simps) (use True in \<open>simp add: slice2 2\<close>)
    finally show ?thesis
      using send len pos True
      by (intro exI [of _ "[Ev_select_write ?fd ?tv r, Ev_send ?fd message k, Ev_send ?fd ?rest (int ?n - k)]"])
        (simp add: h1_def view_defs)
  qed
qed

text \<open>Receiving: each piece is stored behind the one before, and the loop ends when there is no more.\<close>

lemma recv_piece:
  assumes "recvs_since h = j" and "j < length pieces" and "0 \<le> n" and "int (length (pieces ! j)) \<le> len" and "len < 2 ^ 31"
    and "nat n + length (pieces ! j) \<le> length message"
  shows "\<exists>e. tcp_recv_loop os fd fl message n len got h =
      tcp_recv_loop os fd fl (overwrite message (nat n) (pieces ! j)) (int (length (pieces ! j)))
        (len - int (length (pieces ! j))) (got + int (length (pieces ! j))) (h @ [e]) \<and>
    recvs_since (h @ [e]) = Suc j \<and> fd_events [e] = [] \<and> wire [e] = [] \<and> received [e] = pieces ! j \<and> foreign [e] = []"
proof -
  let ?p = "pieces ! j" and ?e = "Ev_recv fd (nat len) fl (int (length (pieces ! j))) (pieces ! j)"
  have "?p \<noteq> []" using two(2) assms(2) by (metis nth_mem)
  then have pos: "0 < int (length ?p)" by simp
  have "sys_recv os fd (nat len) fl h = (int (length ?p), ?p, h @ [?e])"
    using delivers [of h "nat len" fd fl] assms(1,2,4) by (simp add: sys_recv_def nat_le_iff le_nat_iff)
  moreover have "buf_write message n ?p = ret (overwrite message (nat n) ?p)"
    using assms(3,6) by (rule buf_write_in_range)
  moreover have "size_t len = len" using assms(4,5) by simp
  ultimately show ?thesis
    using pos assms(1) by (intro exI [of _ ?e]) (subst tcp_recv_loop.simps, simp add: view_defs)
qed

lemma recv_end:
  assumes "length pieces \<le> recvs_since h"
  shows "\<exists>e. tcp_recv_loop os fd fl message n len got h = ret (got, message, h @ [e]) \<and>
    fd_events [e] = [] \<and> wire [e] = [] \<and> received [e] = [] \<and> foreign [e] = []"
proof -
  obtain r bs where recv: "px_recv os h fd (nat (size_t len)) fl = (r, bs)" by fastforce
  then have "r \<le> 0" "bs = []" using exhausted [OF assms, of fd "nat (size_t len)" fl] by simp_all
  then show ?thesis
    using recv
    by (intro exI [of _ "Ev_recv fd (nat (size_t len)) fl r bs"])
      (subst tcp_recv_loop.simps, auto simp: sys_recv_def buf_write_def view_defs)
qed

lemma recv_loop_peer:
  assumes "recvs_since h = 0" and "int (length reply) \<le> len" and "len < 2 ^ 31" and "len \<le> int (length buf)"
  shows "\<exists>evs. tcp_recv_loop os fd fl buf 0 len 0 h = ret (int (length reply), reply @ drop (length reply) buf, h @ evs) \<and>
    fd_events evs = [] \<and> wire evs = [] \<and> received evs = reply \<and> foreign evs = []"
proof (cases pieces)
  case Nil
  then obtain e where "tcp_recv_loop os fd fl buf 0 len 0 h = ret (0, buf, h @ [e])"
    "fd_events [e] = []" "wire [e] = []" "received [e] = []" "foreign [e] = []"
    using recv_end [of h fd fl buf 0 len 0] by auto
  then show ?thesis using Nil by (intro exI [of _ "[e]"]) simp
next
  case (Cons a rest)
  obtain e where e: "tcp_recv_loop os fd fl buf 0 len 0 h =
      tcp_recv_loop os fd fl (overwrite buf 0 a) (int (length a)) (len - int (length a)) (int (length a)) (h @ [e])"
    "recvs_since (h @ [e]) = 1" "fd_events [e] = []" "wire [e] = []" "received [e] = a" "foreign [e] = []"
    using recv_piece [OF assms(1), of 0 len buf fd fl 0] Cons assms by auto
  show ?thesis
  proof (cases rest)
    case Nil
    obtain e' where "tcp_recv_loop os fd fl (overwrite buf 0 a) (int (length a)) (len - int (length a)) (int (length a))
        (h @ [e]) = ret (int (length a), overwrite buf 0 a, (h @ [e]) @ [e'])"
      "fd_events [e'] = []" "wire [e'] = []" "received [e'] = []" "foreign [e'] = []"
      using recv_end [of "h @ [e]"] Cons Nil e(2) by fastforce
    then show ?thesis
      using e Cons Nil by (intro exI [of _ "[e] @ [e']"]) (simp only: socket_views, simp add: overwrite_def)
  next
    case (Cons b none)
    then have rep: "pieces = [a, b]" using \<open>pieces = a # rest\<close> two(1) by simp
    let ?buf = "overwrite (overwrite buf 0 a) (length a) b"
    obtain e' where e': "tcp_recv_loop os fd fl (overwrite buf 0 a) (int (length a)) (len - int (length a)) (int (length a))
        (h @ [e]) = tcp_recv_loop os fd fl ?buf (int (length b)) (len - int (length a) - int (length b))
          (int (length a) + int (length b)) ((h @ [e]) @ [e'])"
      "recvs_since ((h @ [e]) @ [e']) = 2" "fd_events [e'] = []" "wire [e'] = []" "received [e'] = b" "foreign [e'] = []"
      using recv_piece [OF e(2), of "int (length a)" "len - int (length a)" "overwrite buf 0 a" fd fl "int (length a)"]
        rep assms by (auto simp: numeral_2_eq_2)
    obtain e'' where "tcp_recv_loop os fd fl ?buf (int (length b)) (len - int (length a) - int (length b))
        (int (length a) + int (length b)) ((h @ [e]) @ [e']) =
        ret (int (length a) + int (length b), ?buf, ((h @ [e]) @ [e']) @ [e''])"
      "fd_events [e''] = []" "wire [e''] = []" "received [e''] = []" "foreign [e''] = []"
      using recv_end [of "(h @ [e]) @ [e']"] rep e'(2) by fastforce
    moreover have "?buf = reply @ drop (length reply) buf"
      using overwrite_append [of 0 a b buf] assms rep by (simp add: overwrite_def)
    ultimately show ?thesis
      using e e' rep by (intro exI [of _ "([e] @ [e']) @ [e'']"]) (simp only: socket_views, simp)
  qed
qed

lemma tcp_receive_flags_peer:
  assumes "tcp_good d" and "int (length reply) \<le> len" and "len < 2 ^ 31" and "len \<le> int (length buf)"
  shows "\<exists>evs. tcp_receive_flags os d buf len timeout fl h =
      ret (int (length reply), reply @ drop (length reply) buf, h @ evs) \<and>
    fd_events evs = [] \<and> wire evs = [] \<and> received evs = reply \<and> foreign evs = []"
proof -
  let ?fd = "server_socket d" and ?tv = "ms_to_timeval timeout"
  define r where "r = px_select os h False ?fd ?tv"
  have "0 < r" using ready by (simp add: r_def)
  then have "tcp_receive_flags os d buf len timeout fl h =
      tcp_recv_loop os ?fd fl buf 0 len 0 (h @ [Ev_select_read ?fd ?tv r])"
    using assms(1) by (simp add: tcp_receive_flags_def tcp_good_def sys_select_read_def Let_def r_def [symmetric])
  moreover obtain evs where "tcp_recv_loop os ?fd fl buf 0 len 0 (h @ [Ev_select_read ?fd ?tv r]) =
      ret (int (length reply), reply @ drop (length reply) buf, (h @ [Ev_select_read ?fd ?tv r]) @ evs)"
    "fd_events evs = []" "wire evs = []" "received evs = reply" "foreign evs = []"
    using recv_loop_peer [OF _ assms(2-4), of "h @ [Ev_select_read ?fd ?tv r]"] by force
  ultimately show ?thesis
    by (intro exI [of _ "[Ev_select_read ?fd ?tv r] @ evs"]) (simp only: socket_views, simp add: view_defs)
qed

lemmas tcp_receive_peer = tcp_receive_flags_peer [where fl = MSG_DONTWAIT, folded tcp_receive_def]
lemmas tcp_receive_wait_peer = tcp_receive_flags_peer [where fl = 0, folded tcp_receive_wait_def]

end

text \<open>A peer that takes up to \<open>k\<close> bytes and then the rest, and delivers \<open>a\<close> and then \<open>b\<close>, less what is empty.\<close>

definition two_pieces :: "bytes \<Rightarrow> bytes \<Rightarrow> bytes list" where
  "two_pieces a b = filter (\<lambda>p. p \<noteq> []) [a, b]"

definition paced_posix :: "nat \<Rightarrow> bytes \<Rightarrow> bytes \<Rightarrow> posix" where
  "paced_posix k a b =
     (chunk_posix 0 [])\<lparr>
       px_send := (\<lambda>h fd bs. if after_send h then int (length bs) else int (min (Suc k) (length bs))),
       px_recv := (\<lambda>h fd len fl.
         if recvs_since h < length (two_pieces a b)
         then let p = take len (two_pieces a b ! recvs_since h) in (int (length p), p)
         else (-1, []))\<rparr>"

interpretation paced: raw_peer "paced_posix k a b" "two_pieces a b" for k a b
  by unfold_locales
    (auto simp: paced_posix_def chunk_posix_def quiet_posix_def two_pieces_def FD_SETSIZE_def INADDR_NONE_def Let_def)

end
