(* ===== verification/Lxi_Raw.thy ===== *)
theory Lxi_Raw
  imports Lxi_Query Raw_Peer
begin

text \<open>
  A whole session over a raw socket: the API calls of \<^verbatim>\<open>src/src/lxi.c\<close> on the backend of \<^verbatim>\<open>src/src/tcp.c\<close>, against the
  peer of \<open>Raw_Peer\<close>, an instrument that accepts the connection, takes a message in at most two pieces and delivers its
  reply in at most two. The theorem: the instrument gets exactly the message and the caller exactly the reply, and the one
  socket that was created is closed. (With three pieces neither is true: see \<open>Tcp\<close>.)
\<close>

section \<open>A session from end to end\<close>

text \<open>
  C3. A query over a raw socket, in any state of the session table with a free entry: \<^verbatim>\<open>lxi_connect\<close> returns the
  lowest free handle; \<^verbatim>\<open>lxi_send\<close> returns the length of the message, and exactly the message was put on the
  wire; \<^verbatim>\<open>lxi_receive\<close> returns the length of the reply, which stands at the front of the buffer with
  the rest of it untouched; \<^verbatim>\<open>lxi_disconnect\<close> returns \<^verbatim>\<open>LXI_OK\<close>. One socket was created and it was closed; afterwards
  the open handles are those from before and every block of session data belongs to one of them.
\<close>

theorem raw_query:
  assumes "raw_peer (w_os w) pieces" and malloc: "w_malloc w (next_ptr st)" and inv: "lxi_inv st" "data_owned st"
    and free: "find_free (sessions st) = Some i"
    and msg: "length message < 2 ^ 31"
    and buf: "int (length (concat pieces)) \<le> len" "len < 2 ^ 31" "len \<le> int (length buf)"
  shows "\<exists>st1 st2 st3 st4 evs fd.
    lxi_connect w address port name timeout RAW st = ret (int i, st1) \<and>
    lxi_send w (int i) message (int (length message)) timeout st1 = ret (int (length message), st2) \<and>
    lxi_receive w (int i) buf len timeout st2 =
      ret (int (length (concat pieces)), concat pieces @ drop (length (concat pieces)) buf, st3) \<and>
    lxi_disconnect w (int i) st3 = ret (LXI_OK, st4) \<and>
    events st4 = events st @ evs \<and> wire evs = message \<and> received evs = concat pieces \<and>
    fd_events evs = [Ev_socket SOCK_STREAM fd, Ev_close fd] \<and>
    handles st4 = handles st \<and> lxi_inv st4 \<and> data_owned st4"
proof -
  define fd where "fd = px_socket (w_os w) (events st) SOCK_STREAM"
  let ?d = "\<lparr>server_socket = fd\<rparr>" and ?r = "concat pieces"
  have good: "tcp_good ?d" using raw_peer.socket [OF assms(1), of "events st"] by (simp add: tcp_good_def fd_def)
  obtain e1 where conn: "tcp_connect (w_os w) (Some (w_tcp_fill w)) address port name timeout (events st) =
      ret (0, Some ?d, events st @ e1)"
    "fd_events e1 = [Ev_socket SOCK_STREAM fd]" "wire e1 = []" "received e1 = []"
    using raw_peer.tcp_connect_peer [OF assms(1)] unfolding fd_def by blast
  define h1 where "h1 = events st @ e1"
  obtain e2 where send: "tcp_send (w_os w) ?d message (int (length message)) timeout h1 =
      ret (int (length message), h1 @ e2)" "fd_events e2 = []" "wire e2 = message" "received e2 = []"
    using raw_peer.tcp_send_peer [OF assms(1) good msg] by blast
  define h2 where "h2 = h1 @ e2"
  obtain e3 where recv: "tcp_receive (w_os w) ?d buf len timeout h2 = ret (int (length ?r), ?r @ drop (length ?r) buf, h2 @ e3)"
    "fd_events e3 = []" "wire e3 = []" "received e3 = ?r"
    using raw_peer.tcp_receive_peer [OF assms(1) good buf] by blast
  define h3 where "h3 = h2 @ e3"
  have run: "\<exists>st1 st2 st3 st4.
    lxi_connect w address port name timeout RAW st = ret (int i, st1) \<and>
    lxi_send w (int i) message (int (length message)) timeout st1 = ret (int (length message), st2) \<and>
    lxi_receive w (int i) buf len timeout st2 = ret (int (length ?r), ?r @ drop (length ?r) buf, st3) \<and>
    lxi_disconnect w (int i) st3 = ret (LXI_OK, st4) \<and>
    events st4 = h3 @ [Ev_close fd] \<and> handles st4 = handles st \<and> lxi_inv st4 \<and> data_owned st4"
    by (rule session_through [OF inv free malloc, where fn = Fn_tcp and x = "Tcp_cell ?d" and r = 0 and
        ?h1.0 = h1 and ?h2.0 = h2 and ?h3.0 = h3])
      (simp_all add: protocol_fn_simps fill_cell_def conn(1) send(1) recv(1) good h1_def [symmetric] h2_def [symmetric]
        h3_def [symmetric] tcp_disconnect_def sys_close_def)
  let ?e = "e1 @ e2 @ e3 @ [Ev_close fd]"
  have "h3 @ [Ev_close fd] = events st @ ?e" by (simp add: h1_def h2_def h3_def)
  moreover have "wire ?e = message" "received ?e = ?r" "fd_events ?e = [Ev_socket SOCK_STREAM fd, Ev_close fd]"
    unfolding socket_views conn(2-) send(2-) recv(2-) close_views by simp_all
  ultimately show ?thesis using run by metis
qed

theorem raw_query_witness:
  "\<exists>st1 st2 st3 st4 evs fd.
    lxi_connect (demo_world\<lparr>w_os := paced_posix 2 [79] [75, 10]\<rparr>) ''10.42.0.42'' 5025 None 1000 RAW lxi_start =
      ret (int 0, st1) \<and>
    lxi_send (demo_world\<lparr>w_os := paced_posix 2 [79] [75, 10]\<rparr>) (int 0) [42, 73, 68, 78, 63]
      (int (length [42 :: byte, 73, 68, 78, 63])) 1000 st1 = ret (int (length [42 :: byte, 73, 68, 78, 63]), st2) \<and>
    lxi_receive (demo_world\<lparr>w_os := paced_posix 2 [79] [75, 10]\<rparr>) (int 0) [0, 0, 0, 0] 4 1000 st2 =
      ret (int (length (concat (two_pieces [79] [75, 10]))),
        concat (two_pieces [79] [75, 10]) @ drop (length (concat (two_pieces [79] [75, 10]))) [0, 0, 0, 0], st3) \<and>
    lxi_disconnect (demo_world\<lparr>w_os := paced_posix 2 [79] [75, 10]\<rparr>) (int 0) st3 = ret (LXI_OK, st4) \<and>
    events st4 = events lxi_start @ evs \<and> wire evs = [42, 73, 68, 78, 63] \<and>
    received evs = concat (two_pieces [79] [75, 10]) \<and> fd_events evs = [Ev_socket SOCK_STREAM fd, Ev_close fd] \<and>
    handles st4 = handles lxi_start \<and> lxi_inv st4 \<and> data_owned st4"
proof (rule raw_query)
  show "raw_peer (w_os (demo_world\<lparr>w_os := paced_posix 2 [79] [75, 10]\<rparr>)) (two_pieces [79] [75, 10])"
    using paced.raw_peer_axioms by simp
qed (simp_all add: demo_world_def lxi_start_inv find_free_start two_pieces_def)

end
