(* ===== verification/Vxi11_discover.thy ===== *)
theory Vxi11_discover
  imports Backend
begin

text \<open>
  Discovery of VXI-11 instruments, the second half of \<^verbatim>\<open>src/src/vxi11.c\<close>: a broadcast of an RPC
  port query on every interface, and for every host that answers the identification of the
  instrument, asked over VXI-11 and, when that gives an empty answer, read from the XML document
  the instrument serves over HTTP. The XML library is the parameter \<open>xml\<close>.
\<close>

definition PORT_HTTP :: int where "PORT_HTTP = 80"
definition PORT_RPC :: int where "PORT_RPC = 111"
definition ID_LENGTH_MAX :: int where "ID_LENGTH_MAX = 65536"
definition ID_REQ_SCPI :: bytes where "ID_REQ_SCPI = str_bytes ''*IDN?'' @ [10]"
definition ID_REQ_HTTP :: bytes where
  "ID_REQ_HTTP = str_bytes ''GET /lxi/identification HTTP/1.0'' @ [13, 10, 13, 10]"

definition rpc_GETPORT_msg :: bytes where
  "rpc_GETPORT_msg =
     [0x00, 0x00, 0x03, 0xe8, 0x00, 0x00, 0x00, 0x00,
      0x00, 0x00, 0x00, 0x02, 0x00, 0x01, 0x86, 0xa0,
      0x00, 0x00, 0x00, 0x02, 0x00, 0x00, 0x00, 0x03,
      0x00, 0x00, 0x00, 0x00, 0x00, 0x00, 0x00, 0x00,
      0x00, 0x00, 0x00, 0x00, 0x00, 0x00, 0x00, 0x00,
      0x00, 0x06, 0x07, 0xaf, 0x00, 0x00, 0x00, 0x01,
      0x00, 0x00, 0x00, 0x06, 0x00, 0x00, 0x00, 0x00]"

section \<open>The identification document\<close>

text \<open>
  What the XML library gives of a document: the children of the root element (\<open>None\<close> when there is
  no root), each with its name and the text of its content (\<open>None\<close> when it has none). A text that
  cannot be read gives no document.
\<close>

record xml_node =
  xn_name :: string
  xn_text :: "bytes option"

record xml_doc =
  xd_root :: "xml_node list option"

type_synonym xml = "bytes \<Rightarrow> xml_doc option"

fun find_element :: "string \<Rightarrow> xml_node list \<Rightarrow> bytes option" where
  "find_element element [] = None"
| "find_element element (node # nodes) =
     (if xn_name node = element then xn_text node else find_element element nodes)"

definition get_element_value :: "xml_doc \<Rightarrow> string \<Rightarrow> bytes option c" where
  "get_element_value doc element =
     (case xd_root doc of None \<Rightarrow> fail Null_Deref | Some nodes \<Rightarrow> ret (find_element element nodes))"

text \<open>\<^verbatim>\<open>strstr\<close> on the text up to the terminator, and \<^verbatim>\<open>strcat\<close> into a buffer.\<close>

fun strstr :: "bytes \<Rightarrow> bytes \<Rightarrow> bytes option" where
  "strstr [] needle = (if needle = [] then Some [] else None)"
| "strstr (b # bs) needle =
     (if take (length needle) (b # bs) = needle then Some (b # bs) else strstr bs needle)"

definition strcat :: "bytes \<Rightarrow> bytes option \<Rightarrow> bytes c" where
  "strcat buf src =
     (case src of
        None \<Rightarrow> fail Null_Deref
      | Some s \<Rightarrow> cbind (c_string buf)
          (\<lambda>t. buf_write buf (int (length t)) (takeWhile (\<lambda>b. b \<noteq> 0) s @ [0])))"

definition append_element :: "xml_doc \<Rightarrow> string \<Rightarrow> bytes \<Rightarrow> bytes c" where
  "append_element doc element buf = cbind (get_element_value doc element) (strcat buf)"

definition assemble_id :: "xml_doc \<Rightarrow> bytes \<Rightarrow> bytes c" where
  "assemble_id doc buf =
     cbind (buf_write buf 0 [0]) (\<lambda>buf.
     cbind (append_element doc ''Manufacturer'' buf) (\<lambda>buf.
     cbind (strcat buf (Some (str_bytes '',''))) (\<lambda>buf.
     cbind (append_element doc ''Model'' buf) (\<lambda>buf.
     cbind (strcat buf (Some (str_bytes '',''))) (\<lambda>buf.
     cbind (append_element doc ''SerialNumber'' buf) (\<lambda>buf.
     cbind (strcat buf (Some (str_bytes '',''))) (\<lambda>buf.
     append_element doc ''FirmwareRevision'' buf)))))))"

section \<open>The identification of one instrument\<close>

text \<open>The outside world of discovery, with what the uninitialised locals happen to hold.\<close>

record lan =
  l_os :: posix
  l_net :: rpc
  l_lib :: xdr_lib
  l_th :: threads
  l_xml :: xml
  l_vxi11_stack :: vxi11_data
  l_tcp_stack :: tcp_data
  l_response_stack :: bytes
  l_id_stack :: bytes

text \<open>The fallback over HTTP; results of the four TCP calls are not looked at.\<close>

definition http_id :: "lan \<Rightarrow> string \<Rightarrow> bytes \<Rightarrow> int \<Rightarrow> hist \<Rightarrow> (int \<times> bytes \<times> hist) c" where
  "http_id net address buf timeout h =
     (let h = h @ [Ev_stderr_mute] in
      cbind (tcp_connect (l_os net) (Some (l_tcp_stack net)) address PORT_HTTP None timeout h)
        (\<lambda>(_, data, h).
          case data of
            None \<Rightarrow> fail Null_Deref
          | Some t \<Rightarrow>
              cbind (tcp_send (l_os net) t ID_REQ_HTTP (int (length ID_REQ_HTTP)) timeout h) (\<lambda>(_, h).
              cbind (tcp_receive_wait (l_os net) t (l_response_stack net) 4096 timeout h)
                (\<lambda>(_, response, h).
              let (_, h) = tcp_disconnect t h in
              cbind (c_string response) (\<lambda>response.
              case strstr response (str_bytes ''<?xml'') of
                None \<Rightarrow> ret (-1, buf, h @ [Ev_stderr_restore])
              | Some response_xml \<Rightarrow>
                  (case l_xml net response_xml of
                     None \<Rightarrow> ret (-1, buf, h @ [Ev_stderr_restore])
                   | Some doc \<Rightarrow> cbind (assemble_id doc buf) (\<lambda>buf. ret (0, buf, h))))))))"

text \<open>The end of the string: a newline, then a carriage return in front of it, are cut off.\<close>

definition strip_eol :: "bytes \<Rightarrow> int \<Rightarrow> bytes c" where
  "strip_eol buf len =
     cbind (buf_read buf (len - 1)) (\<lambda>ch.
     cbind (if ch = 10 then cbind (buf_write buf (len - 1) [0]) (\<lambda>buf. ret (buf, len - 1)) else ret (buf, len))
       (\<lambda>(buf, len).
     cbind (buf_read buf (len - 1)) (\<lambda>ch.
     if ch = 13 then buf_write buf (len - 1) [0] else ret buf)))"

definition get_device_id :: "lan \<Rightarrow> string \<Rightarrow> bytes \<Rightarrow> int \<Rightarrow> hist \<Rightarrow> (int \<times> bytes \<times> hist) c" where
  "get_device_id net address buf timeout h =
     cbind (vxi11_connect (l_net net) (l_lib net) (l_th net) (Some (l_vxi11_stack net)) address 0 None timeout h)
       (\<lambda>(device, data, h).
         if device < 0 then ret (-1, buf, h)
         else case data of
           None \<Rightarrow> fail Null_Deref
         | Some d \<Rightarrow>
             cbind (vxi11_send (l_net net) (l_lib net) d ID_REQ_SCPI (int (length ID_REQ_SCPI)) timeout h)
               (\<lambda>(len, h).
             if len < 0
             then cbind (vxi11_disconnect (l_net net) (l_lib net) d h) (\<lambda>(_, h). ret (-1, buf, h))
             else cbind (vxi11_receive (l_net net) (l_lib net) d buf ID_LENGTH_MAX timeout h)
               (\<lambda>(len, buf, h).
             if len < 0
             then cbind (vxi11_disconnect (l_net net) (l_lib net) d h) (\<lambda>(_, h). ret (-1, buf, h))
             else cbind (vxi11_disconnect (l_net net) (l_lib net) d h) (\<lambda>(_, h).
             cbind (buf_write buf len [0]) (\<lambda>buf.
             if 0 < len then cbind (strip_eol buf len) (\<lambda>buf. ret (0, buf, h))
             else http_id net address buf timeout h)))))"

section \<open>Broadcast\<close>

partial_function (option) answers_loop ::
    "lan \<Rightarrow> int \<Rightarrow> lxi_info \<Rightarrow> bytes \<Rightarrow> int \<Rightarrow> hist \<Rightarrow> hist c" where
  "answers_loop net sockfd info buf timeout h =
     (case sys_recvfrom (l_os net) sockfd (nat ID_LENGTH_MAX) h of
        (count, from, h) \<Rightarrow>
          if 0 < count
          then (case get_device_id net (px_inet_ntoa (l_os net) from) buf timeout h of
                  None \<Rightarrow> None
                | Some (Inl e) \<Rightarrow> fail e
                | Some (Inr (r, buf, h)) \<Rightarrow>
                    answers_loop net sockfd info buf timeout
                      (if r = 0 \<and> info_device info
                       then h @ [Cb_device (px_inet_ntoa (l_os net) from) (takeWhile (\<lambda>b. b \<noteq> 0) buf)]
                       else h))
          else ret h)"

definition discover_devices :: "lan \<Rightarrow> 32 word option \<Rightarrow> lxi_info \<Rightarrow> int \<Rightarrow> hist \<Rightarrow> (int \<times> hist) c" where
  "discover_devices net broadcast_addr info timeout h =
     (let (sockfd, h) = sys_socket (l_os net) SOCK_DGRAM h in
      if sockfd = -1 then ret (-1, h)
      else let (r, h) = sys_setsockopt (l_os net) sockfd SO_BROADCAST h in
      if r = -1 then ret (-1, h @ [Ev_shutdown sockfd])
      else let (r, h) = sys_setsockopt (l_os net) sockfd (SO_RCVTIMEO (ms_to_timeval timeout)) h in
      if r = -1 then ret (-1, h @ [Ev_shutdown sockfd])
      else let h = h @ [Ev_bind sockfd] in
      case broadcast_addr of
        None \<Rightarrow> fail Null_Deref
      | Some a \<Rightarrow>
          let h = h @ [Ev_sendto sockfd rpc_GETPORT_msg \<lparr>sin_port = word_of_int PORT_RPC, s_addr = a\<rparr>] in
          cbind (answers_loop net sockfd info (l_id_stack net) timeout h) (\<lambda>h. ret (0, h)))"

fun discover_ifs :: "lan \<Rightarrow> lxi_info \<Rightarrow> int \<Rightarrow> ifaddrs list \<Rightarrow> hist \<Rightarrow> hist c" where
  "discover_ifs net info timeout [] h = ret h"
| "discover_ifs net info timeout (ifa # ifas) h =
     (case (ifa_family ifa, ifa_broadaddr ifa) of
        (Some family, Some a) \<Rightarrow>
          if family = AF_INET
          then
            let h = (case ifa_name ifa of
                       Some name \<Rightarrow> if info_broadcast info then h @ [Cb_broadcast (px_inet_ntoa (l_os net) a) name] else h
                     | None \<Rightarrow> h)
            in cbind (discover_devices net (Some a) info timeout h)
                 (\<lambda>(_, h). discover_ifs net info timeout ifas h)
          else discover_ifs net info timeout ifas h
      | _ \<Rightarrow> discover_ifs net info timeout ifas h)"

definition vxi11_discover :: "lan \<Rightarrow> lxi_info \<Rightarrow> int \<Rightarrow> hist \<Rightarrow> (int \<times> hist) c" where
  "vxi11_discover net info timeout h =
     (case sys_getifaddrs (l_os net) h of
        (None, h) \<Rightarrow> ret (0, h)
      | (Some ifas, h) \<Rightarrow>
          cbind (discover_ifs net info timeout ifas h) (\<lambda>h. ret (0, h @ [Ev_freeifaddrs])))"

fun discover_named_ifs ::
    "lan \<Rightarrow> lxi_info \<Rightarrow> string \<Rightarrow> int \<Rightarrow> ifaddrs list \<Rightarrow> int \<Rightarrow> hist \<Rightarrow> (int \<times> hist) c" where
  "discover_named_ifs net info ifname timeout [] status h = ret (status, h)"
| "discover_named_ifs net info ifname timeout (ifa # ifas) status h =
     (if ifa_family ifa = Some AF_INET
      then (case ifa_name ifa of
              None \<Rightarrow> fail Null_Deref
            | Some name \<Rightarrow>
                if name = ifname
                then cbind (if info_broadcast info
                            then (case ifa_broadaddr ifa of
                                    None \<Rightarrow> fail Null_Deref
                                  | Some a \<Rightarrow> ret (h @ [Cb_broadcast (px_inet_ntoa (l_os net) a) name]))
                            else ret h)
                       (\<lambda>h. cbind (discover_devices net (ifa_broadaddr ifa) info timeout h)
                         (\<lambda>(status, h). discover_named_ifs net info ifname timeout ifas status h))
                else discover_named_ifs net info ifname timeout ifas status h)
      else discover_named_ifs net info ifname timeout ifas status h)"

definition vxi11_discover_if :: "lan \<Rightarrow> lxi_info \<Rightarrow> string \<Rightarrow> int \<Rightarrow> hist \<Rightarrow> (int \<times> hist) c" where
  "vxi11_discover_if net info ifname timeout h =
     (case sys_getifaddrs (l_os net) h of
        (None, h) \<Rightarrow> ret (0, h)
      | (Some ifas, h) \<Rightarrow>
          cbind (discover_named_ifs net info ifname timeout ifas 0 h)
            (\<lambda>(status, h). ret (status, h @ [Ev_freeifaddrs])))"

section \<open>Strings in buffers\<close>

lemma c_string_iff: "c_string buf = ret t \<longleftrightarrow> (\<exists>rest. buf = t @ 0 # rest) \<and> 0 \<notin> set t"
proof
  assume a: "c_string buf = ret t"
  then have z: "0 \<in> set buf" and t: "t = takeWhile (\<lambda>b. b \<noteq> 0) buf"
    by (auto simp: c_string_def split: if_splits)
  then have "dropWhile (\<lambda>b. b \<noteq> 0) buf \<noteq> []" by auto
  then obtain c rest where d: "dropWhile (\<lambda>b. b \<noteq> 0) buf = c # rest" by (cases "dropWhile (\<lambda>b. b \<noteq> 0) buf") auto
  then have "c = 0" using hd_dropWhile [of "\<lambda>b. b \<noteq> 0" buf] by auto
  then have "buf = t @ 0 # rest" using d t takeWhile_dropWhile_id [of "\<lambda>b. b \<noteq> 0" buf] by simp
  moreover have "0 \<notin> set t" unfolding t by (auto dest: set_takeWhileD)
  ultimately show "(\<exists>rest. buf = t @ 0 # rest) \<and> 0 \<notin> set t" by blast
next
  assume "(\<exists>rest. buf = t @ 0 # rest) \<and> 0 \<notin> set t"
  moreover have "0 \<notin> set t \<Longrightarrow> takeWhile (\<lambda>b. b \<noteq> 0) (t @ 0 # rest) = t" for rest
    by (induction t) auto
  ultimately show "c_string buf = ret t" by (auto simp: c_string_def)
qed

lemma strcat_ok:
  assumes "c_string buf = ret t" and "0 \<notin> set s" and "length t + length s < length buf"
  shows "\<exists>buf'. strcat buf (Some s) = ret buf' \<and> c_string buf' = ret (t @ s) \<and> length buf' = length buf"
proof -
  obtain rest where buf: "buf = t @ 0 # rest" and t: "0 \<notin> set t" using assms(1) c_string_iff by blast
  have s: "takeWhile (\<lambda>b. b \<noteq> 0) s = s" using assms(2) by (auto simp: takeWhile_eq_all_conv)
  let ?buf = "overwrite buf (length t) (s @ [0])"
  have "strcat buf (Some s) = ret ?buf"
    unfolding strcat_def assms(1) option.case cbind_simps s using assms(3) by (simp add: buf_write_def)
  moreover have "c_string ?buf = ret (t @ s)"
    unfolding c_string_iff using t assms(2) buf by (auto simp: overwrite_def)
  ultimately show ?thesis using assms(3) by simp
qed

text \<open>
  The identification assembled from the XML document: when the document has the four elements
  and the result fits, it is the manufacturer, model, serial number and firmware revision, separated
  by commas, as a terminated string in the caller's buffer.
\<close>

lemma assemble_id_text:
  assumes "xd_root doc = Some nodes"
    and "find_element ''Manufacturer'' nodes = Some a" and "find_element ''Model'' nodes = Some b"
    and "find_element ''SerialNumber'' nodes = Some c" and "find_element ''FirmwareRevision'' nodes = Some d"
    and "0 \<notin> set (a @ b @ c @ d)" and "length (a @ b @ c @ d) + 3 < length buf"
  shows "\<exists>buf'. assemble_id doc buf = ret buf' \<and> length buf' = length buf \<and>
    c_string buf' = ret (a @ [44] @ b @ [44] @ c @ [44] @ d)"
proof -
  have el: "append_element doc ''Manufacturer'' = (\<lambda>buf. strcat buf (Some a))"
    "append_element doc ''Model'' = (\<lambda>buf. strcat buf (Some b))"
    "append_element doc ''SerialNumber'' = (\<lambda>buf. strcat buf (Some c))"
    "append_element doc ''FirmwareRevision'' = (\<lambda>buf. strcat buf (Some d))"
    using assms(1-5) by (simp_all add: append_element_def get_element_value_def fun_eq_iff)
  have comma: "str_bytes '','' = [44]" by (simp add: str_bytes_def)
  have nz: "0 \<notin> set a" "0 \<notin> set b" "0 \<notin> set c" "0 \<notin> set d" "0 \<notin> set [44 :: byte]"
    using assms(6) by simp_all
  obtain b0 where 0: "buf_write buf 0 [0] = ret b0" "c_string b0 = ret []" "length b0 = length buf"
    using assms(7) by (cases buf) (auto simp: buf_write_def overwrite_def c_string_iff)
  obtain b1 where 1: "strcat b0 (Some a) = ret b1" "c_string b1 = ret a" "length b1 = length buf"
    using strcat_ok [OF 0(2) nz(1)] 0(3) assms(7) by auto
  obtain b2 where 2: "strcat b1 (Some [44]) = ret b2" "c_string b2 = ret (a @ [44])" "length b2 = length buf"
    using strcat_ok [OF 1(2) nz(5)] 1(3) assms(7) by auto
  obtain b3 where 3: "strcat b2 (Some b) = ret b3" "c_string b3 = ret ((a @ [44]) @ b)" "length b3 = length buf"
    using strcat_ok [OF 2(2) nz(2)] 2(3) assms(7) by auto
  obtain b4 where 4: "strcat b3 (Some [44]) = ret b4" "c_string b4 = ret (((a @ [44]) @ b) @ [44])" "length b4 = length buf"
    using strcat_ok [OF 3(2) nz(5)] 3(3) assms(7) by auto
  obtain b5 where 5: "strcat b4 (Some c) = ret b5" "c_string b5 = ret ((((a @ [44]) @ b) @ [44]) @ c)" "length b5 = length buf"
    using strcat_ok [OF 4(2) nz(3)] 4(3) assms(7) by auto
  obtain b6 where 6: "strcat b5 (Some [44]) = ret b6" "c_string b6 = ret (((((a @ [44]) @ b) @ [44]) @ c) @ [44])" "length b6 = length buf"
    using strcat_ok [OF 5(2) nz(5)] 5(3) assms(7) by auto
  obtain b7 where 7: "strcat b6 (Some d) = ret b7" "c_string b7 = ret ((((((a @ [44]) @ b) @ [44]) @ c) @ [44]) @ d)" "length b7 = length buf"
    using strcat_ok [OF 6(2) nz(4)] 6(3) assms(7) by auto
  have "assemble_id doc buf = ret b7"
    by (simp add: assemble_id_def el comma 0 1 2 3 4 5 6 7)
  then show ?thesis using 7 by simp
qed

text \<open>
  A document without one of the elements crashes discovery: the value that is not there is
  appended all the same, through a null pointer. So does a document without a root element.
\<close>

lemma assemble_id_missing_element:
  assumes "xd_root doc = None \<or> (\<exists>nodes. xd_root doc = Some nodes \<and> find_element ''Manufacturer'' nodes = None)"
    and "buf \<noteq> []"
  shows "assemble_id doc buf = fail Null_Deref"
proof -
  obtain b0 where "buf_write buf 0 [0] = ret b0" using assms(2) by (cases buf) (auto simp: buf_write_def)
  then show ?thesis
    using assms(1) by (auto simp: assemble_id_def append_element_def get_element_value_def strcat_def)
qed

text \<open>The answer of an instrument without its end of line.\<close>

definition strip :: "bytes \<Rightarrow> bytes" where
  "strip s =
     (let s = (if last s = 10 then butlast s else s)
      in if s \<noteq> [] \<and> last s = 13 then butlast s else s)"

lemma buf_read_last:
  "s \<noteq> [] \<Longrightarrow> buf_read (s @ rest) (int (length s) - 1) = ret (last s)"
  by (cases s rule: rev_cases) (auto simp: buf_read_def nat_add_distrib)

lemma buf_write_last:
  "s \<noteq> [] \<Longrightarrow> buf_write (s @ rest) (int (length s) - 1) [0] = ret (butlast s @ 0 # rest)"
  by (cases s rule: rev_cases) (auto simp: buf_write_def overwrite_def nat_add_distrib)

lemma strip_eol_correct:
  assumes "s \<noteq> []" and "s \<noteq> [10]"
  shows "\<exists>rest'. strip_eol (s @ 0 # rest) (int (length s)) = ret (strip s @ 0 # rest') \<and> length (strip s @ 0 # rest') = length (s @ 0 # rest)"
proof -
  define t where "t = (if last s = 10 then butlast s else s)"
  define rest1 where "rest1 = (if last s = 10 then 0 # rest else rest)"
  have t: "t \<noteq> []" using assms by (cases s rule: rev_cases) (auto simp: t_def)
  have len: "length t + length rest1 = length s + length rest"
    using assms(1) by (auto simp: t_def rest1_def)
  have 1: "(if last s = 10 then cbind (buf_write (s @ 0 # rest) (int (length s) - 1) [0])
        (\<lambda>buf. ret (buf, int (length s) - 1)) else ret (s @ 0 # rest, int (length s))) =
      ret (t @ 0 # rest1, int (length t))"
    using assms(1) buf_write_last [OF assms(1), of "0 # rest"] by (simp add: t_def rest1_def of_nat_diff Suc_le_eq)
  have 2: "strip_eol (s @ 0 # rest) (int (length s)) =
      (if last t = 13 then ret (butlast t @ 0 # 0 # rest1) else ret (t @ 0 # rest1))"
    unfolding strip_eol_def buf_read_last [OF assms(1)] cbind_simps 1
    using buf_read_last [OF t] buf_write_last [OF t] by simp
  have 3: "strip s = (if last t = 13 then butlast t else t)"
    using t by (simp add: strip_def t_def Let_def)
  have "length (butlast t) + 1 = length t" using t by (cases t rule: rev_cases) auto
  then show ?thesis
    using 2 3 t len by (cases "last t = 13") (auto simp del: length_butlast intro!: exI [of _ "0 # rest1"] exI [of _ rest1])
qed

section \<open>The broadcast message\<close>

text \<open>
  The bytes the source spells out for the broadcast are the XDR encoding of an RPC version 2 call
  of the port mapper's procedure GETPORT (program 100000, version 2, procedure 3), without
  credentials, that asks for the TCP port of the VXI-11 core program and version the stubs use.
\<close>

lemma getport_msg_layout:
  "rpc_GETPORT_msg = concat (map be32
     [1000, 0, 2, 100000, 2, 3, 0, 0, 0, 0, of_nat DEVICE_CORE, of_nat DEVICE_CORE_VERSION, 6, 0])"
  by (simp add: rpc_GETPORT_msg_def be32_def DEVICE_CORE_def DEVICE_CORE_VERSION_def)

end
