(* ===== verification/Vxi11_network.thy ===== *)
theory Vxi11_network
  imports Vxi11_discover Raw_Peer
begin

text \<open>
  VXI-11 discovery on a network of instruments. The locale \<open>idn_network\<close> says what the RPC library gives
  discovery on a local network where each host either refuses the connection or answers \<^verbatim>\<open>*IDN?\<close> with a text of
  its own; \<open>answering\<close> says which hosts answer a broadcast. The theorems: the identification of each
  instrument, over VXI-11 and over HTTP, and the list of instruments a discovery reports.
\<close>

section \<open>A network of instruments\<close>

text \<open>The host a client handle stands for: the one it was created for last.\<close>

definition client_host :: "hist \<Rightarrow> nat \<Rightarrow> string option" where
  "client_host h cl =
     fold (\<lambda>e host. case e of Ev_clnt_create a _ _ (Some c) \<Rightarrow> if c = cl then Some a else host | _ \<Rightarrow> host) h None"

lemma client_host_simps [simp]:
  "client_host (h @ [Ev_clnt_create a prog vers (Some cl)]) cl = Some a"
  "client_host (h @ [Ev_clnt_call c proc arg stat res]) cl = client_host h cl"
  by (simp_all add: client_host_def)

locale idn_network =
  fixes net :: lan and idn :: "string \<Rightarrow> bytes option"
  assumes scheduler: "joins_at_once (l_th net)"
    and creates: "rpc_create (l_net net) h host DEVICE_CORE DEVICE_CORE_VERSION ''tcp'' = None \<longleftrightarrow> idn host = None"
    and links: "\<exists>r. rpc_call (l_net net) h cl create_link xa (Obj_Create_LinkParms lp) xr (Obj_Create_LinkResp lr) tv =
      (RPC_SUCCESS, Obj_Create_LinkResp r)"
    and writes: "\<exists>r. rpc_call (l_net net) h cl device_write xa (Obj_Device_WriteParms wp) xr (Obj_Device_WriteResp wr) tv =
      (RPC_SUCCESS, Obj_Device_WriteResp r) \<and> dwr_size r = op_len (dwp_data wp)"
    and reads: "client_host h cl = Some host \<Longrightarrow> idn host = Some reply \<Longrightarrow>
      length reply \<le> unat (drp_requestSize rp) \<Longrightarrow>
      \<exists>r. rpc_call (l_net net) h cl device_read xa (Obj_Device_ReadParms rp) xr (Obj_Device_ReadResp rr) tv =
        (RPC_SUCCESS, Obj_Device_ReadResp r) \<and> drr_error r = 0 \<and> drr_reason r \<noteq> 0 \<and>
        drr_data r = \<lparr>op_len = of_nat (length reply), op_val = Some reply\<rparr>"
    and stack: "length (l_id_stack net) = 65536" "length (l_response_stack net) = 4096"

text \<open>Events of the RPC library and of threads, and nothing else.\<close>

fun rpc_event :: "event \<Rightarrow> bool" where
  "rpc_event Ev_thread_start = True"
| "rpc_event (Ev_status_alloc _) = True"
| "rpc_event (Ev_clnt_create _ _ _ _) = True"
| "rpc_event (Ev_clnt_call _ _ _ _ _) = True"
| "rpc_event (Ev_clnt_destroy _) = True"
| "rpc_event _ = False"

text \<open>The reply that is asked for fits the buffer.\<close>

lemma idn_request [simp]: "unat (drp_requestSize (read_params lid ID_LENGTH_MAX timeout)) = 65536"
  using unat_request [of ID_LENGTH_MAX] by (simp add: read_params_def ID_LENGTH_MAX_def)

context idn_network
begin

text \<open>The stubs on such a network.\<close>

lemma link_stub:
  "\<exists>r. create_link_1 (l_net net) lib lp lr (Some cl) h =
    ret (RPC_SUCCESS, r, h @ [Ev_clnt_call cl create_link (Obj_Create_LinkParms lp) RPC_SUCCESS (Obj_Create_LinkResp r)])"
proof -
  obtain r where "rpc_call (l_net net) h cl create_link (xdrproc_Create_LinkParms lib) (Obj_Create_LinkParms lp)
      (xdrproc_Create_LinkResp lib) (Obj_Create_LinkResp lr) TIMEOUT = (RPC_SUCCESS, Obj_Create_LinkResp r)"
    using links by blast
  then show ?thesis by (simp add: create_link_1_def call_stub_Some)
qed

lemma write_stub:
  "\<exists>r. device_write_1 (l_net net) lib wp wr (Some cl) h =
    ret (RPC_SUCCESS, r, h @ [Ev_clnt_call cl device_write (Obj_Device_WriteParms wp) RPC_SUCCESS (Obj_Device_WriteResp r)]) \<and>
    dwr_size r = op_len (dwp_data wp)"
proof -
  obtain r where "rpc_call (l_net net) h cl device_write (xdrproc_Device_WriteParms lib) (Obj_Device_WriteParms wp)
      (xdrproc_Device_WriteResp lib) (Obj_Device_WriteResp wr) TIMEOUT = (RPC_SUCCESS, Obj_Device_WriteResp r)"
    "dwr_size r = op_len (dwp_data wp)"
    using writes by blast
  then show ?thesis by (simp add: device_write_1_def call_stub_Some)
qed

lemma read_stub:
  assumes "client_host h cl = Some host" and "idn host = Some reply" and "length reply \<le> unat (drp_requestSize rp)"
  shows "\<exists>r. device_read_1 (l_net net) lib rp rr (Some cl) h =
    ret (RPC_SUCCESS, r, h @ [Ev_clnt_call cl device_read (Obj_Device_ReadParms rp) RPC_SUCCESS (Obj_Device_ReadResp r)]) \<and>
    drr_error r = 0 \<and> drr_reason r \<noteq> 0 \<and> drr_data r = \<lparr>op_len = of_nat (length reply), op_val = Some reply\<rparr>"
proof -
  obtain r where "rpc_call (l_net net) h cl device_read (xdrproc_Device_ReadParms lib) (Obj_Device_ReadParms rp)
      (xdrproc_Device_ReadResp lib) (Obj_Device_ReadResp rr) TIMEOUT = (RPC_SUCCESS, Obj_Device_ReadResp r)"
    "drr_error r = 0" "drr_reason r \<noteq> 0" "drr_data r = \<lparr>op_len = of_nat (length reply), op_val = Some reply\<rparr>"
    using reads [OF assms] by blast
  then show ?thesis by (simp add: device_read_1_def call_stub_Some)
qed

text \<open>The operations of the backend on such a network.\<close>

lemma connect_refused:
  assumes "idn address = None"
  shows "\<exists>d new. vxi11_connect (l_net net) (l_lib net) (l_th net) (Some d0) address 0 None timeout h =
    ret (-1, Some d, h @ new) \<and> list_all rpc_event new"
  unfolding vxi11_connect_joined [OF scheduler]
  using creates [of _ address] assms by (simp add: do_vxi11_connect_def sys_clnt_create_def Let_def)

lemma connect_accepted:
  assumes "idn address \<noteq> None"
  shows "\<exists>d cl new. vxi11_connect (l_net net) (l_lib net) (l_th net) (Some d0) address 0 None timeout h =
    ret (0, Some d, h @ new) \<and> rpc_client d = Some cl \<and> client_host (h @ new) cl = Some address \<and>
    list_all rpc_event new \<and> (\<forall>x. clients_open new x = (if x = cl then 1 else 0))"
proof -
  let ?h = "h @ [Ev_thread_start, Ev_status_alloc True]"
  obtain cl where cl: "rpc_create (l_net net) ?h address DEVICE_CORE DEVICE_CORE_VERSION ''tcp'' = Some cl"
    using creates [of ?h address] assms by blast
  let ?h1 = "?h @ [Ev_clnt_create address DEVICE_CORE DEVICE_CORE_VERSION (Some cl)]"
  obtain r where r: "create_link_1 (l_net net) (l_lib net) (link_params cl None) (link_resp d0) (Some cl) ?h1 =
      ret (RPC_SUCCESS, r, ?h1 @ [Ev_clnt_call cl create_link (Obj_Create_LinkParms (link_params cl None)) RPC_SUCCESS
        (Obj_Create_LinkResp r)])"
    using link_stub by blast
  have "client_host (?h1 @ [Ev_clnt_call cl create_link (Obj_Create_LinkParms (link_params cl None)) RPC_SUCCESS
        (Obj_Create_LinkResp r)]) cl = Some address"
    by (simp only: client_host_simps)
  then show ?thesis
    unfolding vxi11_connect_joined [OF scheduler]
    using cl r by (cases d0) (auto simp: do_vxi11_connect_def sys_clnt_create_def Let_def)
qed

lemma ask:
  assumes "rpc_client d = Some cl"
  shows "\<exists>ev. vxi11_send (l_net net) (l_lib net) d ID_REQ_SCPI (int (length ID_REQ_SCPI)) timeout h =
    ret (6, h @ [ev]) \<and> rpc_event ev \<and> (\<forall>x. client_change ev x = 0) \<and> client_host (h @ [ev]) cl' = client_host h cl'"
proof -
  have len: "int (length ID_REQ_SCPI) = 6" by (simp add: ID_REQ_SCPI_def str_bytes_def)
  have slice: "buf_slice ID_REQ_SCPI 0 (uint (word_of_int 6 :: 32 word)) = ret ID_REQ_SCPI"
    by (simp add: buf_slice_def ID_REQ_SCPI_def str_bytes_def)
  let ?p = "write_params (clr_lid (link_resp d)) ID_REQ_SCPI 6 timeout"
  obtain r where "device_write_1 (l_net net) (l_lib net) ?p \<lparr>dwr_error = 0, dwr_size = 0\<rparr> (Some cl) h =
      ret (RPC_SUCCESS, r, h @ [Ev_clnt_call cl device_write (Obj_Device_WriteParms ?p) RPC_SUCCESS (Obj_Device_WriteResp r)])"
    "dwr_size r = op_len (dwp_data ?p)"
    using write_stub by blast
  then show ?thesis unfolding len using assms slice by (simp add: vxi11_send_def write_params_def)
qed

lemma answer:
  assumes "rpc_client d = Some cl" and "client_host h cl = Some host" and "idn host = Some reply"
    and "length reply \<le> 65536" and "length buf = 65536"
  shows "\<exists>ev. vxi11_receive (l_net net) (l_lib net) d buf ID_LENGTH_MAX timeout h =
    ret (int (length reply), reply @ drop (length reply) buf, h @ [ev]) \<and> rpc_event ev \<and> (\<forall>x. client_change ev x = 0)"
proof -
  let ?p = "read_params (clr_lid (link_resp d)) ID_LENGTH_MAX timeout"
  obtain r where read: "device_read_1 (l_net net) (l_lib net) ?p (read_resp0 buf 0) (Some cl) h =
      ret (RPC_SUCCESS, r, h @ [Ev_clnt_call cl device_read (Obj_Device_ReadParms ?p) RPC_SUCCESS (Obj_Device_ReadResp r)])"
    "drr_error r = 0" "drr_reason r \<noteq> 0" "drr_data r = \<lparr>op_len = of_nat (length reply), op_val = Some reply\<rparr>"
    using read_stub [OF assms(2,3), of ?p] assms(4) by auto
  have "vxi11_receive (l_net net) (l_lib net) d buf ID_LENGTH_MAX timeout h = ret (int (length reply),
      reply @ drop (length reply) buf, h @ [Ev_clnt_call cl device_read (Obj_Device_ReadParms ?p) RPC_SUCCESS (Obj_Device_ReadResp r)])"
    using assms read by (intro vxi11_receive_single) (simp_all add: ID_LENGTH_MAX_def)
  then show ?thesis by simp
qed

text \<open>Identification over VXI-11, up to what is done with the answer.\<close>

lemma get_device_id_refused:
  assumes "idn address = None"
  shows "\<exists>new. get_device_id net address buf timeout h = ret (-1, buf, h @ new) \<and> list_all rpc_event new"
  using connect_refused [OF assms, of "l_vxi11_stack net" timeout h] by (auto simp: get_device_id_def)

lemma get_device_id_answered:
  assumes "idn address = Some reply" and "length reply \<le> 65536" and "length buf = 65536"
  shows "\<exists>new. get_device_id net address buf timeout h =
      cbind (buf_write (reply @ drop (length reply) buf) (int (length reply)) [0])
        (\<lambda>buf. if reply \<noteq> [] then cbind (strip_eol buf (int (length reply))) (\<lambda>buf. ret (0, buf, h @ new))
               else http_id net address buf timeout (h @ new)) \<and>
    list_all rpc_event new \<and> (\<forall>x. clients_open new x = 0)"
proof -
  obtain d cl n1 where 1: "vxi11_connect (l_net net) (l_lib net) (l_th net) (Some (l_vxi11_stack net)) address 0 None
      timeout h = ret (0, Some d, h @ n1)" and d: "rpc_client d = Some cl"
    and host: "client_host (h @ n1) cl = Some address"
    and n1: "list_all rpc_event n1" "\<forall>x. clients_open n1 x = (if x = cl then 1 else 0)"
    using connect_accepted assms(1) by (metis option.distinct(1))
  obtain e2 where 2: "vxi11_send (l_net net) (l_lib net) d ID_REQ_SCPI (int (length ID_REQ_SCPI)) timeout (h @ n1) =
      ret (6, (h @ n1) @ [e2])" "rpc_event e2" "\<forall>x. client_change e2 x = 0"
    "client_host ((h @ n1) @ [e2]) cl = client_host (h @ n1) cl"
    using ask [OF d] by blast
  obtain e3 where 3: "vxi11_receive (l_net net) (l_lib net) d buf ID_LENGTH_MAX timeout ((h @ n1) @ [e2]) =
      ret (int (length reply), reply @ drop (length reply) buf, ((h @ n1) @ [e2]) @ [e3])" "rpc_event e3"
    "\<forall>x. client_change e3 x = 0"
    using answer [OF d _ assms] 2(4) host by metis
  obtain new where 4: "vxi11_disconnect (l_net net) (l_lib net) d (((h @ n1) @ [e2]) @ [e3]) = ret (0, h @ new)"
    and new: "list_all rpc_event new" "\<forall>x. clients_open new x = 0"
  proof -
    obtain st res where "vxi11_disconnect (l_net net) (l_lib net) d (((h @ n1) @ [e2]) @ [e3]) =
        ret (0, (((h @ n1) @ [e2]) @ [e3]) @
          [Ev_clnt_call cl destroy_link (Obj_Device_Link (clr_lid (link_resp d))) st res, Ev_clnt_destroy cl])"
      using vxi11_disconnect_returns [OF d] by blast
    then show thesis
      using n1 2(2,3) 3(2,3)
      by (intro that [of "n1 @ [e2, e3, Ev_clnt_call cl destroy_link (Obj_Device_Link (clr_lid (link_resp d))) st res,
            Ev_clnt_destroy cl]"]) simp_all
  qed
  have "get_device_id net address buf timeout h =
      cbind (buf_write (reply @ drop (length reply) buf) (int (length reply)) [0])
        (\<lambda>buf. if reply \<noteq> [] then cbind (strip_eol buf (int (length reply))) (\<lambda>buf. ret (0, buf, h @ new))
               else http_id net address buf timeout (h @ new))"
    by (simp add: get_device_id_def 1 2(1) 3(1) 4 del: append_assoc)
  then show ?thesis using new by blast
qed

end

text \<open>
  A reply discovery can report over VXI-11: not empty, not a lone newline, and short enough to leave room for the
  terminator. As a string it ends at its first zero byte.
\<close>

definition proper :: "bytes \<Rightarrow> bool" where
  "proper reply \<longleftrightarrow> reply \<noteq> [] \<and> reply \<noteq> [10] \<and> length reply < 65536"

definition id_text :: "bytes \<Rightarrow> bytes" where
  "id_text reply = takeWhile (\<lambda>b. b \<noteq> 0) (strip reply)"

lemma terminated_strip:
  assumes "proper reply" and "length buf = 65536"
  shows "\<exists>buf'. cbind (buf_write (reply @ drop (length reply) buf) (int (length reply)) [0])
      (\<lambda>buf. cbind (strip_eol buf (int (length reply))) (\<lambda>buf. ret (0, buf, h))) = ret (0, buf', h) \<and>
    length buf' = 65536 \<and> c_string buf' = ret (id_text reply)"
proof -
  have ne: "reply \<noteq> []" "reply \<noteq> [10]" and len: "length reply < 65536"
    using assms(1) by (simp_all add: proper_def)
  obtain c rest where rest: "drop (length reply) buf = c # rest"
    using len assms(2) by (cases "drop (length reply) buf") auto
  have wr: "buf_write (reply @ drop (length reply) buf) (int (length reply)) [0] = ret (reply @ 0 # rest)"
    unfolding rest by (simp add: buf_write_def overwrite_def)
  obtain rest' where st: "strip_eol (reply @ 0 # rest) (int (length reply)) = ret (strip reply @ 0 # rest')"
    "length (strip reply @ 0 # rest') = length (reply @ 0 # rest)"
    using strip_eol_correct [OF ne] by blast
  have "length (reply @ 0 # rest) = 65536"
    using rest len assms(2) by (metis append_take_drop_id length_Cons length_append length_take min.absorb4)
  moreover have "c_string (strip reply @ 0 # rest') = ret (id_text reply)"
    by (auto simp: c_string_def id_text_def takeWhile_append takeWhile_eq_all_conv [THEN iffD2])
  ultimately show ?thesis unfolding wr using st by auto
qed

lemma idn_network_reply:
  assumes "idn_network net idn" and "idn address = Some reply" and "proper reply" and "length buf = 65536"
  shows "\<exists>buf' new. get_device_id net address buf timeout h = ret (0, buf', h @ new) \<and> length buf' = 65536 \<and>
    c_string buf' = ret (id_text reply) \<and> list_all rpc_event new \<and> (\<forall>x. clients_open new x = 0)"
proof -
  have r: "reply \<noteq> []" "length reply \<le> 65536" using assms(3) by (simp_all add: proper_def)
  obtain new where "get_device_id net address buf timeout h =
      cbind (buf_write (reply @ drop (length reply) buf) (int (length reply)) [0])
        (\<lambda>buf. cbind (strip_eol buf (int (length reply))) (\<lambda>buf. ret (0, buf, h @ new)))"
    "list_all rpc_event new" "\<forall>x. clients_open new x = 0"
    using idn_network.get_device_id_answered [OF assms(1,2) r(2) assms(4), of timeout h] r(1) by auto
  then show ?thesis using terminated_strip [OF assms(3,4), of "h @ new"] by metis
qed

text \<open>
  C22. Identification over VXI-11, at any point of the history of a network on which each host refuses the connection or
  answers \<^verbatim>\<open>*IDN?\<close> in one response, the other remote calls succeed and the connecting thread ends before the deadline:
  when the answer is not empty, not a lone newline and shorter than the buffer, \<^verbatim>\<open>get_device_id\<close> returns 0 with that
  text, less a newline and a carriage return at its end and up to its first zero byte, as a terminated string, and
  the connection made for it is released; a host that refuses the connection gives -1 and leaves the buffer as it was.
\<close>

theorem get_device_id_correct:
  assumes "idn_network net idn" and "length buf = 65536"
  shows "(\<forall>reply. idn address = Some reply \<longrightarrow> proper reply \<longrightarrow>
      (\<exists>buf' new. get_device_id net address buf timeout h = ret (0, buf', h @ new) \<and> length buf' = 65536 \<and>
         c_string buf' = ret (id_text reply) \<and> (\<forall>x. clients_open new x = 0))) \<and>
    (idn address = None \<longrightarrow> (\<exists>new. get_device_id net address buf timeout h = ret (-1, buf, h @ new)))"
  using idn_network_reply [OF assms(1) _ _ assms(2)] idn_network.get_device_id_refused [OF assms(1)] by metis

text \<open>
  A network given by a directory: each host of the directory has its reply, every other host refuses. All
  handles are the same number, so it is the history that tells which host a call goes to.
\<close>

definition directory_rpc :: "(string \<Rightarrow> bytes option) \<Rightarrow> rpc" where
  "directory_rpc idn =
     \<lparr>rpc_create = (\<lambda>h host prog vers proto. if idn host = None then None else Some 7),
      rpc_call = (\<lambda>h cl proc xa arg xr res tv.
        case (arg, res) of
          (Obj_Device_ReadParms p, Obj_Device_ReadResp r) \<Rightarrow>
            let reply = (case client_host h cl of None \<Rightarrow> [] | Some host \<Rightarrow> (case idn host of None \<Rightarrow> [] | Some bs \<Rightarrow> bs))
            in (RPC_SUCCESS, Obj_Device_ReadResp (read_answer [reply] 0 (unat (drp_requestSize p))))
        | (Obj_Device_WriteParms p, Obj_Device_WriteResp r) \<Rightarrow>
            (RPC_SUCCESS, Obj_Device_WriteResp \<lparr>dwr_error = 0, dwr_size = op_len (dwp_data p)\<rparr>)
        | _ \<Rightarrow> (RPC_SUCCESS, res))\<rparr>"

definition directory_lan :: "(string \<Rightarrow> bytes option) \<Rightarrow> posix \<Rightarrow> xml \<Rightarrow> lan" where
  "directory_lan idn os xml = \<lparr>l_os = os, l_net = directory_rpc idn, l_lib = mem_lib, l_th = joining_threads,
     l_xml = xml, l_vxi11_stack = open_link, l_tcp_stack = \<lparr>server_socket = 0\<rparr>,
     l_response_stack = replicate 4096 0, l_id_stack = replicate 65536 0\<rparr>"

lemma directory_lan_sel [simp]: "l_os (directory_lan idn os xml) = os" "l_xml (directory_lan idn os xml) = xml"
  "l_response_stack (directory_lan idn os xml) = replicate 4096 0"
  by (simp_all add: directory_lan_def)

interpretation directory: idn_network "directory_lan idn os xml" idn for idn os xml
  by unfold_locales
    (auto simp: directory_lan_def directory_rpc_def joins_at_once_joining read_answer_def Let_def)

definition bench :: "string \<Rightarrow> bytes option" where
  "bench host = (if host = ''10.0.0.1'' then Some [65, 44, 66, 13, 10] else if host = ''10.0.0.2'' then Some []
     else None)"

theorem get_device_id_correct_witness:
  "\<exists>buf' new. get_device_id (directory_lan bench quiet_posix (\<lambda>t. None)) ''10.0.0.1'' (replicate 65536 0) 1000 [] =
      ret (0, buf', [] @ new) \<and> length buf' = 65536 \<and> c_string buf' = ret (id_text [65, 44, 66, 13, 10]) \<and>
      (\<forall>x. clients_open new x = 0)"
  using get_device_id_correct [OF directory.idn_network_axioms [of bench quiet_posix "\<lambda>t. None"],
      of "replicate 65536 0" "''10.0.0.1''" 1000 "[]"]
  by (simp add: bench_def proper_def)

text \<open>
  The two answers that break it: one that fills the buffer, whose terminator is stored behind the end of the
  buffer, and a lone newline, after which the byte in front of the buffer is read.
\<close>

lemma get_device_id_faults:
  assumes "idn_network net idn" and "idn address = Some reply" and "length buf = 65536"
    and "length reply = 65536 \<or> reply = [10]"
  shows "get_device_id net address buf timeout h = fail Out_Of_Bounds"
proof -
  have ne: "reply \<noteq> []" and le: "length reply \<le> 65536" using assms(4) by auto
  obtain new where run: "get_device_id net address buf timeout h =
      cbind (buf_write (reply @ drop (length reply) buf) (int (length reply)) [0])
        (\<lambda>buf. cbind (strip_eol buf (int (length reply))) (\<lambda>buf. ret (0, buf, h @ new)))"
    using idn_network.get_device_id_answered [OF assms(1,2) le assms(3), of timeout h] ne by auto
  show ?thesis
  proof (cases "length reply = 65536")
    case True
    then show ?thesis using assms(3) by (simp add: run buf_write_def)
  next
    case False
    then have lone: "reply = [10]" using assms(4) by blast
    obtain c rest where "drop 1 buf = c # rest" using assms(3) by (cases "drop 1 buf") auto
    then show ?thesis
      unfolding run unfolding lone by (simp add: buf_write_def overwrite_def strip_eol_def buf_read_def)
  qed
qed

section \<open>Identification over HTTP\<close>

lemma strstr_skip:
  assumes "\<forall>i < length pre. take (length needle) (drop i (pre @ body)) \<noteq> needle"
    and "take (length needle) body = needle" and "needle \<noteq> []"
  shows "strstr (pre @ body) needle = Some body"
  using assms(1)
proof (induction pre)
  case Nil
  then show ?case using assms(2,3) by (cases body) auto
next
  case (Cons b pre)
  have "take (length needle) (b # pre @ body) \<noteq> needle" using Cons.prems by (metis append_Cons drop0 length_greater_0_conv list.distinct(1))
  moreover have "strstr (pre @ body) needle = Some body" using Cons.prems by (intro Cons.IH) fastforce
  ultimately show ?case by simp
qed

text \<open>The texts of the four elements of an identification document.\<close>

definition id_elements :: "xml_doc \<Rightarrow> bytes \<times> bytes \<times> bytes \<times> bytes \<Rightarrow> bool" where
  "id_elements doc ids \<longleftrightarrow>
     (case ids of (manufacturer, model, serial, firmware) \<Rightarrow>
        (case xd_root doc of
           None \<Rightarrow> False
         | Some nodes \<Rightarrow>
             find_element ''Manufacturer'' nodes = Some manufacturer \<and> find_element ''Model'' nodes = Some model \<and>
             find_element ''SerialNumber'' nodes = Some serial \<and> find_element ''FirmwareRevision'' nodes = Some firmware) \<and>
        0 \<notin> set (manufacturer @ model @ serial @ firmware) \<and>
        length (manufacturer @ model @ serial @ firmware) + 3 < 65536)"

definition id_line :: "bytes \<times> bytes \<times> bytes \<times> bytes \<Rightarrow> bytes" where
  "id_line ids = (case ids of (manufacturer, model, serial, firmware) \<Rightarrow>
     manufacturer @ [44] @ model @ [44] @ serial @ [44] @ firmware)"

definition XML_START :: bytes where "XML_START = str_bytes ''<?xml''"

text \<open>
  A web server that takes the request and answers with a header and, behind it, a document, each in at most two pieces:
  the header has no start of a document in it, the response has no zero byte and is shorter than the buffer on the
  stack. As nothing terminates the response, the byte behind it on the stack has to be zero.
\<close>

definition web_server :: "lan \<Rightarrow> bytes list \<Rightarrow> bytes \<Rightarrow> bytes \<Rightarrow> bool" where
  "web_server net pieces header body \<longleftrightarrow>
     raw_peer (l_os net) pieces \<and> concat pieces = header @ body \<and>
     (\<forall>i < length header. take 5 (drop i (header @ body)) \<noteq> XML_START) \<and> take 5 body = XML_START \<and>
     0 \<notin> set (header @ body) \<and> length (header @ body) < 4096 \<and> l_response_stack net ! length (header @ body) = 0"

lemma web_server_text:
  assumes "web_server net pieces header body" and "length (l_response_stack net) = 4096"
  shows "c_string ((header @ body) @ drop (length (header @ body)) (l_response_stack net)) = ret (header @ body)"
    and "strstr (header @ body) XML_START = Some body"
proof -
  let ?n = "length (header @ body)"
  have resp: "0 \<notin> set (header @ body)" "?n < 4096" "l_response_stack net ! ?n = 0"
    and first: "\<forall>i < length header. take 5 (drop i (header @ body)) \<noteq> XML_START" "take 5 body = XML_START"
    using assms(1) unfolding web_server_def by blast+
  have "l_response_stack net ! ?n # drop (Suc ?n) (l_response_stack net) = drop ?n (l_response_stack net)"
    using resp(2) assms(2) by (intro Cons_nth_drop_Suc) simp
  then show "c_string ((header @ body) @ drop ?n (l_response_stack net)) = ret (header @ body)"
    unfolding c_string_iff using resp by metis
  have "length XML_START = 5" "XML_START \<noteq> []" by (simp_all add: XML_START_def str_bytes_def)
  then show "strstr (header @ body) XML_START = Some body"
    using first strstr_skip [of header XML_START body] by simp
qed

lemma ID_REQ_HTTP_short: "length ID_REQ_HTTP < 2 ^ 31"
  by (simp add: ID_REQ_HTTP_def str_bytes_def)

lemma http_id_correct:
  assumes server: "web_server net pieces header body" and stack: "length (l_response_stack net) = 4096"
    and buf: "length buf = 65536" and doc: "l_xml net body = Some doc" "id_elements doc ids"
  shows "\<exists>buf' new fd. http_id net address buf timeout h = ret (0, buf', h @ new) \<and> length buf' = 65536 \<and>
    c_string buf' = ret (id_line ids) \<and> wire new = ID_REQ_HTTP \<and>
    fd_events new = [Ev_socket SOCK_STREAM fd, Ev_close fd] \<and>
    Ev_stderr_mute \<in> set new \<and> Ev_stderr_restore \<notin> set new \<and> (\<forall>x. clients_open new x = 0)"
proof -
  have peer: "raw_peer (l_os net) pieces" and reply: "concat pieces = header @ body" and short: "length (header @ body) < 4096"
    using server unfolding web_server_def by blast+
  let ?h1 = "h @ [Ev_stderr_mute]" and ?r = "header @ body"
  define fd where "fd = px_socket (l_os net) ?h1 SOCK_STREAM"
  let ?d = "\<lparr>server_socket = fd\<rparr>"
  have good: "tcp_good ?d" using raw_peer.socket [OF peer, of ?h1] by (simp add: tcp_good_def fd_def)
  obtain n2 where 2: "tcp_connect (l_os net) (Some (l_tcp_stack net)) address PORT_HTTP None timeout ?h1 =
      ret (0, Some ?d, ?h1 @ n2)" "fd_events n2 = [Ev_socket SOCK_STREAM fd]" "wire n2 = []" "foreign n2 = []"
    using raw_peer.tcp_connect_peer [OF peer] unfolding fd_def by blast
  obtain n3 where 3: "tcp_send (l_os net) ?d ID_REQ_HTTP (int (length ID_REQ_HTTP)) timeout (?h1 @ n2) =
      ret (int (length ID_REQ_HTTP), (?h1 @ n2) @ n3)" "fd_events n3 = []" "wire n3 = ID_REQ_HTTP" "foreign n3 = []"
    using raw_peer.tcp_send_peer [OF peer good ID_REQ_HTTP_short] by blast
  obtain n4 where 4: "tcp_receive_wait (l_os net) ?d (l_response_stack net) 4096 timeout ((?h1 @ n2) @ n3) =
      ret (int (length ?r), ?r @ drop (length ?r) (l_response_stack net), ((?h1 @ n2) @ n3) @ n4)"
      "fd_events n4 = []" "wire n4 = []" "foreign n4 = []"
    using raw_peer.tcp_receive_wait_peer [OF peer good, unfolded reply, of 4096 "l_response_stack net" timeout
        "(?h1 @ n2) @ n3"] short stack by auto
  obtain a b c d where ids: "ids = (a, b, c, d)" by (metis prod_cases4)
  obtain buf' where 5: "assemble_id doc buf = ret buf'" "length buf' = 65536" "c_string buf' = ret (id_line ids)"
    using doc(2) assemble_id_text [of doc _ a b c d buf] buf unfolding ids
    by (auto simp: id_elements_def id_line_def split: option.splits)
  have "http_id net address buf timeout h = ret (0, buf', (((?h1 @ n2) @ n3) @ n4) @ [Ev_close fd])"
    by (simp add: http_id_def Let_def 2(1) 3(1) 4(1) tcp_disconnect_def sys_close_def web_server_text(1) [OF server stack]
        web_server_text(2) [OF server stack, unfolded XML_START_def] doc(1) 5(1) del: append_assoc append.simps length_append)
  moreover have "wire [Ev_stderr_mute] = []" "fd_events [Ev_stderr_mute] = []" by (simp_all add: wire_def fd_events_def)
  moreover have "clients_open n x = 0" "Ev_stderr_restore \<notin> set n" if "n = n2 \<or> n = n3 \<or> n = n4" for n x
    using that foreign_none 2(4) 3(4) 4(4) by blast+
  ultimately show ?thesis
    using 2 3 4 5 by (intro exI [of _ buf'] exI [of _ "[Ev_stderr_mute] @ n2 @ n3 @ n4 @ [Ev_close fd]"] exI [of _ fd])
      (simp add: close_views del: append.simps)
qed

text \<open>
  C23. Identification over HTTP, on such a network: when the host answers \<^verbatim>\<open>*IDN?\<close> with an empty text, its web server
  takes the request and delivers its response in at most two pieces each, the response is a header and an identification
  document that has the four elements, and the byte behind the response on the uninitialised stack happens to be zero (the
  code does not terminate the response), \<^verbatim>\<open>get_device_id\<close> sends exactly the request, returns 0, and the buffer holds
  manufacturer, model, serial number and firmware revision, separated by commas, as a terminated string. The RPC client
  and the one socket created are released, but stderr, sent to \<^verbatim>\<open>/dev/null\<close> for the attempt, is not restored.
\<close>

theorem get_device_id_http:
  assumes "idn_network net idn" and "idn address = Some []" and "web_server net pieces header body"
    and "length buf = 65536" and "l_xml net body = Some doc" and "id_elements doc ids"
  shows "\<exists>buf' new fd. get_device_id net address buf timeout h = ret (0, buf', h @ new) \<and> length buf' = 65536 \<and>
    c_string buf' = ret (id_line ids) \<and> wire new = ID_REQ_HTTP \<and> (\<forall>x. clients_open new x = 0) \<and>
    fd_events new = [Ev_socket SOCK_STREAM fd, Ev_close fd] \<and>
    Ev_stderr_mute \<in> set new \<and> Ev_stderr_restore \<notin> set new"
proof -
  have ne: "buf \<noteq> []" using assms(4) by auto
  then obtain buf0 where 0: "buf_write buf 0 [0] = ret buf0" "length buf0 = 65536"
    using assms(4) by (cases buf) (auto simp: buf_write_def overwrite_def)
  obtain new where 1: "get_device_id net address buf timeout h = http_id net address buf0 timeout (h @ new)"
    and new: "list_all rpc_event new" "\<forall>x. clients_open new x = 0"
    using idn_network.get_device_id_answered [OF assms(1,2) _ assms(4), of timeout h] 0 by auto
  have quiet: "fd_events new = []" "wire new = []" "Ev_stderr_restore \<notin> set new"
    using new(1) by (induction new) (auto simp: wire_def fd_events_def elim: rpc_event.elims)
  obtain buf' evs fd where "http_id net address buf0 timeout (h @ new) = ret (0, buf', (h @ new) @ evs)"
    "length buf' = 65536" "c_string buf' = ret (id_line ids)" "wire evs = ID_REQ_HTTP"
    "fd_events evs = [Ev_socket SOCK_STREAM fd, Ev_close fd]"
    "Ev_stderr_mute \<in> set evs" "Ev_stderr_restore \<notin> set evs" "\<forall>x. clients_open evs x = 0"
    using http_id_correct [OF assms(3) idn_network.stack(2) [OF assms(1)] 0(2) assms(5,6)] by blast
  then show ?thesis
    using 1 new(2) quiet by (intro exI [of _ buf'] exI [of _ "new @ evs"] exI [of _ fd]) (auto simp only: socket_views, auto)
qed

definition plate :: xml_doc where
  "plate = \<lparr>xd_root = Some [\<lparr>xn_name = ''Model'', xn_text = Some [50]\<rparr>, \<lparr>xn_name = ''Manufacturer'', xn_text = Some [49]\<rparr>,
     \<lparr>xn_name = ''SerialNumber'', xn_text = Some [51]\<rparr>, \<lparr>xn_name = ''FirmwareRevision'', xn_text = Some [52]\<rparr>]\<rparr>"

theorem get_device_id_http_witness:
  "\<exists>buf' new fd. get_device_id (directory_lan bench (paced_posix 20 [72, 10, 60, 63] [120, 109, 108]) (\<lambda>t. Some plate))
      ''10.0.0.2'' (replicate 65536 7) 1000 [] = ret (0, buf', [] @ new) \<and> length buf' = 65536 \<and>
    c_string buf' = ret (id_line ([49], [50], [51], [52])) \<and> wire new = ID_REQ_HTTP \<and> (\<forall>x. clients_open new x = 0) \<and>
    fd_events new = [Ev_socket SOCK_STREAM fd, Ev_close fd] \<and>
    Ev_stderr_mute \<in> set new \<and> Ev_stderr_restore \<notin> set new"
proof (rule get_device_id_http [where doc = plate, OF directory.idn_network_axioms])
  show "bench ''10.0.0.2'' = Some []" by (simp add: bench_def)
  show "web_server (directory_lan bench (paced_posix 20 [72, 10, 60, 63] [120, 109, 108]) (\<lambda>t. Some plate))
      (two_pieces [72, 10, 60, 63] [120, 109, 108]) [72, 10] [60, 63, 120, 109, 108]"
    using paced.raw_peer_axioms [of 20 "[72, 10, 60, 63]" "[120, 109, 108]"]
    by (simp add: web_server_def two_pieces_def str_bytes_def XML_START_def less_Suc_eq)
qed (simp_all add: id_elements_def plate_def)

section \<open>Broadcasting\<close>

text \<open>What a history says of a socket: where its last broadcast went and how many answers were read since.\<close>

definition asked :: "hist \<Rightarrow> int \<Rightarrow> (32 word \<times> nat) option" where
  "asked h fd =
     fold (\<lambda>e st. case e of
         Ev_sendto fd' m a \<Rightarrow> if fd' = fd then Some (s_addr a, 0) else st
       | Ev_recvfrom fd' len n \<Rightarrow> if fd' = fd then map_option (apsnd Suc) st else st
       | _ \<Rightarrow> st) h None"

lemma asked_simps [simp]:
  "asked (h @ [Ev_sendto fd m a]) fd = Some (s_addr a, 0)"
  "asked (h @ [Ev_recvfrom fd len n]) fd = map_option (apsnd Suc) (asked h fd)"
  "asked (h @ [Cb_device host i]) fd = asked h fd"
  by (simp_all add: asked_def)

lemma asked_rpc: "list_all rpc_event new \<Longrightarrow> asked (h @ new) fd = asked h fd"
proof (induction new rule: rev_induct)
  case (snoc e new)
  then have "asked ((h @ new) @ [e]) fd = asked (h @ new) fd" by (cases e) (auto simp: asked_def)
  then show ?case using snoc by simp
qed simp

text \<open>The hosts that answer a broadcast, in the order their answers arrive; after them the wait times out.\<close>

definition answering :: "posix \<Rightarrow> (32 word \<Rightarrow> 32 word list) \<Rightarrow> bool" where
  "answering os hosts \<longleftrightarrow>
     (\<forall>h fd len a k. asked h fd = Some (a, k) \<longrightarrow>
        (if k < length (hosts a) then 0 < fst (px_recvfrom os h fd len) \<and> snd (px_recvfrom os h fd len) = hosts a ! k
         else fst (px_recvfrom os h fd len) \<le> 0))"

definition reported :: "hist \<Rightarrow> (string \<times> bytes) list" where
  "reported h = concat (map (\<lambda>e. case e of Cb_device a i \<Rightarrow> [(a, i)] | _ \<Rightarrow> []) h)"

definition queried :: "hist \<Rightarrow> 32 word list" where
  "queried h = concat (map (\<lambda>e. case e of Ev_sendto fd m a \<Rightarrow> [s_addr a] | _ \<Rightarrow> []) h)"

definition announced :: "hist \<Rightarrow> (string \<times> string) list" where
  "announced h = concat (map (\<lambda>e. case e of Cb_broadcast a n \<Rightarrow> [(a, n)] | _ \<Rightarrow> []) h)"

lemma views_append [simp]:
  "reported (h @ h') = reported h @ reported h'" "queried (h @ h') = queried h @ queried h'"
  "announced (h @ h') = announced h @ announced h'"
  by (simp_all add: reported_def queried_def announced_def)

lemma views_recvfrom [simp]:
  "reported (Ev_recvfrom fd len n # h) = reported h" "queried (Ev_recvfrom fd len n # h) = queried h"
  "announced (Ev_recvfrom fd len n # h) = announced h"
  by (simp_all add: reported_def queried_def announced_def)

lemma views_rpc:
  assumes "list_all rpc_event new"
  shows "reported new = []" "queried new = []" "announced new = []" "Ev_close fd \<notin> set new"
  using assms by (induction new) (auto simp: reported_def queried_def announced_def elim: rpc_event.elims)

text \<open>
  What discovery reports of a host: its address and its identification, if it has one and a device callback is
  registered.
\<close>

definition entry_of :: "lxi_info \<Rightarrow> (string \<Rightarrow> bytes option) \<Rightarrow> posix \<Rightarrow> 32 word \<Rightarrow> (string \<times> bytes) list" where
  "entry_of info idn os a =
     (case idn (px_inet_ntoa os a) of
        None \<Rightarrow> []
      | Some reply \<Rightarrow> if info_device info then [(px_inet_ntoa os a, id_text reply)] else [])"

lemma c_string_takeWhile: "c_string buf = ret t \<Longrightarrow> takeWhile (\<lambda>b. b \<noteq> 0) buf = t"
  by (auto simp: c_string_def split: if_splits)

text \<open>One answer: the host is identified, and reported when that succeeded.\<close>

lemma one_answer:
  assumes net: "idn_network net idn" and ok: "\<forall>host reply. idn host = Some reply \<longrightarrow> proper reply"
    and buf: "length buf = 65536"
  shows "\<exists>r buf' new. get_device_id net (px_inet_ntoa (l_os net) a) buf timeout h = ret (r, buf', h @ new) \<and>
    length buf' = 65536 \<and> list_all rpc_event new \<and>
    (if r = 0 \<and> info_device info then [(px_inet_ntoa (l_os net) a, takeWhile (\<lambda>b. b \<noteq> 0) buf')] else []) = entry_of info idn (l_os net) a"
proof (cases "idn (px_inet_ntoa (l_os net) a)")
  case None
  obtain new where "get_device_id net (px_inet_ntoa (l_os net) a) buf timeout h = ret (-1, buf, h @ new)"
    "list_all rpc_event new"
    using idn_network.get_device_id_refused [OF net None] by blast
  then show ?thesis using None buf by (intro exI [of _ "-1"] exI [of _ buf] exI [of _ new]) (simp add: entry_of_def)
next
  case (Some reply)
  then have "proper reply" using ok by blast
  then obtain buf' new where "get_device_id net (px_inet_ntoa (l_os net) a) buf timeout h = ret (0, buf', h @ new)"
    "length buf' = 65536" "c_string buf' = ret (id_text reply)" "list_all rpc_event new"
    using idn_network_reply [OF net Some _ buf] by blast
  then show ?thesis using Some c_string_takeWhile by (fastforce simp: entry_of_def)
qed

lemma answers_loop_reports:
  assumes net: "idn_network net idn" and ok: "\<forall>host reply. idn host = Some reply \<longrightarrow> proper reply"
    and os: "answering (l_os net) hosts"
  shows "asked h fd = Some (a, k) \<Longrightarrow> k \<le> length (hosts a) \<Longrightarrow> length buf = 65536 \<Longrightarrow>
    \<exists>new. answers_loop net fd info buf timeout h = ret (h @ new) \<and>
      reported new = concat (map (entry_of info idn (l_os net)) (drop k (hosts a))) \<and>
      queried new = [] \<and> announced new = [] \<and> (\<forall>f. Ev_close f \<notin> set new)"
proof (induction "length (hosts a) - k" arbitrary: h k buf)
  case 0
  let ?n = "fst (px_recvfrom (l_os net) h fd 65536)"
  have "?n \<le> 0" using os 0 unfolding answering_def by (metis diff_is_0_eq linorder_not_less)
  then have "answers_loop net fd info buf timeout h = ret (h @ [Ev_recvfrom fd 65536 ?n])"
    by (subst answers_loop.simps) (auto simp: sys_recvfrom_def ID_LENGTH_MAX_def Let_def split: prod.splits)
  then show ?case using 0 by (auto simp: reported_def queried_def announced_def)
next
  case (Suc m)
  then have k: "k < length (hosts a)" and m: "m = length (hosts a) - Suc k" by simp_all
  obtain n src where rv: "px_recvfrom (l_os net) h fd 65536 = (n, src)" by fastforce
  have n: "0 < n" "src = hosts a ! k"
    using os Suc.prems(1) k rv unfolding answering_def by (metis fst_conv, metis snd_conv)
  let ?h1 = "h @ [Ev_recvfrom fd 65536 n]"
  let ?host = "px_inet_ntoa (l_os net) src"
  obtain r buf' new where id: "get_device_id net ?host buf timeout ?h1 = ret (r, buf', ?h1 @ new)"
    "length buf' = 65536" "list_all rpc_event new"
    and entry: "(if r = 0 \<and> info_device info then [(?host, takeWhile (\<lambda>b. b \<noteq> 0) buf')] else []) = entry_of info idn (l_os net) src"
    using one_answer [OF net ok Suc.prems(3)] by blast
  define cb where "cb = (if r = 0 \<and> info_device info then [Cb_device ?host (takeWhile (\<lambda>b. b \<noteq> 0) buf')] else [])"
  have cb: "reported cb = entry_of info idn (l_os net) src" "queried cb = []" "announced cb = []" "\<forall>f. Ev_close f \<notin> set cb"
    using entry by (auto simp: cb_def reported_def queried_def announced_def split: if_splits)
  have "asked (?h1 @ new) fd = Some (a, Suc k)" using Suc.prems(1) by (simp only: asked_rpc [OF id(3)] asked_simps) simp
  then have "asked ((?h1 @ new) @ cb) fd = Some (a, Suc k)" by (simp add: cb_def del: append_assoc)
  then obtain rest where rest: "answers_loop net fd info buf' timeout ((?h1 @ new) @ cb) = ret (((?h1 @ new) @ cb) @ rest)"
    "reported rest = concat (map (entry_of info idn (l_os net)) (drop (Suc k) (hosts a)))" "queried rest = []"
    "announced rest = []" "\<forall>f. Ev_close f \<notin> set rest"
    using Suc.hyps(1) [OF m, of "(?h1 @ new) @ cb" buf'] k id(2) by (auto simp del: append_assoc)
  have "answers_loop net fd info buf timeout h = answers_loop net fd info buf' timeout ((?h1 @ new) @ cb)"
    using n(1) rv id(1)
    by (subst answers_loop.simps) (simp add: sys_recvfrom_def ID_LENGTH_MAX_def cb_def)
  moreover have "drop k (hosts a) = src # drop (Suc k) (hosts a)" using k n(2) by (simp add: Cons_nth_drop_Suc)
  ultimately show ?case
    using rest cb views_rpc [OF id(3)]
    by (intro exI [of _ "[Ev_recvfrom fd 65536 n] @ new @ cb @ rest"]) auto
qed

text \<open>A system on which sockets can be made and configured.\<close>

definition sockets_work :: "posix \<Rightarrow> bool" where
  "sockets_work os \<longleftrightarrow> (\<forall>h ty. 0 \<le> px_socket os h ty) \<and> (\<forall>h fd opt. px_setsockopt os h fd opt = 0)"

lemma discover_devices_reports:
  assumes net: "idn_network net idn" and ok: "\<forall>host reply. idn host = Some reply \<longrightarrow> proper reply"
    and os: "answering (l_os net) hosts" "sockets_work (l_os net)"
  shows "\<exists>new. discover_devices net (Some a) info timeout h = ret (0, h @ new) \<and>
    reported new = concat (map (entry_of info idn (l_os net)) (hosts a)) \<and> queried new = [a] \<and> announced new = [] \<and>
    (\<forall>f. Ev_close f \<notin> set new)"
proof -
  obtain fd where fd: "px_socket (l_os net) h SOCK_DGRAM = fd" "fd \<noteq> -1"
    using os(2) by (metis sockets_work_def neg_0_le_iff_le not_one_le_zero)
  let ?pre = "[Ev_socket SOCK_DGRAM fd, Ev_setsockopt fd SO_BROADCAST 0,
        Ev_setsockopt fd (SO_RCVTIMEO (ms_to_timeval timeout)) 0, Ev_bind fd]"
  let ?to = "Ev_sendto fd rpc_GETPORT_msg \<lparr>sin_port = 111, s_addr = a\<rparr>"
  obtain new where new: "answers_loop net fd info (l_id_stack net) timeout ((h @ ?pre) @ [?to]) = ret (((h @ ?pre) @ [?to]) @ new)"
    "reported new = concat (map (entry_of info idn (l_os net)) (hosts a))" "queried new = []" "announced new = []"
    "\<forall>f. Ev_close f \<notin> set new"
    using answers_loop_reports [OF net ok os(1), of "(h @ ?pre) @ [?to]" fd a 0 "l_id_stack net" info timeout]
      idn_network.stack(1) [OF net] by (auto simp only: asked_simps sockaddr_in.simps drop0)
  have "discover_devices net (Some a) info timeout h = ret (0, ((h @ ?pre) @ [?to]) @ new)"
    using os(2) fd new(1)
    by (simp add: discover_devices_def sys_socket_def sys_setsockopt_def sockets_work_def PORT_RPC_def Let_def)
  then show ?thesis
    using new(2-) by (intro exI [of _ "?pre @ [?to] @ new"]) (auto simp: reported_def queried_def announced_def)
qed

definition eligible :: "ifaddrs \<Rightarrow> bool" where
  "eligible ifa \<longleftrightarrow> ifa_family ifa = Some AF_INET \<and> ifa_broadaddr ifa \<noteq> None"

definition announcement :: "lxi_info \<Rightarrow> posix \<Rightarrow> ifaddrs \<Rightarrow> (string \<times> string) list" where
  "announcement info os ifa =
     (case (ifa_broadaddr ifa, ifa_name ifa) of
        (Some a, Some n) \<Rightarrow> if info_broadcast info then [(px_inet_ntoa os a, n)] else []
      | _ \<Rightarrow> [])"

text \<open>The broadcast addresses discovery uses, in the order of the interfaces.\<close>

definition broadcasts :: "ifaddrs list \<Rightarrow> 32 word list" where
  "broadcasts ifas = map (\<lambda>ifa. the (ifa_broadaddr ifa)) (filter eligible ifas)"

lemma discover_ifs_reports:
  assumes net: "idn_network net idn" and ok: "\<forall>host reply. idn host = Some reply \<longrightarrow> proper reply"
    and os: "answering (l_os net) hosts" "sockets_work (l_os net)"
  shows "\<exists>new. discover_ifs net info timeout ifas h = ret (h @ new) \<and>
    reported new = concat (map (\<lambda>b. concat (map (entry_of info idn (l_os net)) (hosts b))) (broadcasts ifas)) \<and>
    queried new = broadcasts ifas \<and> announced new = concat (map (announcement info (l_os net)) (filter eligible ifas)) \<and>
    (\<forall>fd. Ev_close fd \<notin> set new)"
proof (induction ifas arbitrary: h)
  case Nil
  show ?case by (simp add: queried_def announced_def reported_def broadcasts_def)
next
  case (Cons ifa ifas)
  show ?case
  proof (cases "eligible ifa")
    case False
    then have "discover_ifs net info timeout (ifa # ifas) h = discover_ifs net info timeout ifas h"
      by (auto simp: eligible_def split: option.splits)
    then show ?thesis using Cons.IH [of h] False by (simp add: broadcasts_def)
  next
    case True
    then obtain a where a: "ifa_family ifa = Some AF_INET" "ifa_broadaddr ifa = Some a"
      by (auto simp: eligible_def)
    define cb where "cb = (case ifa_name ifa of
        Some name \<Rightarrow> if info_broadcast info then [Cb_broadcast (px_inet_ntoa (l_os net) a) name] else []
      | None \<Rightarrow> [])"
    obtain evs where dev: "discover_devices net (Some a) info timeout (h @ cb) = ret (0, (h @ cb) @ evs)"
      "reported evs = concat (map (entry_of info idn (l_os net)) (hosts a))" "queried evs = [a]" "announced evs = []"
      "\<forall>f. Ev_close f \<notin> set evs"
      using discover_devices_reports [OF net ok os] by blast
    obtain new where rest: "discover_ifs net info timeout ifas ((h @ cb) @ evs) = ret (((h @ cb) @ evs) @ new)"
      "reported new = concat (map (\<lambda>b. concat (map (entry_of info idn (l_os net)) (hosts b))) (broadcasts ifas))"
      "queried new = broadcasts ifas" "announced new = concat (map (announcement info (l_os net)) (filter eligible ifas))"
      "\<forall>fd. Ev_close fd \<notin> set new"
      using Cons.IH by blast
    have run: "discover_ifs net info timeout (ifa # ifas) h = ret (h @ (cb @ evs @ new))"
      using a dev(1) rest(1) by (simp add: cb_def split: option.splits if_splits)
    have cb: "reported cb = []" "queried cb = []" "announced cb = announcement info (l_os net) ifa" "\<forall>fd. Ev_close fd \<notin> set cb"
      using a by (cases "ifa_name ifa"; simp add: queried_def announced_def announcement_def reported_def cb_def)+
    have "broadcasts (ifa # ifas) = a # broadcasts ifas" using True a by (simp add: broadcasts_def)
    then show ?thesis using run cb dev rest True by (intro exI [of _ "cb @ evs @ new"]) simp
  qed
qed

lemma vxi11_discover_found:
  assumes "idn_network net idn" and "\<forall>host reply. idn host = Some reply \<longrightarrow> proper reply"
    and "answering (l_os net) hosts" and "sockets_work (l_os net)"
    and "px_getifaddrs (l_os net) h = Some ifas"
  shows "\<exists>new. vxi11_discover net info timeout h = ret (0, h @ new) \<and>
    reported new = concat (map (\<lambda>b. concat (map (entry_of info idn (l_os net)) (hosts b))) (broadcasts ifas)) \<and>
    queried new = broadcasts ifas \<and> announced new = concat (map (announcement info (l_os net)) (filter eligible ifas)) \<and>
    last new = Ev_freeifaddrs \<and> (\<forall>fd. Ev_close fd \<notin> set new)"
proof -
  obtain new where "discover_ifs net info timeout ifas (h @ [Ev_getifaddrs]) = ret ((h @ [Ev_getifaddrs]) @ new)"
    "reported new = concat (map (\<lambda>b. concat (map (entry_of info idn (l_os net)) (hosts b))) (broadcasts ifas))"
    "queried new = broadcasts ifas" "announced new = concat (map (announcement info (l_os net)) (filter eligible ifas))"
    "\<forall>fd. Ev_close fd \<notin> set new"
    using discover_ifs_reports [OF assms(1-4)] by blast
  then show ?thesis
    using assms(5)
    by (intro exI [of _ "[Ev_getifaddrs] @ new @ [Ev_freeifaddrs]"])
      (auto simp: vxi11_discover_def sys_getifaddrs_def queried_def announced_def reported_def)
qed

text \<open>
  C21. What \<^verbatim>\<open>vxi11_discover\<close> finds, when the interfaces can be listed, sockets can be made and configured, each answer to
  a broadcast is read in turn until the wait times out, each host refuses the connection or answers \<^verbatim>\<open>*IDN?\<close> in one
  response that is not empty, not a lone newline and shorter than the buffer, the other remote calls succeed and the
  connecting thread ends before the deadline: it returns 0; every interface with an IPv4 address and a broadcast
  address, in order, is announced, if a broadcast callback is registered and it has a name, and one port query is
  broadcast to its address; the device callback, if there is one, is called for exactly the hosts that answered a
  broadcast and did not refuse the connection, in the order of their answers, each with its address and its identification
  without the end of line. The list of interfaces is released last. None of the sockets created for the broadcasts is
  closed.
\<close>

theorem vxi11_discover_reports:
  assumes "idn_network net idn" and "\<forall>host reply. idn host = Some reply \<longrightarrow> proper reply"
    and "answering (l_os net) hosts" and "sockets_work (l_os net)"
    and "px_getifaddrs (l_os net) h = Some ifas"
  shows "\<exists>new. vxi11_discover net info timeout h = ret (0, h @ new) \<and>
    reported new = concat (map (\<lambda>b. concat (map (entry_of info idn (l_os net)) (hosts b))) (broadcasts ifas)) \<and>
    queried new = broadcasts ifas \<and> announced new = concat (map (announcement info (l_os net)) (filter eligible ifas)) \<and>
    last new = Ev_freeifaddrs \<and> (\<forall>fd. Ev_close fd \<notin> set new)"
  using assms by (rule vxi11_discover_found)

text \<open>A network with two interfaces, on one of which two hosts answer; the second one refuses the connection.\<close>

definition two_ifs :: "ifaddrs list" where
  "two_ifs = [\<lparr>ifa_name = Some ''lo'', ifa_family = Some 10, ifa_broadaddr = None\<rparr>,
     \<lparr>ifa_name = Some ''eth0'', ifa_family = Some AF_INET, ifa_broadaddr = Some 0x0A0000FF\<rparr>]"

definition lab_hosts :: "32 word \<Rightarrow> 32 word list" where
  "lab_hosts b = (if b = 0x0A0000FF then [0x0A000001, 0x0A000003] else [])"

definition lab :: "string \<Rightarrow> bytes option" where
  "lab host = (if host = ''10.0.0.1'' then Some [65, 44, 66, 13, 10] else None)"

definition lab_posix :: posix where
  "lab_posix = quiet_posix\<lparr>px_socket := (\<lambda>h ty. 5), px_setsockopt := (\<lambda>h fd opt. 0),
     px_inet_ntoa := (\<lambda>a. if a = 0x0A000001 then ''10.0.0.1'' else ''10.0.0.3''),
     px_recvfrom := (\<lambda>h fd len. case asked h fd of
         None \<Rightarrow> (-1, 0)
       | Some (a, k) \<Rightarrow> if k < length (lab_hosts a) then (28, lab_hosts a ! k) else (-1, 0)),
     px_getifaddrs := (\<lambda>h. Some two_ifs)\<rparr>"

definition lab_info :: lxi_info where
  "lab_info = \<lparr>info_broadcast = True, info_device = True, info_service = False\<rparr>"

lemma lab_answering: "answering lab_posix lab_hosts" "sockets_work lab_posix"
  by (auto simp: answering_def sockets_work_def lab_posix_def)

lemma lab_proper: "\<forall>host reply. lab host = Some reply \<longrightarrow> proper reply"
  by (simp add: lab_def proper_def)

theorem vxi11_discover_reports_witness:
  "\<exists>new. vxi11_discover (directory_lan lab lab_posix (\<lambda>t. None)) lab_info 1000 [] = ret (0, [] @ new) \<and>
    reported new = [(''10.0.0.1'', [65, 44, 66])] \<and> queried new = [0x0A0000FF]"
proof -
  have ifas: "px_getifaddrs (l_os (directory_lan lab lab_posix (\<lambda>t. None))) [] = Some two_ifs"
    by (simp add: lab_posix_def)
  have "broadcasts two_ifs = [0x0A0000FF]"
    by (simp add: broadcasts_def two_ifs_def eligible_def)
  moreover have "concat (map (entry_of lab_info lab lab_posix) (lab_hosts 0x0A0000FF)) = [(''10.0.0.1'', [65, 44, 66])]"
    by (simp add: entry_of_def lab_hosts_def lab_posix_def lab_def strip_def id_text_def lab_info_def)
  ultimately show ?thesis
    using vxi11_discover_reports [OF directory.idn_network_axioms lab_proper _ _ ifas, of lab_hosts lab_info 1000] lab_answering
    by auto
qed

section \<open>Discovery on one interface\<close>

text \<open>The broadcast addresses of the interfaces with a given name.\<close>

definition named :: "string \<Rightarrow> ifaddrs \<Rightarrow> bool" where
  "named ifname ifa \<longleftrightarrow> ifa_family ifa = Some AF_INET \<and> ifa_name ifa = Some ifname"

text \<open>
  What the loop relies on: an IPv4 interface has a name, and the interface asked for a broadcast address.
\<close>

definition usable :: "string \<Rightarrow> ifaddrs \<Rightarrow> bool" where
  "usable ifname ifa \<longleftrightarrow> (ifa_family ifa = Some AF_INET \<longrightarrow> ifa_name ifa \<noteq> None) \<and>
     (named ifname ifa \<longrightarrow> ifa_broadaddr ifa \<noteq> None)"

lemma discover_named_ifs_reports:
  assumes net: "idn_network net idn" and ok: "\<forall>host reply. idn host = Some reply \<longrightarrow> proper reply"
    and os: "answering (l_os net) hosts" "sockets_work (l_os net)"
  shows "list_all (usable ifname) ifas \<Longrightarrow>
    \<exists>new. discover_named_ifs net info ifname timeout ifas 0 h = ret (0, h @ new) \<and>
    reported new = concat (map (\<lambda>ifa. concat (map (entry_of info idn (l_os net)) (hosts (the (ifa_broadaddr ifa)))))
      (filter (named ifname) ifas)) \<and>
    queried new = map (\<lambda>ifa. the (ifa_broadaddr ifa)) (filter (named ifname) ifas) \<and>
    announced new = concat (map (announcement info (l_os net)) (filter (named ifname) ifas))"
proof (induction ifas arbitrary: h)
  case Nil
  show ?case by (simp add: queried_def announced_def reported_def)
next
  case (Cons ifa ifas)
  have use: "usable ifname ifa" "list_all (usable ifname) ifas" using Cons.prems by simp_all
  show ?case
  proof (cases "named ifname ifa")
    case False
    then have "discover_named_ifs net info ifname timeout (ifa # ifas) 0 h = discover_named_ifs net info ifname timeout ifas 0 h"
      using use(1) by (auto simp: named_def usable_def)
    then show ?thesis using Cons.IH [OF use(2), of h] False by simp
  next
    case True
    then obtain a where a: "ifa_family ifa = Some AF_INET" "ifa_name ifa = Some ifname" "ifa_broadaddr ifa = Some a"
      using use(1) by (auto simp: named_def usable_def)
    let ?cb = "if info_broadcast info then [Cb_broadcast (px_inet_ntoa (l_os net) a) ifname] else []"
    obtain evs where dev: "discover_devices net (Some a) info timeout (h @ ?cb) = ret (0, (h @ ?cb) @ evs)"
      "reported evs = concat (map (entry_of info idn (l_os net)) (hosts a))" "queried evs = [a]" "announced evs = []"
      using discover_devices_reports [OF net ok os] by blast
    obtain new where rest: "discover_named_ifs net info ifname timeout ifas 0 ((h @ ?cb) @ evs) = ret (0, ((h @ ?cb) @ evs) @ new)"
      "reported new = concat (map (\<lambda>ifa. concat (map (entry_of info idn (l_os net)) (hosts (the (ifa_broadaddr ifa)))))
        (filter (named ifname) ifas))"
      "queried new = map (\<lambda>ifa. the (ifa_broadaddr ifa)) (filter (named ifname) ifas)"
      "announced new = concat (map (announcement info (l_os net)) (filter (named ifname) ifas))"
      using Cons.IH [OF use(2)] by blast
    have "discover_named_ifs net info ifname timeout (ifa # ifas) 0 h = ret (0, h @ (?cb @ evs @ new))"
      using a dev(1) rest(1) by (cases "info_broadcast info") simp_all
    moreover have "reported (?cb @ evs @ new) = reported evs @ reported new" "queried (?cb @ evs @ new) = queried evs @ queried new"
      "announced (?cb @ evs @ new) = announcement info (l_os net) ifa @ announced evs @ announced new"
      using a by (simp_all add: reported_def queried_def announced_def announcement_def)
    ultimately show ?thesis using True a dev rest by (intro exI [of _ "?cb @ evs @ new"]) simp
  qed
qed

text \<open>
  Discovery on a named interface: \<^verbatim>\<open>vxi11_discover_if\<close> returns 0, announces and queries exactly the IPv4
  interfaces with the given name, and reports exactly the hosts that answered there and could be identified.
  It relies on every IPv4 interface having a name and the one asked for having a broadcast address, neither of
  which it checks.
\<close>

lemma vxi11_discover_if_found:
  assumes "idn_network net idn" and "\<forall>host reply. idn host = Some reply \<longrightarrow> proper reply"
    and "answering (l_os net) hosts" and "sockets_work (l_os net)"
    and "px_getifaddrs (l_os net) h = Some ifas" and "list_all (usable ifname) ifas"
  shows "\<exists>new. vxi11_discover_if net info ifname timeout h = ret (0, h @ new) \<and>
    reported new = concat (map (\<lambda>ifa. concat (map (entry_of info idn (l_os net)) (hosts (the (ifa_broadaddr ifa)))))
      (filter (named ifname) ifas)) \<and>
    queried new = map (\<lambda>ifa. the (ifa_broadaddr ifa)) (filter (named ifname) ifas) \<and>
    announced new = concat (map (announcement info (l_os net)) (filter (named ifname) ifas)) \<and>
    last new = Ev_freeifaddrs"
proof -
  obtain new where "discover_named_ifs net info ifname timeout ifas 0 (h @ [Ev_getifaddrs]) = ret (0, (h @ [Ev_getifaddrs]) @ new)"
    "reported new = concat (map (\<lambda>ifa. concat (map (entry_of info idn (l_os net)) (hosts (the (ifa_broadaddr ifa)))))
      (filter (named ifname) ifas))"
    "queried new = map (\<lambda>ifa. the (ifa_broadaddr ifa)) (filter (named ifname) ifas)"
    "announced new = concat (map (announcement info (l_os net)) (filter (named ifname) ifas))"
    using discover_named_ifs_reports [OF assms(1-4,6)] by blast
  then show ?thesis
    using assms(5)
    by (intro exI [of _ "[Ev_getifaddrs] @ new @ [Ev_freeifaddrs]"])
      (auto simp: vxi11_discover_if_def sys_getifaddrs_def queried_def announced_def reported_def)
qed

text \<open>The interface of the example is usable.\<close>

lemma two_ifs_usable: "list_all (usable ''eth0'') two_ifs"
  by (simp add: two_ifs_def usable_def named_def AF_INET_def)

end
