(* ===== verification/Services.thy ===== *)
theory Services
  imports Environ
begin

text \<open>
  The table of service types of \<^verbatim>\<open>src/src/lxi.c\<close>, in the order of the source, and the search the
  DNS-SD callbacks make in it. The entry of null pointers that ends the C array is the end of the
  list here.
\<close>

definition lxi_services :: "(string \<times> string) list" where
  "lxi_services =
     [(''_lxi._tcp.'', ''lxi''),
      (''_vxi-11._tcp.'', ''vxi-11''),
      (''_scpi-raw._tcp.'', ''scpi-raw''),
      (''_scpi-telnet._tcp.'', ''scpi-telnet''),
      (''_hislip._tcp.'', ''hislip'')]"

fun service_name :: "(string \<times> string) list \<Rightarrow> string \<Rightarrow> string" where
  "service_name [] regtype = ''Unknown''"
| "service_name ((broadcast_type, name) # services) regtype =
     (if regtype = broadcast_type then name else service_name services regtype)"

lemma service_name_map_of:
  "service_name services regtype = (case map_of services regtype of Some n \<Rightarrow> n | None \<Rightarrow> ''Unknown'')"
  by (induction services) auto

end
