(* ===== verification/Avahi.thy ===== *)
theory Avahi
  imports Services
begin

text \<open>
  Discovery over multicast DNS with Avahi, \<^verbatim>\<open>src/src/avahi.c\<close>. The file keeps its state in static
  variables, among them the array of service browsers and its fill \<^verbatim>\<open>count\<close>, which outlive a call.
  The Avahi library is the parameter \<open>avahi\<close>: what its constructors return and which callbacks its
  main loop makes; the client callback is also made while the client is being created. A run extends a log of the calls. The theorems: a first discovery browses the
  five service types, reports every service that was resolved and releases everything, unless a browser could not be
  made, whose null pointer it hands to the library to be freed; \<^verbatim>\<open>count\<close> is left at -1, so a second one writes in front
  of the array.
\<close>

section \<open>Library and state\<close>

datatype resolver_event = AVAHI_RESOLVER_FAILURE | AVAHI_RESOLVER_FOUND

datatype browser_event =
    AVAHI_BROWSER_FAILURE
  | AVAHI_BROWSER_NEW
  | AVAHI_BROWSER_REMOVE
  | AVAHI_BROWSER_ALL_FOR_NOW
  | AVAHI_BROWSER_CACHE_EXHAUSTED

datatype client_state = AVAHI_CLIENT_FAILURE | AVAHI_CLIENT_OTHER

text \<open>A callback the main loop makes; an address is given as \<^verbatim>\<open>avahi_address_snprint\<close> prints it.\<close>

datatype av_call =
    Call_resolve nat resolver_event string string string "16 word"
  | Call_browse nat browser_event string string string
  | Call_client client_state
  | Call_terminate

datatype av_event =
    Av_poll_new bool
  | Av_poll_get bool
  | Av_client_new "nat option"
  | Av_browser_new string "nat option"
  | Av_timeout_new int
  | Av_loop
  | Av_resolver_new string string string bool
  | Av_service string string string "16 word"
  | Av_resolver_free nat
  | Av_quit
  | Av_browser_free nat
  | Av_client_free nat
  | Av_poll_free

type_synonym av_log = "av_event list"

record avahi =
  av_poll_new :: "av_log \<Rightarrow> bool"
  av_poll_get :: "av_log \<Rightarrow> bool"
  av_client_calls :: "av_log \<Rightarrow> client_state list"
  av_client_new :: "av_log \<Rightarrow> nat option"
  av_browser_new :: "av_log \<Rightarrow> string \<Rightarrow> nat option"
  av_resolver_new :: "av_log \<Rightarrow> string \<Rightarrow> string \<Rightarrow> string \<Rightarrow> bool"
  av_calls :: "av_log \<Rightarrow> av_call list"

text \<open>The static variables; \<^verbatim>\<open>lxi_info\<close> is the registered callbacks.\<close>

record avahi_state =
  av_sb :: "nat option list"
  av_count :: int
  av_info :: lxi_info

definition avahi_start :: avahi_state where
  "avahi_start = \<lparr>av_sb = replicate 10 None, av_count = 0,
     av_info = \<lparr>info_broadcast = False, info_device = False, info_service = False\<rparr>\<rparr>"

section \<open>Callbacks\<close>

definition pretty_type :: "string \<Rightarrow> string" where
  "pretty_type type =
     (if type = ''_lxi._tcp'' then ''lxi''
      else if type = ''_vxi-11._tcp'' then ''vxi-11''
      else if type = ''_scpi-raw._tcp'' then ''scpi-raw''
      else if type = ''_scpi-telnet._tcp'' then ''scpi-telnet''
      else if type = ''_hislip._tcp'' then ''hislip''
      else ''Unknown'')"

definition avahi_resolve_callback ::
    "lxi_info \<Rightarrow> nat \<Rightarrow> resolver_event \<Rightarrow> string \<Rightarrow> string \<Rightarrow> string \<Rightarrow> 16 word \<Rightarrow> av_log \<Rightarrow> av_log" where
  "avahi_resolve_callback info r event name type addr port l =
     (case event of
        AVAHI_RESOLVER_FAILURE \<Rightarrow> l
      | AVAHI_RESOLVER_FOUND \<Rightarrow>
          if info_service info then l @ [Av_service addr name (pretty_type type) port] else l) @
     [Av_resolver_free r]"

definition avahi_browse_callback ::
    "avahi \<Rightarrow> browser_event \<Rightarrow> string \<Rightarrow> string \<Rightarrow> string \<Rightarrow> av_log \<Rightarrow> av_log" where
  "avahi_browse_callback av event name type domain l =
     (case event of
        AVAHI_BROWSER_FAILURE \<Rightarrow> l @ [Av_quit]
      | AVAHI_BROWSER_NEW \<Rightarrow> l @ [Av_resolver_new name type domain (av_resolver_new av l name type domain)]
      | AVAHI_BROWSER_REMOVE \<Rightarrow> l
      | AVAHI_BROWSER_ALL_FOR_NOW \<Rightarrow> l
      | AVAHI_BROWSER_CACHE_EXHAUSTED \<Rightarrow> l)"

definition avahi_client_callback :: "client_state \<Rightarrow> av_log \<Rightarrow> av_log" where
  "avahi_client_callback state l = (if state = AVAHI_CLIENT_FAILURE then l @ [Av_quit] else l)"

definition avahi_terminate :: "av_log \<Rightarrow> av_log" where
  "avahi_terminate l = l @ [Av_quit]"

fun av_dispatch :: "avahi \<Rightarrow> lxi_info \<Rightarrow> av_call \<Rightarrow> av_log \<Rightarrow> av_log" where
  "av_dispatch av info (Call_resolve r event name type addr port) l =
     avahi_resolve_callback info r event name type addr port l"
| "av_dispatch av info (Call_browse b event name type domain) l =
     avahi_browse_callback av event name type domain l"
| "av_dispatch av info (Call_client state) l = avahi_client_callback state l"
| "av_dispatch av info Call_terminate l = avahi_terminate l"

text \<open>The callbacks made inside \<^verbatim>\<open>avahi_client_new\<close>.\<close>

fun av_client_callbacks :: "client_state list \<Rightarrow> av_log \<Rightarrow> av_log" where
  "av_client_callbacks [] l = l"
| "av_client_callbacks (state # states) l = av_client_callbacks states (avahi_client_callback state l)"

text \<open>Whether \<^verbatim>\<open>avahi_simple_poll_quit\<close> was called on the main loop object of the current discovery.\<close>

definition quit_requested :: "av_log \<Rightarrow> bool" where
  "quit_requested l \<longleftrightarrow> Av_quit \<in> set (takeWhile (\<lambda>e. e \<noteq> Av_poll_new True) (rev l))"

text \<open>The main loop: callbacks until the loop has been asked to quit, before it started or by one of them.\<close>

fun av_loop :: "avahi \<Rightarrow> lxi_info \<Rightarrow> av_call list \<Rightarrow> av_log \<Rightarrow> av_log" where
  "av_loop av info [] l = l"
| "av_loop av info (call # calls) l =
     (if quit_requested l then l else av_loop av info calls (av_dispatch av info call l))"

section \<open>Discovery\<close>

text \<open>
  \<^verbatim>\<open>sb[count++] = avahi_service_browser_new(...)\<close>: the browser is created, then stored at the old \<^verbatim>\<open>count\<close>.
\<close>

definition create_service_browser ::
    "avahi \<Rightarrow> string \<Rightarrow> avahi_state \<Rightarrow> av_log \<Rightarrow> (int \<times> avahi_state \<times> av_log) c" where
  "create_service_browser av service st l =
     (let b = av_browser_new av l service;
          l = l @ [Av_browser_new service b]
      in if 0 \<le> av_count st \<and> nat (av_count st) < length (av_sb st)
         then ret (if b = None then 1 else 0,
                   st\<lparr>av_sb := (av_sb st)[nat (av_count st) := b], av_count := av_count st + 1\<rparr>, l)
         else fail Out_Of_Bounds)"

fun create_browsers ::
    "avahi \<Rightarrow> string list \<Rightarrow> avahi_state \<Rightarrow> av_log \<Rightarrow> (bool \<times> avahi_state \<times> av_log) c" where
  "create_browsers av [] st l = ret (True, st, l)"
| "create_browsers av (service # services) st l =
     cbind (create_service_browser av service st l)
       (\<lambda>(r, st, l). if r \<noteq> 0 then ret (False, st, l) else create_browsers av services st l)"

text \<open>
  \<^verbatim>\<open>while (--count >= 0) avahi_service_browser_free(sb[count]);\<close> the library asserts that the browser is not null and
  reads it.
\<close>

function free_browsers :: "avahi_state \<Rightarrow> av_log \<Rightarrow> (avahi_state \<times> av_log) c" where
  "free_browsers st l =
     (let n = av_count st - 1; st = st\<lparr>av_count := n\<rparr> in
      if 0 \<le> n
      then if nat n < length (av_sb st)
           then (case av_sb st ! nat n of
                   None \<Rightarrow> fail Null_Deref
                 | Some b \<Rightarrow> free_browsers st (l @ [Av_browser_free b]))
           else fail Out_Of_Bounds
      else ret (st, l))"
  by auto

termination
  by (relation "measure (\<lambda>(st, l). nat (av_count st))") auto

definition avahi_cleanup :: "int \<Rightarrow> nat \<Rightarrow> avahi_state \<Rightarrow> av_log \<Rightarrow> (int \<times> avahi_state \<times> av_log) c" where
  "avahi_cleanup status client st l =
     cbind (free_browsers st l) (\<lambda>(st, l). ret (status, st, l @ [Av_client_free client, Av_poll_free]))"

definition avahi_types :: "string list" where
  "avahi_types = [''_lxi._tcp'', ''_vxi-11._tcp'', ''_scpi-raw._tcp'', ''_scpi-telnet._tcp'', ''_hislip._tcp'']"

definition avahi_discover ::
    "avahi \<Rightarrow> lxi_info \<Rightarrow> int \<Rightarrow> avahi_state \<Rightarrow> av_log \<Rightarrow> (int \<times> avahi_state \<times> av_log) c" where
  "avahi_discover av info timeout st l =
     (let st = st\<lparr>av_info := info\<rparr>;
          poll = av_poll_new av l; l = l @ [Av_poll_new poll]
      in if \<not> poll then ret (1, st, l)
         else let api = av_poll_get av l; l = l @ [Av_poll_get api] in
         if \<not> api then ret (1, st, l @ [Av_poll_free])
         else let l = av_client_callbacks (av_client_calls av l) l;
                  client = av_client_new av l; l = l @ [Av_client_new client] in
         case client of
           None \<Rightarrow> ret (1, st, l @ [Av_poll_free])
         | Some c \<Rightarrow>
             cbind (create_browsers av avahi_types st l)
               (\<lambda>(ok, st, l).
                 if \<not> ok then avahi_cleanup 1 c st l
                 else let l = l @ [Av_timeout_new timeout, Av_loop] in
                      avahi_cleanup 0 c st (av_loop av (av_info st) (av_calls av l) l)))"

declare free_browsers.simps [simp del]

section \<open>Browsers are created in order and freed in reverse\<close>

lemma free_browsers_spec:
  assumes "0 \<le> av_count st" and "nat (av_count st) \<le> length (av_sb st)"
    and "None \<notin> set (take (nat (av_count st)) (av_sb st))"
  shows "free_browsers st l =
    ret (st\<lparr>av_count := -1\<rparr>, l @ map (Av_browser_free \<circ> the) (rev (take (nat (av_count st)) (av_sb st))))"
  using assms
proof (induction "nat (av_count st)" arbitrary: st l)
  case 0
  then show ?case by (subst free_browsers.simps) simp
next
  case (Suc n)
  let ?st = "st\<lparr>av_count := int n\<rparr>"
  have n: "av_count st - 1 = int n" using Suc.hyps(2) by simp
  have tk: "take (nat (av_count st)) (av_sb st) = take n (av_sb st) @ [av_sb st ! n]"
    using Suc.hyps(2) Suc.prems by (metis Suc_le_eq take_Suc_conv_app_nth)
  then obtain b where b: "av_sb st ! n = Some b" "None \<notin> set (take n (av_sb st))" 
    using Suc.prems(3) by (cases "av_sb st ! n") auto
  have "free_browsers st l = free_browsers ?st (l @ [Av_browser_free b])"
    using Suc.hyps(2) Suc.prems n b(1) by (subst free_browsers.simps) simp
  moreover have "free_browsers ?st l' =
      ret (?st\<lparr>av_count := -1\<rparr>, l' @ map (Av_browser_free \<circ> the) (rev (take n (av_sb st))))" for l'
    using Suc.hyps(1) [of ?st l'] Suc.hyps(2) Suc.prems b(2) by simp
  ultimately show ?case using tk b(1) by simp
qed

lemma free_browsers_null:
  assumes "nat (av_count st) \<le> length (av_sb st)" and "take (nat (av_count st)) (av_sb st) = bs @ [None]"
  shows "free_browsers st l = fail Null_Deref"
proof -
  have len: "nat (av_count st) = Suc (length bs)"
    using arg_cong [OF assms(2), of length] assms(1) by simp
  then have n: "av_count st - 1 = int (length bs)" by simp
  have "av_sb st ! length bs = take (nat (av_count st)) (av_sb st) ! length bs" using len by simp
  then have "av_sb st ! length bs = None" unfolding assms(2) by simp
  then show ?thesis using n len assms(1) by (subst free_browsers.simps) simp
qed

text \<open>
  What the library returns for the service types in turn, behind a log; the code asks for no browser behind the first
  null pointer.
\<close>

fun offered :: "avahi \<Rightarrow> string list \<Rightarrow> av_log \<Rightarrow> nat option list" where
  "offered av [] l = []"
| "offered av (type # types) l =
     (case av_browser_new av l type of
        None \<Rightarrow> [None]
      | Some b \<Rightarrow> Some b # offered av types (l @ [Av_browser_new type (Some b)]))"

lemma offered_null: "None \<in> set (offered av types l) \<Longrightarrow> \<exists>bs. offered av types l = bs @ [None]"
proof (induction av types l rule: offered.induct)
  case (2 av type types l)
  then show ?case by (fastforce split: option.splits)
qed simp

lemma offered_all: "None \<notin> set (offered av types l) \<Longrightarrow> length (offered av types l) = length types"
  by (induction av types l rule: offered.induct) (auto split: option.splits)

lemma offered_made: "\<forall>l t. av_browser_new av l t \<noteq> None \<Longrightarrow> None \<notin> set (offered av types l)"
  by (induction av types l rule: offered.induct) (auto split: option.splits)

lemma create_browsers_spec:
  assumes "0 \<le> av_count st" and "nat (av_count st) + length types \<le> length (av_sb st)"
  shows "\<exists>st'. create_browsers av types st l =
      ret (None \<notin> set (offered av types l), st', l @ map2 Av_browser_new types (offered av types l)) \<and>
    0 \<le> av_count st' \<and> nat (av_count st') \<le> length (av_sb st') \<and> av_info st' = av_info st \<and>
    take (nat (av_count st')) (av_sb st') = take (nat (av_count st)) (av_sb st) @ offered av types l"
  using assms
proof (induction types arbitrary: st l)
  case (Cons type types)
  let ?k = "nat (av_count st)"
  define b where "b = av_browser_new av l type"
  define st1 where "st1 = st\<lparr>av_sb := (av_sb st)[?k := b], av_count := av_count st + 1\<rparr>"
  have k: "?k < length (av_sb st)" using Cons.prems by simp
  have create: "create_service_browser av type st l =
      ret (if b = None then 1 else 0, st1, l @ [Av_browser_new type b])"
    using Cons.prems k by (simp add: create_service_browser_def b_def st1_def Let_def)
  have tk: "take (nat (av_count st1)) (av_sb st1) = take ?k (av_sb st) @ [b]"
    using k Cons.prems(1) by (simp add: st1_def nat_add_distrib take_Suc_conv_app_nth)
  have ok: "0 \<le> av_count st1" "nat (av_count st1) + length types \<le> length (av_sb st1)" "av_info st1 = av_info st"
    using Cons.prems by (simp_all add: st1_def nat_add_distrib)
  show ?case
  proof (cases b)
    case None
    then show ?thesis using create tk ok b_def by (auto simp: Let_def)
  next
    case (Some x)
    then show ?thesis
      using create tk ok b_def Cons.IH [OF ok(1,2), of "l @ [Av_browser_new type (Some x)]"] by (auto simp: Let_def)
  qed
qed simp

section \<open>Callbacks and the main loop\<close>

lemma quit_requested_simps [simp]:
  "\<not> quit_requested []"
  "quit_requested (l @ [e]) \<longleftrightarrow> e = Av_quit \<or> e \<noteq> Av_poll_new True \<and> quit_requested l"
  by (auto simp: quit_requested_def)

lemma quit_requested_append:
  "Av_poll_new True \<notin> set new \<Longrightarrow> quit_requested (l @ new) \<longleftrightarrow> Av_quit \<in> set new \<or> quit_requested l"
proof (induction new rule: rev_induct)
  case (snoc e new)
  then show ?case using quit_requested_simps(2) [of "l @ new" e] by auto
qed simp

lemmas callback_defs =
  avahi_resolve_callback_def avahi_browse_callback_def avahi_client_callback_def avahi_terminate_def

lemma av_client_callbacks_quits:
  "av_client_callbacks states l = l @ replicate (count_list states AVAHI_CLIENT_FAILURE) Av_quit"
  by (induction states arbitrary: l) (auto simp: avahi_client_callback_def)

text \<open>What the application hears in a log, and what a callback resolved and whether it stops the main loop.\<close>

definition reported :: "av_log \<Rightarrow> (string \<times> string \<times> string \<times> 16 word) list" where
  "reported l = concat (map (\<lambda>e. case e of Av_service a n t p \<Rightarrow> [(a, n, t, p)] | _ \<Rightarrow> []) l)"

fun call_quits :: "av_call \<Rightarrow> bool" where
  "call_quits (Call_browse b event name type domain) = (event = AVAHI_BROWSER_FAILURE)"
| "call_quits (Call_client state) = (state = AVAHI_CLIENT_FAILURE)"
| "call_quits Call_terminate = True"
| "call_quits (Call_resolve r event name type addr port) = False"

fun resolved :: "av_call \<Rightarrow> (string \<times> string \<times> string \<times> 16 word) list" where
  "resolved (Call_resolve r AVAHI_RESOLVER_FOUND name type addr port) = [(addr, name, pretty_type type, port)]"
| "resolved _ = []"

lemma reported_append [simp]: "reported (l @ l') = reported l @ reported l'"
  by (simp add: reported_def)

lemma reported_other [simp]:
  "reported [] = []" "reported (replicate k Av_quit) = []" "reported (map (Av_browser_free \<circ> the) bs) = []"
  "reported (map2 Av_browser_new ts bs) = []"
  by (induction k) (auto simp: reported_def comp_def split: prod.splits)

text \<open>What the callbacks do: they make and free resolvers, tell the application and ask the main loop to quit.\<close>

fun callback_event :: "av_event \<Rightarrow> bool" where
  "callback_event (Av_resolver_new name type domain ok) = True"
| "callback_event (Av_service addr name type port) = True"
| "callback_event (Av_resolver_free r) = True"
| "callback_event Av_quit = True"
| "callback_event _ = False"

lemma callback_events_poll: "list_all callback_event new \<Longrightarrow> Av_poll_new True \<notin> set new"
  by (auto simp: list_all_iff)

lemma av_dispatch_extends:
  "\<exists>new. av_dispatch av info call l = l @ new \<and> list_all callback_event new \<and>
    reported new = (if info_service info then resolved call else []) \<and> (Av_quit \<in> set new \<longleftrightarrow> call_quits call)"
  by (cases call) (auto simp: callback_defs reported_def split: resolver_event.splits browser_event.splits)

text \<open>
  Every service the main loop resolved before it was asked to quit is reported once and in order, when a service
  callback is registered.
\<close>

lemma av_loop_reports:
  "\<exists>new. av_loop av info calls l = l @ new \<and> list_all callback_event new \<and>
    reported new = (if info_service info \<and> \<not> quit_requested l
      then concat (map resolved (takeWhile (\<lambda>call. \<not> call_quits call) calls)) else [])"
proof (induction calls arbitrary: l)
  case (Cons call calls)
  obtain new where 1: "av_dispatch av info call l = l @ new" "list_all callback_event new"
    "reported new = (if info_service info then resolved call else [])" "Av_quit \<in> set new \<longleftrightarrow> call_quits call"
    using av_dispatch_extends by blast
  obtain more where 2: "av_loop av info calls (l @ new) = (l @ new) @ more" "list_all callback_event more"
    "reported more = (if info_service info \<and> \<not> quit_requested (l @ new)
      then concat (map resolved (takeWhile (\<lambda>call. \<not> call_quits call) calls)) else [])"
    using Cons.IH by blast
  have "call_quits call \<Longrightarrow> resolved call = []" by (cases call) auto
  then show ?case
    using 1 2 quit_requested_append [OF callback_events_poll [OF 1(2)], of l]
    by (cases "quit_requested l") (auto intro!: exI [of _ "new @ more"])
qed simp

section \<open>A discovery\<close>

text \<open>A library whose main loop object and client can be made.\<close>

definition avahi_up :: "avahi \<Rightarrow> nat \<Rightarrow> bool" where
  "avahi_up av c \<longleftrightarrow> (\<forall>l. av_poll_new av l \<and> av_poll_get av l \<and> av_client_new av l = Some c)"

text \<open>The static variables of a process that has made no discovery yet.\<close>

definition avahi_fresh :: "avahi_state \<Rightarrow> bool" where
  "avahi_fresh st \<longleftrightarrow> av_count st = 0 \<and> length (av_sb st) = 10"

text \<open>
  The log when the client \<open>c\<close> has been made: the client callback has asked the main loop to quit for each failure it
  was told of.
\<close>

definition client_log :: "avahi \<Rightarrow> nat \<Rightarrow> av_log \<Rightarrow> av_log" where
  "client_log av c l =
     (let l = l @ [Av_poll_new True, Av_poll_get True] in
      l @ replicate (count_list (av_client_calls av l) AVAHI_CLIENT_FAILURE) Av_quit @ [Av_client_new (Some c)])"

definition browsers :: "avahi \<Rightarrow> nat \<Rightarrow> av_log \<Rightarrow> nat option list" where
  "browsers av c l = offered av avahi_types (client_log av c l)"

text \<open>When the main loop starts, it has been asked to quit exactly if a client callback did so.\<close>

lemma quit_at_loop:
  "quit_requested ((client_log av c l @ map2 Av_browser_new types bs) @ [Av_timeout_new t, Av_loop]) \<longleftrightarrow>
    AVAHI_CLIENT_FAILURE \<in> set (av_client_calls av (l @ [Av_poll_new True, Av_poll_get True]))"
proof -
  let ?states = "av_client_calls av (l @ [Av_poll_new True, Av_poll_get True])"
  define tail where "tail = [Av_poll_get True] @ replicate (count_list ?states AVAHI_CLIENT_FAILURE) Av_quit @
    [Av_client_new (Some c)] @ map2 Av_browser_new types bs @ [Av_timeout_new t, Av_loop]"
  have "Av_poll_new True \<notin> set tail" "Av_quit \<in> set tail \<longleftrightarrow> AVAHI_CLIENT_FAILURE \<in> set ?states"
    using count_list_0_iff [of ?states AVAHI_CLIENT_FAILURE] by (auto simp: tail_def)
  then show ?thesis
    using quit_requested_append [of tail "l @ [Av_poll_new True]"] by (simp add: tail_def client_log_def Let_def)
qed

lemma avahi_discover_run:
  assumes "avahi_up av c" and "avahi_fresh st"
  shows "if None \<in> set (browsers av c l) then avahi_discover av info timeout st l = fail Null_Deref
    else \<exists>l' new st'. avahi_discover av info timeout st l =
        ret (0, st', client_log av c l @ map2 Av_browser_new avahi_types (browsers av c l) @
          [Av_timeout_new timeout, Av_loop] @ new @ map (Av_browser_free \<circ> the) (rev (browsers av c l)) @
          [Av_client_free c, Av_poll_free]) \<and>
      list_all callback_event new \<and> av_count st' = -1 \<and>
      reported new = (if info_service info \<and>
          AVAHI_CLIENT_FAILURE \<notin> set (av_client_calls av (l @ [Av_poll_new True, Av_poll_get True]))
        then concat (map resolved (takeWhile (\<lambda>call. \<not> call_quits call) (av_calls av l'))) else [])"
proof -
  let ?st = "st\<lparr>av_info := info\<rparr>"
  let ?bs = "browsers av c l"
  define l1 where "l1 = client_log av c l @ map2 Av_browser_new avahi_types ?bs"
  define l2 where "l2 = l1 @ [Av_timeout_new timeout, Av_loop]"
  have start: "0 \<le> av_count ?st" "nat (av_count ?st) + length avahi_types \<le> length (av_sb ?st)"
    using assms(2) by (simp_all add: avahi_fresh_def avahi_types_def)
  obtain st1 where cr: "create_browsers av avahi_types ?st (client_log av c l) = ret (None \<notin> set ?bs, st1, l1)"
    "0 \<le> av_count st1" "nat (av_count st1) \<le> length (av_sb st1)" "av_info st1 = info"
    "take (nat (av_count st1)) (av_sb st1) = ?bs"
    using create_browsers_spec [OF start, of av "client_log av c l"] assms(2)
    by (auto simp: browsers_def l1_def avahi_fresh_def)
  have unf: "avahi_discover av info timeout st l =
      (if None \<in> set ?bs then avahi_cleanup 1 c st1 l1 else avahi_cleanup 0 c st1 (av_loop av info (av_calls av l2) l2))"
    using cr(1,4) assms(1)
    by (simp add: avahi_discover_def Let_def avahi_up_def av_client_callbacks_quits client_log_def l2_def)
  obtain new where loop: "av_loop av info (av_calls av l2) l2 = l2 @ new" "list_all callback_event new"
    "reported new = (if info_service info \<and>
        AVAHI_CLIENT_FAILURE \<notin> set (av_client_calls av (l @ [Av_poll_new True, Av_poll_get True]))
      then concat (map resolved (takeWhile (\<lambda>call. \<not> call_quits call) (av_calls av l2))) else [])"
    using av_loop_reports [of av info "av_calls av l2" l2] quit_at_loop [of av c l avahi_types ?bs timeout]
    unfolding l1_def l2_def by auto
  show ?thesis
  proof (cases "None \<in> set ?bs")
    case True
    then obtain bs where "?bs = bs @ [None]" using offered_null unfolding browsers_def by blast
    then show ?thesis using unf True free_browsers_null [OF cr(3), of bs l1] cr(5) by (simp add: avahi_cleanup_def)
  next
    case False
    then have "avahi_cleanup 0 c st1 (l2 @ new) = ret (0, st1\<lparr>av_count := -1\<rparr>,
        (l2 @ new) @ map (Av_browser_free \<circ> the) (rev ?bs) @ [Av_client_free c, Av_poll_free])"
      using free_browsers_spec [OF cr(2,3), of "l2 @ new"] cr(5) by (simp add: avahi_cleanup_def)
    then show ?thesis
      using unf False loop unfolding if_not_P [OF False]
      by (intro exI [of _ l2] exI [of _ new] exI [of _ "st1\<lparr>av_count := -1\<rparr>"]) (auto simp: l1_def l2_def)
  qed
qed

text \<open>
  C29. What a discovery acquires and releases, from a fresh state, with a library that makes the main loop object and
  the client. Browsers are requested for the five types in order. When the library makes all five, the result is 0, and
  behind the callbacks of the main loop the five browsers are freed in reverse order, then the client and the main
  loop object; nothing else is made or freed but resolvers, by the callbacks, and the fill of the array is -1. When the
  library cannot make one of them, the clean-up hands its null pointer to \<^verbatim>\<open>avahi_service_browser_free\<close>, which the
  library does not allow: the run is undefined and nothing is released.
\<close>

theorem avahi_discover_releases:
  assumes "avahi_up av c" and "avahi_fresh st"
  shows "if None \<in> set (browsers av c l) then avahi_discover av info timeout st l = fail Null_Deref
    else length (browsers av c l) = 5 \<and>
      (\<exists>new st'. avahi_discover av info timeout st l =
        ret (0, st', client_log av c l @ map2 Av_browser_new avahi_types (browsers av c l) @
          [Av_timeout_new timeout, Av_loop] @ new @ map (Av_browser_free \<circ> the) (rev (browsers av c l)) @
          [Av_client_free c, Av_poll_free]) \<and>
      list_all callback_event new \<and> av_count st' = -1)"
proof -
  have "None \<notin> set (browsers av c l) \<Longrightarrow> length (browsers av c l) = 5"
    using offered_all [of av avahi_types] by (simp add: browsers_def avahi_types_def)
  then show ?thesis using avahi_discover_run [OF assms, of l info timeout] by (auto split: if_splits)
qed

text \<open>A library that makes everything and reports one service before the timeout.\<close>

definition demo_avahi :: avahi where
  "demo_avahi = \<lparr>av_poll_new = (\<lambda>l. True), av_poll_get = (\<lambda>l. True), av_client_calls = (\<lambda>l. [AVAHI_CLIENT_OTHER]),
     av_client_new = (\<lambda>l. Some 1), av_browser_new = (\<lambda>l t. Some (length l)), av_resolver_new = (\<lambda>l n t d. True),
     av_calls = (\<lambda>l. [Call_browse 3 AVAHI_BROWSER_NEW ''scope'' ''_lxi._tcp'' ''local'',
       Call_resolve 9 AVAHI_RESOLVER_FOUND ''scope'' ''_lxi._tcp'' ''10.0.0.7'' 80, Call_terminate])\<rparr>"

definition service_info :: lxi_info where
  "service_info = \<lparr>info_broadcast = False, info_device = False, info_service = True\<rparr>"

lemma demo_avahi_ready: "avahi_up demo_avahi 1" "avahi_fresh avahi_start"
  by (simp_all add: avahi_up_def demo_avahi_def avahi_fresh_def avahi_start_def)

text \<open>The same library when it cannot make the third browser.\<close>

definition short_avahi :: avahi where
  "short_avahi = demo_avahi\<lparr>av_browser_new := (\<lambda>l t. if t = ''_scpi-raw._tcp'' then None else Some (length l))\<rparr>"

lemma short_avahi_ready: "avahi_up short_avahi 1"
  by (simp add: avahi_up_def short_avahi_def demo_avahi_def)

lemma demo_browsers:
  "browsers demo_avahi 1 [] = [Some 3, Some 4, Some 5, Some 6, Some 7]"
  "browsers short_avahi 1 [] = [Some 3, Some 4, None]"
  by (simp_all add: browsers_def client_log_def avahi_types_def short_avahi_def demo_avahi_def)

theorem avahi_discover_releases_witness:
  "(\<exists>new st'. avahi_discover demo_avahi service_info 1000 avahi_start [] =
      ret (0, st', client_log demo_avahi 1 [] @ map2 Av_browser_new avahi_types [Some 3, Some 4, Some 5, Some 6, Some 7] @
        [Av_timeout_new 1000, Av_loop] @ new @ map Av_browser_free [7, 6, 5, 4, 3] @ [Av_client_free 1, Av_poll_free]) \<and>
      list_all callback_event new \<and> av_count st' = -1) \<and>
   avahi_discover short_avahi service_info 1000 avahi_start [] = fail Null_Deref"
  using avahi_discover_releases [OF demo_avahi_ready, of "[]" service_info 1000]
    avahi_discover_releases [OF short_avahi_ready demo_avahi_ready(2), of "[]" service_info 1000]
  unfolding demo_browsers by simp

text \<open>
  Discovery works once: \<^verbatim>\<open>count\<close> is static and left at -1 by the loop that frees the browsers, so the
  next discovery in the same process stores its first browser in front of the array.
\<close>

lemma avahi_second_discovery:
  assumes "avahi_up av c" and "av_count st = -1"
  shows "avahi_discover av info timeout st l = fail Out_Of_Bounds"
  using assms by (simp add: avahi_discover_def avahi_up_def avahi_types_def create_service_browser_def Let_def)

lemma client_log_extends: "\<exists>log. client_log av c l = l @ log \<and> reported log = []"
  unfolding client_log_def Let_def append_assoc append.simps
  by (intro exI conjI, rule refl) (simp add: reported_def)

text \<open>What a discovery reports.\<close>

lemma avahi_discover_told:
  assumes "avahi_up av c" and "avahi_fresh st" and "\<forall>l. av_calls av l = calls" and "\<forall>l. av_client_calls av l = states"
  shows "if None \<in> set (browsers av c l) then avahi_discover av info timeout st l = fail Null_Deref
    else \<exists>st' log. avahi_discover av info timeout st l = ret (0, st', l @ log) \<and>
      reported log = (if info_service info \<and> AVAHI_CLIENT_FAILURE \<notin> set states
        then concat (map resolved (takeWhile (\<lambda>call. \<not> call_quits call) calls)) else [])"
proof (cases "None \<in> set (browsers av c l)")
  case False
  let ?bs = "browsers av c l"
  obtain new st' where run: "avahi_discover av info timeout st l =
      ret (0, st', client_log av c l @ map2 Av_browser_new avahi_types ?bs @ [Av_timeout_new timeout, Av_loop] @ new @
        map (Av_browser_free \<circ> the) (rev ?bs) @ [Av_client_free c, Av_poll_free])"
    and new: "reported new = (if info_service info \<and> AVAHI_CLIENT_FAILURE \<notin> set states
      then concat (map resolved (takeWhile (\<lambda>call. \<not> call_quits call) calls)) else [])"
    using avahi_discover_run [OF assms(1,2), of l info timeout] False assms(3,4) by auto
  obtain pre where pre: "client_log av c l = l @ pre" "reported pre = []" using client_log_extends by blast
  have quiet: "reported [Av_client_free c, Av_poll_free] = []" "reported [Av_timeout_new timeout, Av_loop] = []"
    by (simp_all add: reported_def)
  show ?thesis using False run new unfolding pre(1) append_assoc
    by (auto simp: reported_append pre(2) quiet simp del: append_Cons append_Nil)
qed (use avahi_discover_run [OF assms(1,2)] in auto)

text \<open>
  C30. What the application hears of a discovery from a fresh state, with a library that makes the main loop object
  and the client. When it makes the five browsers too, the discovery returns 0; then, if the client did not fail
  while it was made and a service callback is registered, every service the main loop resolved before it was asked
  to quit is reported once, in order, with its address, name and port and the name of its type, and in all other
  cases nothing is reported. When a browser could not be made, the run ends in the null pointer it frees.
\<close>

theorem avahi_discover_reports:
  assumes "avahi_up av c" and "avahi_fresh st" and "\<forall>l. av_calls av l = calls" and "\<forall>l. av_client_calls av l = states"
  shows "if None \<in> set (browsers av c l) then avahi_discover av info timeout st l = fail Null_Deref
    else \<exists>st' log. avahi_discover av info timeout st l = ret (0, st', l @ log) \<and>
      reported log = (if info_service info \<and> AVAHI_CLIENT_FAILURE \<notin> set states
        then concat (map resolved (takeWhile (\<lambda>call. \<not> call_quits call) calls)) else [])"
  using avahi_discover_told [OF assms] .

theorem avahi_discover_reports_witness:
  "\<exists>st' log. avahi_discover demo_avahi service_info 1000 avahi_start [] = ret (0, st', log) \<and>
    reported log = [(''10.0.0.7'', ''scope'', ''lxi'', 80)]"
proof -
  let ?calls = "[Call_browse 3 AVAHI_BROWSER_NEW ''scope'' ''_lxi._tcp'' ''local'',
    Call_resolve 9 AVAHI_RESOLVER_FOUND ''scope'' ''_lxi._tcp'' ''10.0.0.7'' 80, Call_terminate]"
  have "\<forall>l. av_calls demo_avahi l = ?calls" "\<forall>l. av_client_calls demo_avahi l = [AVAHI_CLIENT_OTHER]"
    by (simp_all add: demo_avahi_def)
  from avahi_discover_reports [OF demo_avahi_ready this, of "[]" service_info 1000] show ?thesis
    unfolding demo_browsers by (simp add: pretty_type_def service_info_def)
qed

text \<open>
  The names the Avahi callback prints are those of the table of service types in \<^verbatim>\<open>lxi.c\<close>, whose
  entries end with a dot; the types it browses are the entries of the table.
\<close>

lemma avahi_types_match_table:
  "avahi_types = map (\<lambda>(t, n). butlast t) lxi_services \<and>
   (\<forall>type. pretty_type type = service_name lxi_services (type @ ''.''))"
  by (auto simp: avahi_types_def lxi_services_def pretty_type_def)

end
