(* ===== verification/Dns_sd.thy ===== *)
theory Dns_sd
  imports Services Tcp
begin

text \<open>
  What the two DNS-SD backends, \<^verbatim>\<open>src/src/bonjour.c\<close> and \<^verbatim>\<open>src/src/cygwin_dnssd.c\<close>, share: the library
  they call, as the parameter \<open>dnssd\<close>, the log of the calls, and the data a browse callback hands to
  the resolve callback. No function of the two files is here: each has its own theory.
\<close>

text \<open>A reply to a browse or to a resolve operation, as the library passes it to the callback.\<close>

record browse_reply =
  br_error :: int
  br_index :: nat
  br_name :: string
  br_regtype :: string
  br_domain :: string

record resolve_reply =
  rr_error :: int
  rr_host :: string
  rr_port :: "16 word"

text \<open>
  \<^verbatim>\<open>browse_data_t\<close>; the pointer to the callbacks is a parameter of the functions instead. The strings are the results
  of \<^verbatim>\<open>strdup\<close>, which the code does not check: \<open>None\<close> is the null pointer.
\<close>

record browse_data =
  bd_servicename :: "string option"
  bd_regtype :: "string option"

text \<open>
  An address or an interface name the code hands on without knowing that it was filled in is an option, and so is the
  copied name of a service. \<^verbatim>\<open>free\<close> of a null pointer does nothing and is no event.
\<close>

datatype sd_event =
    Sd_browse string int nat
  | Sd_select int timeval int
  | Sd_process nat int
  | Sd_broadcast string "string option"
  | Sd_alloc bool
  | Sd_strdup string bool
  | Sd_resolve string string int nat
  | Sd_getaddrinfo string string int
  | Sd_service "string option" "string option" string nat
  | Sd_free
  | Sd_deallocate nat
  | Sd_dlopen bool
  | Sd_dlsym string bool
  | Sd_dlclose

type_synonym sd_log = "sd_event list"

text \<open>
  \<^verbatim>\<open>DNSServiceProcessResult\<close> returns an error code and makes the callbacks of the operation, any number
  of them; \<^verbatim>\<open>getaddrinfo\<close> gives an error code and, on success, a list of addresses. \<^verbatim>\<open>select\<close> gives its result
  and what is left of the timeout: POSIX allows it to store that through its last argument, and Linux does.
\<close>

record dnssd =
  sd_browse :: "sd_log \<Rightarrow> string \<Rightarrow> int \<times> nat"
  sd_fd :: "nat \<Rightarrow> int"
  sd_select :: "sd_log \<Rightarrow> int \<Rightarrow> timeval \<Rightarrow> int \<times> timeval"
  sd_process_browse :: "sd_log \<Rightarrow> nat \<Rightarrow> int \<times> browse_reply list"
  sd_resolve :: "sd_log \<Rightarrow> nat \<Rightarrow> string \<Rightarrow> string \<Rightarrow> string \<Rightarrow> int \<times> nat"
  sd_process_resolve :: "sd_log \<Rightarrow> nat \<Rightarrow> int \<times> resolve_reply list"
  sd_getaddrinfo :: "sd_log \<Rightarrow> string \<Rightarrow> string \<Rightarrow> int \<times> 32 word list"
  sd_ntop :: "32 word \<Rightarrow> string"
  sd_if_name :: "nat \<Rightarrow> string option"
  sd_malloc :: "sd_log \<Rightarrow> bool"

text \<open>\<^verbatim>\<open>strdup\<close> and \<^verbatim>\<open>free\<close>, with the memory the system has.\<close>

definition sd_strdup :: "dnssd \<Rightarrow> string \<Rightarrow> sd_log \<Rightarrow> string option \<times> sd_log" where
  "sd_strdup sd str l =
     (let ok = sd_malloc sd l in (if ok then Some str else None, l @ [Sd_strdup str ok]))"

definition sd_free :: "'a option \<Rightarrow> sd_log \<Rightarrow> sd_log" where
  "sd_free p l = (case p of None \<Rightarrow> l | Some _ \<Rightarrow> l @ [Sd_free])"

definition kDNSServiceErr_NoError :: int where "kDNSServiceErr_NoError = 0"

text \<open>The byte order of a port number on a little-endian host.\<close>

definition ntohs :: "16 word \<Rightarrow> 16 word" where
  "ntohs w = push_bit 8 w OR drop_bit 8 w"

lemma ntohs_ntohs [simp]: "ntohs (ntohs w) = w"
  unfolding ntohs_def by (rule bit_word_eqI) (auto simp: bit_simps not_le intro: ccontr)

text \<open>The operations that are open: created, less those deallocated.\<close>

fun ref_change :: "sd_event \<Rightarrow> nat \<Rightarrow> int" where
  "ref_change (Sd_browse t e ref) x = (if e = 0 \<and> ref = x then 1 else 0)"
| "ref_change (Sd_resolve n t e ref) x = (if e = 0 \<and> ref = x then 1 else 0)"
| "ref_change (Sd_deallocate ref) x = (if ref = x then -1 else 0)"
| "ref_change _ x = 0"

definition refs_open :: "sd_log \<Rightarrow> nat \<Rightarrow> int" where
  "refs_open l x = (\<Sum>e\<leftarrow>l. ref_change e x)"

lemma refs_open_append [simp]: "refs_open (l @ l') x = refs_open l x + refs_open l' x"
  by (simp add: refs_open_def)

lemma refs_open_simps [simp]:
  "refs_open [] x = 0"
  "refs_open (e # l) x = ref_change e x + refs_open l x"
  by (simp_all add: refs_open_def)

text \<open>The decimal digits of a 16-bit port and its terminator fit in six bytes.\<close>

lemma length_show_nat: "n < 10 ^ k \<Longrightarrow> 0 < k \<Longrightarrow> length (show_nat n) \<le> k"
proof (induction k arbitrary: n)
  case (Suc k)
  show ?case
  proof (cases "n < 10")
    case True
    then show ?thesis by (subst show_nat.simps) simp
  next
    case False
    then have "0 < k" using Suc.prems by (cases k) auto
    moreover have "n div 10 < 10 ^ k" using Suc.prems by (simp add: less_mult_imp_div_less mult.commute)
    ultimately have "length (show_nat (n div 10)) \<le> k" by (intro Suc.IH)
    then show ?thesis using False by (subst show_nat.simps) simp
  qed
qed simp

end
