(* ===== verification/Bonjour.thy ===== *)
theory Bonjour
  imports Dns_sd
begin

text \<open>
  Discovery over DNS-SD on systems with Bonjour, \<^verbatim>\<open>src/src/bonjour.c\<close>: one browse operation per service
  type, waited for in turn; a reply announces the service and resolves it at once, and its
  resolution reports address and port. The callbacks run inside the calls that process results.
\<close>

section \<open>Callbacks\<close>

text \<open>The address of a host, when the lookup gave one. A failed lookup leaves the list uninitialised.\<close>

definition resolve_ip_address :: "dnssd \<Rightarrow> string \<Rightarrow> 16 word \<Rightarrow> sd_log \<Rightarrow> (string option \<times> sd_log) c" where
  "resolve_ip_address sd hostname port l =
     (let port_str = show_nat (unat port);
          (r, servinfo) = sd_getaddrinfo sd l hostname port_str;
          l = l @ [Sd_getaddrinfo hostname port_str r]
      in if 6 < length port_str + 1 then fail Out_Of_Bounds
         else if r \<noteq> 0 then fail Bad_Pointer
         else case servinfo of
                [] \<Rightarrow> ret (None, l)
              | a # _ \<Rightarrow> ret (Some (sd_ntop sd a), l))"

text \<open>The data is freed at the end: \<open>None\<close> in the result.\<close>

definition resolve_callback ::
    "dnssd \<Rightarrow> lxi_info \<Rightarrow> resolve_reply \<Rightarrow> browse_data option \<Rightarrow> sd_log \<Rightarrow> (browse_data option \<times> sd_log) c" where
  "resolve_callback sd info reply context l =
     (if rr_error reply \<noteq> kDNSServiceErr_NoError then ret (context, l)
      else cbind (resolve_ip_address sd (rr_host reply) (rr_port reply) l)
        (\<lambda>(ip_address, l).
          case context of
            None \<Rightarrow> fail Use_After_Free
          | Some browse_data \<Rightarrow>
              case bd_regtype browse_data of
                None \<Rightarrow> fail Null_Deref
              | Some regtype \<Rightarrow>
                  if \<not> info_service info then fail Null_Deref
                  else let l = l @ [Sd_service ip_address (bd_servicename browse_data)
                                      (service_name lxi_services regtype) (unat (ntohs (rr_port reply)))];
                           l = sd_free (bd_regtype browse_data) l;
                           l = sd_free (bd_servicename browse_data) l
                       in ret (None, l @ [Sd_free])))"

fun resolve_callbacks ::
    "dnssd \<Rightarrow> lxi_info \<Rightarrow> resolve_reply list \<Rightarrow> browse_data option \<Rightarrow> sd_log \<Rightarrow> (browse_data option \<times> sd_log) c" where
  "resolve_callbacks sd info [] context l = ret (context, l)"
| "resolve_callbacks sd info (reply # replies) context l =
     cbind (resolve_callback sd info reply context l)
       (\<lambda>(context, l). resolve_callbacks sd info replies context l)"

definition browse_callback :: "dnssd \<Rightarrow> lxi_info \<Rightarrow> browse_reply \<Rightarrow> sd_log \<Rightarrow> sd_log c" where
  "browse_callback sd info reply l =
     (if br_error reply \<noteq> kDNSServiceErr_NoError then ret l
      else if \<not> info_broadcast info then fail Null_Deref
      else let l = l @ [Sd_broadcast (br_name reply) (sd_if_name sd (br_index reply))];
               allocated = sd_malloc sd l; l = l @ [Sd_alloc allocated]
      in if \<not> allocated then ret l
      else let (servicename, l) = sd_strdup sd (br_name reply) l;
               (regtype, l) = sd_strdup sd (br_regtype reply) l;
               browse_data = \<lparr>bd_servicename = servicename, bd_regtype = regtype\<rparr>;
               (error, resolveService) =
                 sd_resolve sd l (br_index reply) (br_name reply) (br_regtype reply) (br_domain reply);
               l = l @ [Sd_resolve (br_name reply) (br_regtype reply) error resolveService]
      in if error \<noteq> kDNSServiceErr_NoError then ret l
      else let (error, replies) = sd_process_resolve sd l resolveService;
               l = l @ [Sd_process resolveService error]
      in cbind (resolve_callbacks sd info replies (Some browse_data) l)
           (\<lambda>(_, l). if error \<noteq> kDNSServiceErr_NoError then ret l else ret (l @ [Sd_deallocate resolveService])))"

fun browse_callbacks :: "dnssd \<Rightarrow> lxi_info \<Rightarrow> browse_reply list \<Rightarrow> sd_log \<Rightarrow> sd_log c" where
  "browse_callbacks sd info [] l = ret l"
| "browse_callbacks sd info (reply # replies) l =
     cbind (browse_callback sd info reply l) (\<lambda>l. browse_callbacks sd info replies l)"

section \<open>Discovery\<close>

text \<open>
  The loop over the table. The timeout is set once, before the loop, so that each wait starts with what the
  one before left of it. The result is the operation of the last iteration, or \<open>None\<close> when the function
  returned from inside the loop.
\<close>

fun browse_loop ::
    "dnssd \<Rightarrow> lxi_info \<Rightarrow> timeval \<Rightarrow> (string \<times> string) list \<Rightarrow> nat option \<Rightarrow> sd_log \<Rightarrow> (nat option \<times> sd_log) c" where
  "browse_loop sd info timeout [] service l = ret (service, l)"
| "browse_loop sd info timeout ((broadcast_type, name) # services) service l =
     (let (error, service) = sd_browse sd l broadcast_type;
          l = l @ [Sd_browse broadcast_type error service]
      in if error \<noteq> kDNSServiceErr_NoError then ret (None, l)
      else cbind (FD_SET (sd_fd sd service)) (\<lambda>_.
           let (result, left) = sd_select sd l (sd_fd sd service) timeout;
               l = l @ [Sd_select (sd_fd sd service) timeout result];
               timeout = left
           in if 0 < result
           then let (error, replies) = sd_process_browse sd l service;
                    l = l @ [Sd_process service error]
                in cbind (browse_callbacks sd info replies l)
                     (\<lambda>l. if error \<noteq> kDNSServiceErr_NoError then ret (None, l)
                          else browse_loop sd info timeout services (Some service) l)
           else if result = 0 then browse_loop sd info timeout services (Some service) l
           else ret (None, l)))"

definition browse_lxi_services :: "dnssd \<Rightarrow> lxi_info \<Rightarrow> int \<Rightarrow> sd_log \<Rightarrow> sd_log c" where
  "browse_lxi_services sd info timeout_ms l =
     cbind (browse_loop sd info (ms_to_timeval timeout_ms) lxi_services None l)
       (\<lambda>(service, l). case service of None \<Rightarrow> ret l | Some ref \<Rightarrow> ret (l @ [Sd_deallocate ref]))"

definition bonjour_discover :: "dnssd \<Rightarrow> lxi_info \<Rightarrow> int \<Rightarrow> sd_log \<Rightarrow> sd_log c" where
  "bonjour_discover sd info timeout_ms l = browse_lxi_services sd info timeout_ms l"

section \<open>One service\<close>

lemma port_str_fits: "length (show_nat (unat (port :: 16 word))) + 1 \<le> 6"
proof -
  have "unat port < 10 ^ 5" using unsigned_less [of port, where ?'a = nat] by simp
  then show ?thesis using length_show_nat [of "unat port" 5] by simp
qed

lemma resolve_ip_address_found:
  assumes "sd_getaddrinfo sd l hostname (show_nat (unat port)) = (0, a # as)"
  shows "resolve_ip_address sd hostname port l =
    ret (Some (sd_ntop sd a), l @ [Sd_getaddrinfo hostname (show_nat (unat port)) 0])"
  using assms port_str_fits [of port] by (simp add: resolve_ip_address_def)

text \<open>The calls made for one service that is found and resolved.\<close>

definition service_trace ::
    "dnssd \<Rightarrow> browse_reply \<Rightarrow> nat \<Rightarrow> string \<Rightarrow> 16 word \<Rightarrow> 32 word \<Rightarrow> sd_log" where
  "service_trace sd reply ref host port a =
     [Sd_broadcast (br_name reply) (sd_if_name sd (br_index reply)), Sd_alloc True,
      Sd_strdup (br_name reply) True, Sd_strdup (br_regtype reply) True,
      Sd_resolve (br_name reply) (br_regtype reply) 0 ref, Sd_process ref 0,
      Sd_getaddrinfo host (show_nat (unat port)) 0,
      Sd_service (Some (sd_ntop sd a)) (Some (br_name reply)) (service_name lxi_services (br_regtype reply))
        (unat (ntohs port)), Sd_free, Sd_free, Sd_free, Sd_deallocate ref]"

text \<open>
  Four ways in which the callbacks crash: an application that registered no broadcast or no service
  callback (both are optional for the other backends), a service type that could not be copied, and a library that
  answers one resolve operation twice, since the first answer frees the data the second one reads.
\<close>

lemma bonjour_callbacks_crash:
  assumes "br_error reply = 0" and "rr_error r = 0" and "rr_error r' = 0"
    and "\<forall>l. sd_getaddrinfo sd l (rr_host r) (show_nat (unat (rr_port r))) = (0, a # as)"
    and "\<forall>l. sd_getaddrinfo sd l (rr_host r') (show_nat (unat (rr_port r'))) = (0, b # bs)"
  shows "(\<not> info_broadcast info \<longrightarrow> browse_callback sd info reply l = fail Null_Deref) \<and>
    (\<not> info_service info \<or> bd_regtype d = None \<longrightarrow> resolve_callback sd info r (Some d) l = fail Null_Deref) \<and>
    (info_service info \<and> bd_regtype d \<noteq> None \<longrightarrow>
      resolve_callbacks sd info [r, r'] (Some d) l = fail Use_After_Free)"
proof -
  have "resolve_ip_address sd (rr_host r) (rr_port r) l' =
      ret (Some (sd_ntop sd a), l' @ [Sd_getaddrinfo (rr_host r) (show_nat (unat (rr_port r))) 0])"
    "resolve_ip_address sd (rr_host r') (rr_port r') l' =
      ret (Some (sd_ntop sd b), l' @ [Sd_getaddrinfo (rr_host r') (show_nat (unat (rr_port r'))) 0])" for l'
    using assms(4,5) by (simp_all add: resolve_ip_address_found)
  then show ?thesis
    using assms(1-3)
    by (cases "bd_regtype d") (simp_all add: browse_callback_def resolve_callback_def kDNSServiceErr_NoError_def)
qed

section \<open>A network with services\<close>

text \<open>
  What the application hears of a log, which browse operations it made, and the balance of the memory for the data
  handed to the resolve callback and its two strings.
\<close>

definition told :: "sd_log \<Rightarrow> (string option \<times> string option \<times> string \<times> nat) list" where
  "told l = concat (map (\<lambda>e. case e of Sd_service a n t p \<Rightarrow> [(a, n, t, p)] | _ \<Rightarrow> []) l)"

definition heard :: "sd_log \<Rightarrow> (string \<times> string option) list" where
  "heard l = concat (map (\<lambda>e. case e of Sd_broadcast n i \<Rightarrow> [(n, i)] | _ \<Rightarrow> []) l)"

definition browsed :: "sd_log \<Rightarrow> (string \<times> nat) list" where
  "browsed l = concat (map (\<lambda>e. case e of Sd_browse t _ ref \<Rightarrow> [(t, ref)] | _ \<Rightarrow> []) l)"

definition data_live :: "sd_log \<Rightarrow> int" where
  "data_live l = (\<Sum>e\<leftarrow>l. case e of Sd_alloc True \<Rightarrow> 1 | Sd_strdup _ True \<Rightarrow> 1 | Sd_free \<Rightarrow> -1 | _ \<Rightarrow> 0)"

lemma log_views_append [simp]:
  "told (l @ l') = told l @ told l'" "heard (l @ l') = heard l @ heard l'" "browsed (l @ l') = browsed l @ browsed l'"
  "data_live (l @ l') = data_live l + data_live l'"
  by (simp_all add: told_def heard_def browsed_def data_live_def)

lemmas log_views = told_def heard_def browsed_def data_live_def

text \<open>
  A network as the DNS-SD library shows it: the services offered under each type in time, the host and port
  behind each name, and the address of each host.
\<close>

locale sd_network =
  fixes sd :: dnssd and offers :: "string \<Rightarrow> browse_reply list" and place :: "string \<Rightarrow> string \<Rightarrow> string \<times> 16 word"
    and addr :: "string \<Rightarrow> 32 word"
  assumes browse: "fst (sd_browse sd l t) = 0"
    and descriptors: "0 \<le> sd_fd sd ref" "sd_fd sd ref < 1024"
    and waits: "fst (sd_select sd (l @ [Sd_browse t 0 ref]) (sd_fd sd ref) tv) = (if offers t = [] then 0 else 1)"
    and replies: "sd_process_browse sd (l @ [Sd_browse t 0 ref, Sd_select fd tv 1]) ref = (0, offers t)"
    and clean: "r \<in> set (offers t) \<Longrightarrow> br_error r = 0"
    and memory: "sd_malloc sd l"
    and resolve: "fst (sd_resolve sd l i n t d) = 0"
    and resolved: "sd_process_resolve sd (l @ [Sd_resolve n t 0 ref]) ref =
      (0, [\<lparr>rr_error = 0, rr_host = fst (place n t), rr_port = snd (place n t)\<rparr>])"
    and addresses: "\<exists>as. sd_getaddrinfo sd l host p = (0, addr host # as)"
begin

text \<open>What the application should hear of a service.\<close>

definition service_entry :: "browse_reply \<Rightarrow> string option \<times> string option \<times> string \<times> nat" where
  "service_entry r =
     (case place (br_name r) (br_regtype r) of
        (host, port) \<Rightarrow>
          (Some (sd_ntop sd (addr host)), Some (br_name r), service_name lxi_services (br_regtype r), unat (ntohs port)))"

lemma browse_callback_found:
  assumes "r \<in> set (offers t)" and "info_broadcast info" and "info_service info"
  obtains ref where "browse_callback sd info r l =
    ret (l @ service_trace sd r ref (fst (place (br_name r) (br_regtype r))) (snd (place (br_name r) (br_regtype r)))
      (addr (fst (place (br_name r) (br_regtype r)))))"
proof -
  let ?l = "l @ [Sd_broadcast (br_name r) (sd_if_name sd (br_index r)), Sd_alloc True,
    Sd_strdup (br_name r) True, Sd_strdup (br_regtype r) True]"
  let ?host = "fst (place (br_name r) (br_regtype r))" and ?port = "snd (place (br_name r) (br_regtype r))"
  obtain ref where ref: "sd_resolve sd ?l (br_index r) (br_name r) (br_regtype r) (br_domain r) = (0, ref)"
    using resolve by (metis prod.collapse)
  have res: "sd_process_resolve sd (?l @ [Sd_resolve (br_name r) (br_regtype r) 0 ref]) ref =
      (0, [\<lparr>rr_error = 0, rr_host = ?host, rr_port = ?port\<rparr>])" by (rule resolved)
  have ip: "resolve_ip_address sd ?host ?port l' =
      ret (Some (sd_ntop sd (addr ?host)), l' @ [Sd_getaddrinfo ?host (show_nat (unat ?port)) 0])" for l'
    using addresses [of l' ?host] resolve_ip_address_found by metis
  have "browse_callback sd info r l = ret (l @ service_trace sd r ref ?host ?port (addr ?host))"
    using assms(2,3) clean [OF assms(1)] memory ref res
    by (simp add: browse_callback_def resolve_callback_def ip kDNSServiceErr_NoError_def service_trace_def
        sd_strdup_def sd_free_def)
  then show thesis by (rule that)
qed

lemma browse_callbacks_found:
  assumes "set rs \<subseteq> set (offers t)" and "info_broadcast info" and "info_service info"
  obtains new where "browse_callbacks sd info rs l = ret (l @ new)"
    "told new = map service_entry rs" "heard new = map (\<lambda>r. (br_name r, sd_if_name sd (br_index r))) rs"
    "browsed new = []" "data_live new = 0" "\<forall>x. refs_open new x = 0"
proof -
  have "\<exists>new. browse_callbacks sd info rs l = ret (l @ new) \<and> told new = map service_entry rs \<and>
      heard new = map (\<lambda>r. (br_name r, sd_if_name sd (br_index r))) rs \<and> browsed new = [] \<and> data_live new = 0 \<and>
      (\<forall>x. refs_open new x = 0)"
    using assms(1)
  proof (induction rs arbitrary: l)
    case Nil
    show ?case by (intro exI [of _ "[]"]) (simp add: log_views)
  next
    case (Cons r rs)
    let ?host = "fst (place (br_name r) (br_regtype r))" and ?port = "snd (place (br_name r) (br_regtype r))"
    obtain ref where 1: "browse_callback sd info r l = ret (l @ service_trace sd r ref ?host ?port (addr ?host))"
      using browse_callback_found [OF _ assms(2,3)] Cons.prems by (metis list.set_intros(1) subsetD)
    let ?tr = "service_trace sd r ref ?host ?port (addr ?host)"
    have tr: "told ?tr = [service_entry r]" "heard ?tr = [(br_name r, sd_if_name sd (br_index r))]" "browsed ?tr = []"
      "data_live ?tr = 0" "refs_open ?tr x = 0" for x
      by (simp_all add: service_trace_def log_views service_entry_def split: prod.splits)
    obtain new where "browse_callbacks sd info rs (l @ ?tr) = ret ((l @ ?tr) @ new)" "told new = map service_entry rs"
      "heard new = map (\<lambda>r. (br_name r, sd_if_name sd (br_index r))) rs" "browsed new = []" "data_live new = 0"
      "\<forall>x. refs_open new x = 0"
      using Cons.IH [of "l @ ?tr"] Cons.prems by auto
    then show ?case using 1 tr by (intro exI [of _ "?tr @ new"]) simp
  qed
  then show thesis using that by blast
qed

text \<open>The loop: every type is browsed and waited for, what is offered is reported, and no operation is deallocated.\<close>

lemma browse_loop_found:
  assumes info: "info_broadcast info" "info_service info"
  shows "\<exists>new refs. browse_loop sd info timeout services service l =
      ret (if services = [] then service else Some (last refs), l @ new) \<and> length refs = length services \<and>
    browsed new = zip (map fst services) refs \<and>
    told new = concat (map (\<lambda>(t, n). map service_entry (offers t)) services) \<and>
    heard new = concat (map (\<lambda>(t, n). map (\<lambda>r. (br_name r, sd_if_name sd (br_index r))) (offers t)) services) \<and>
    data_live new = 0 \<and> (\<forall>x. refs_open new x = int (count_list refs x))"
proof (induction services arbitrary: timeout service l)
  case Nil
  show ?case by (intro exI [of _ "[]"]) (simp add: log_views)
next
  case (Cons s services)
  obtain t n where s: "s = (t, n)" by fastforce
  obtain ref where b: "sd_browse sd l t = (0, ref)" using browse [of l t] by (metis prod.collapse)
  have fd: "FD_SET (sd_fd sd ref) = ret ()" using descriptors [of ref] by (simp add: FD_SET_def FD_SETSIZE_def)
  let ?r = "if offers t = [] then 0 else 1 :: int"
  obtain left where sel: "sd_select sd (l @ [Sd_browse t 0 ref]) (sd_fd sd ref) timeout = (?r, left)"
    using waits [of l t ref timeout] by (cases "sd_select sd (l @ [Sd_browse t 0 ref]) (sd_fd sd ref) timeout") simp
  let ?l = "l @ [Sd_browse t 0 ref, Sd_select (sd_fd sd ref) timeout ?r]"
  define more where "more = (if offers t = [] then [] else [Sd_process ref 0])"
  obtain cb where cb: "browse_callbacks sd info (offers t) (?l @ more) = ret ((?l @ more) @ cb)"
    "told cb = map service_entry (offers t)" "heard cb = map (\<lambda>r. (br_name r, sd_if_name sd (br_index r))) (offers t)"
    "browsed cb = []" "data_live cb = 0" "\<forall>x. refs_open cb x = 0"
    using browse_callbacks_found [OF subset_refl info] by blast
  have none: "offers t = [] \<Longrightarrow> cb = []" using cb(1) by simp
  have step: "browse_loop sd info timeout (s # services) service l =
      browse_loop sd info left services (Some ref) ((?l @ more) @ cb)"
    using b fd sel replies [of l t ref "sd_fd sd ref" timeout] cb(1) none
    by (cases "offers t = []") (simp_all add: s more_def kDNSServiceErr_NoError_def)
  obtain new refs where rest: "browse_loop sd info left services (Some ref) ((?l @ more) @ cb) =
      ret (if services = [] then Some ref else Some (last refs), ((?l @ more) @ cb) @ new)"
    "length refs = length services" "browsed new = zip (map fst services) refs"
    "told new = concat (map (\<lambda>(t, n). map service_entry (offers t)) services)"
    "heard new = concat (map (\<lambda>(t, n). map (\<lambda>r. (br_name r, sd_if_name sd (br_index r))) (offers t)) services)"
    "data_live new = 0" "\<forall>x. refs_open new x = int (count_list refs x)"
    using Cons.IH [of left "Some ref" "(?l @ more) @ cb"] by blast
  have "refs = [] \<longleftrightarrow> services = []" using rest(2) by auto
  moreover have "told more = []" "heard more = []" "browsed more = []" "data_live more = 0" "refs_open more x = 0" for x
    by (simp_all add: more_def log_views)
  ultimately show ?case
    using step rest cb s
    by (intro exI [of _ "[Sd_browse t 0 ref, Sd_select (sd_fd sd ref) timeout ?r] @ more @ cb @ new"]
        exI [of _ "ref # refs"]) (auto simp: log_views)
qed

end

text \<open>
  A network given by a directory of the services under each type (interface, name and domain), their places and
  the addresses of the hosts. Operations are numbered by the length of the log.
\<close>

definition directory_offers :: "(string \<Rightarrow> (nat \<times> string \<times> string) list) \<Rightarrow> string \<Rightarrow> browse_reply list" where
  "directory_offers dir t =
     map (\<lambda>(i, n, d). \<lparr>br_error = 0, br_index = i, br_name = n, br_regtype = t, br_domain = d\<rparr>) (dir t)"

fun directory_browse :: "(string \<Rightarrow> (nat \<times> string \<times> string) list) \<Rightarrow> sd_log \<Rightarrow> browse_reply list" where
  "directory_browse dir (Sd_select fd tv r # Sd_browse t e ref # l) = directory_offers dir t"
| "directory_browse dir _ = []"

fun directory_resolve :: "(string \<Rightarrow> string \<Rightarrow> string \<times> 16 word) \<Rightarrow> sd_log \<Rightarrow> resolve_reply list" where
  "directory_resolve place (Sd_resolve n t e ref # l) =
     [\<lparr>rr_error = 0, rr_host = fst (place n t), rr_port = snd (place n t)\<rparr>]"
| "directory_resolve place _ = []"

fun directory_wait :: "(string \<Rightarrow> (nat \<times> string \<times> string) list) \<Rightarrow> sd_log \<Rightarrow> int" where
  "directory_wait dir (Sd_browse t e ref # l) = (if dir t = [] then 0 else 1)"
| "directory_wait dir _ = 0"

definition directory_sd ::
    "(string \<Rightarrow> (nat \<times> string \<times> string) list) \<Rightarrow> (string \<Rightarrow> string \<Rightarrow> string \<times> 16 word) \<Rightarrow> (string \<Rightarrow> 32 word) \<Rightarrow>
     (32 word \<Rightarrow> string) \<Rightarrow> (nat \<Rightarrow> string option) \<Rightarrow> dnssd" where
  "directory_sd dir place addr ntop ifname =
     \<lparr>sd_browse = (\<lambda>l t. (0, length l)), sd_fd = (\<lambda>ref. 4),
      sd_select = (\<lambda>l fd tv. (directory_wait dir (rev l), tv)),
      sd_process_browse = (\<lambda>l ref. (0, directory_browse dir (rev l))),
      sd_resolve = (\<lambda>l i n t d. (0, length l)),
      sd_process_resolve = (\<lambda>l ref. (0, directory_resolve place (rev l))),
      sd_getaddrinfo = (\<lambda>l h p. (0, [addr h])), sd_ntop = ntop, sd_if_name = ifname, sd_malloc = (\<lambda>l. True)\<rparr>"

interpretation dns: sd_network "directory_sd dir place addr ntop ifname" "directory_offers dir" place addr
  for dir place addr ntop ifname
  by unfold_locales (auto simp: directory_sd_def directory_offers_def)

lemma bonjour_discover_found:
  assumes "sd_network sd offers place addr" and "info_broadcast info" and "info_service info"
  shows "\<exists>new refs. bonjour_discover sd info timeout_ms l = ret (l @ new) \<and>
    browsed new = zip (map fst lxi_services) refs \<and> length refs = 5 \<and>
    told new = concat (map (\<lambda>(t, n). map (sd_network.service_entry sd place addr) (offers t)) lxi_services) \<and>
    heard new = concat (map (\<lambda>(t, n). map (\<lambda>r. (br_name r, sd_if_name sd (br_index r))) (offers t)) lxi_services) \<and>
    data_live new = 0 \<and> (\<forall>x. refs_open new x = int (count_list (butlast refs) x))"
proof -
  obtain new refs where run: "browse_loop sd info (ms_to_timeval timeout_ms) lxi_services None l =
      ret (if lxi_services = [] then None else Some (last refs), l @ new)" "length refs = length lxi_services"
    "browsed new = zip (map fst lxi_services) refs"
    "told new = concat (map (\<lambda>(t, n). map (sd_network.service_entry sd place addr) (offers t)) lxi_services)"
    "heard new = concat (map (\<lambda>(t, n). map (\<lambda>r. (br_name r, sd_if_name sd (br_index r))) (offers t)) lxi_services)"
    "data_live new = 0" "\<forall>x. refs_open new x = int (count_list refs x)"
    using sd_network.browse_loop_found [OF assms, of "ms_to_timeval timeout_ms" lxi_services None l] by blast
  have five: "length lxi_services = 5" "lxi_services \<noteq> []" by (simp_all add: lxi_services_def)
  then have refs: "refs = butlast refs @ [last refs]" using run(2) by (metis append_butlast_last_id length_0_conv)
  have "count_list refs x = count_list (butlast refs) x + (if last refs = x then 1 else 0)" for x
    by (subst refs) (simp add: count_list_append)
  then show ?thesis
    using run five
    by (intro exI [of _ "new @ [Sd_deallocate (last refs)]"] exI [of _ refs])
      (auto simp: bonjour_discover_def browse_lxi_services_def log_views)
qed

text \<open>
  C31. What \<^verbatim>\<open>bonjour_discover\<close> finds on a network with services: it browses the five types of the table in their
  order; for every service offered in time the application is told of the service and its interface, then of its
  first address, its name, the name of its type and its port in host byte order, in the order of the
  replies; the data handed between the callbacks and its strings are freed and every resolve operation deallocated. Of the five
  browse operations only the last is deallocated: the first four stay open.
\<close>

theorem bonjour_discover_reports:
  assumes "sd_network sd offers place addr" and "info_broadcast info" and "info_service info"
  shows "\<exists>new refs. bonjour_discover sd info timeout_ms l = ret (l @ new) \<and>
    browsed new = zip (map fst lxi_services) refs \<and> length refs = 5 \<and>
    told new = concat (map (\<lambda>(t, n). map (sd_network.service_entry sd place addr) (offers t)) lxi_services) \<and>
    heard new = concat (map (\<lambda>(t, n). map (\<lambda>r. (br_name r, sd_if_name sd (br_index r))) (offers t)) lxi_services) \<and>
    data_live new = 0 \<and> (\<forall>x. refs_open new x = int (count_list (butlast refs) x))"
  using assms by (rule bonjour_discover_found)

text \<open>A bench with one oscilloscope, offered under the first type of the table.\<close>

definition bench_sd :: dnssd where
  "bench_sd = directory_sd (\<lambda>t. if t = ''_lxi._tcp.'' then [(2, ''scope'', ''local'')] else [])
     (\<lambda>n t. (''scope.local'', 0x5000)) (\<lambda>host. 0x0A000007) (\<lambda>a. ''10.0.0.7'') (\<lambda>i. Some ''eth0'')"

definition all_info :: lxi_info where
  "all_info = \<lparr>info_broadcast = True, info_device = True, info_service = True\<rparr>"

lemma bench_port: "unat (ntohs 0x5000) = 80"
  by (simp add: ntohs_def)

theorem bonjour_discover_reports_witness:
  "\<exists>new refs. bonjour_discover bench_sd all_info 1000 [] = ret ([] @ new) \<and>
    browsed new = zip (map fst lxi_services) refs \<and> length refs = 5 \<and>
    told new = [(Some ''10.0.0.7'', Some ''scope'', ''lxi'', 80)] \<and> heard new = [(''scope'', Some ''eth0'')] \<and>
    data_live new = 0 \<and> (\<forall>x. refs_open new x = int (count_list (butlast refs) x))"
  using bonjour_discover_reports [OF dns.sd_network_axioms, of all_info
      "\<lambda>t. if t = ''_lxi._tcp.'' then [(2, ''scope'', ''local'')] else []" "\<lambda>n t. (''scope.local'', 0x5000)"
      "\<lambda>host. 0x0A000007" "\<lambda>a. ''10.0.0.7''" "\<lambda>i. Some ''eth0''" 1000 "[]"]
  by (simp add: bench_sd_def all_info_def directory_offers_def lxi_services_def dns.service_entry_def bench_port)
    (simp add: directory_sd_def)

section \<open>How long each type is waited for\<close>

definition waited :: "sd_log \<Rightarrow> timeval list" where
  "waited l = concat (map (\<lambda>e. case e of Sd_select fd tv r \<Rightarrow> [tv] | _ \<Rightarrow> []) l)"

text \<open>A system whose \<^verbatim>\<open>select\<close> stores the time that is left, on a network where no service answers.\<close>

definition silent :: "dnssd \<Rightarrow> bool" where
  "silent sd \<longleftrightarrow> (\<forall>l t. fst (sd_browse sd l t) = 0) \<and> (\<forall>ref. 0 \<le> sd_fd sd ref \<and> sd_fd sd ref < 1024) \<and>
     (\<forall>l fd tv. sd_select sd l fd tv = (0, \<lparr>tv_sec = 0, tv_usec = 0\<rparr>))"

lemma browse_loop_silent:
  assumes "silent sd"
  shows "\<exists>service' new. browse_loop sd info timeout services service l = ret (service', l @ new) \<and>
    waited new = take (length services) (timeout # replicate (length services) \<lparr>tv_sec = 0, tv_usec = 0\<rparr>)"
proof (induction services arbitrary: timeout service l)
  case Nil
  show ?case by (intro exI [of _ service] exI [of _ "[]"]) (simp add: waited_def)
next
  case (Cons s services)
  let ?zero = "\<lparr>tv_sec = 0, tv_usec = 0\<rparr>"
  obtain t n where s: "s = (t, n)" by fastforce
  obtain ref where b: "sd_browse sd l t = (0, ref)" using assms by (metis silent_def prod.collapse)
  have fd: "FD_SET (sd_fd sd ref) = ret ()" using assms by (simp add: silent_def FD_SET_def FD_SETSIZE_def)
  let ?new = "[Sd_browse t 0 ref, Sd_select (sd_fd sd ref) timeout 0]"
  obtain service' new where "browse_loop sd info ?zero services (Some ref) (l @ ?new) = ret (service', (l @ ?new) @ new)"
    "waited new = take (length services) (?zero # replicate (length services) ?zero)"
    using Cons.IH by blast
  moreover have "sd_select sd l' x timeout = (0, ?zero)" for l' x using assms by (simp add: silent_def)
  moreover have "take (length services) (?zero # replicate (length services) ?zero) = replicate (length services) ?zero"
    unfolding replicate_Suc [symmetric] take_replicate by simp
  ultimately show ?case
    using b fd by (intro exI [of _ service'] exI [of _ "?new @ new"])
      (simp add: s kDNSServiceErr_NoError_def waited_def)
qed

text \<open>Only the first of the five types is then waited for; the others are polled.\<close>

lemma bonjour_waits_once:
  assumes "silent sd"
  shows "\<exists>new. bonjour_discover sd info timeout_ms l = ret (l @ new) \<and>
    waited new = ms_to_timeval timeout_ms # replicate 4 \<lparr>tv_sec = 0, tv_usec = 0\<rparr>"
proof -
  obtain service new where "browse_loop sd info (ms_to_timeval timeout_ms) lxi_services None l = ret (service, l @ new)"
    "waited new = take (length lxi_services)
      (ms_to_timeval timeout_ms # replicate (length lxi_services) \<lparr>tv_sec = 0, tv_usec = 0\<rparr>)"
    using browse_loop_silent [OF assms] by blast
  then show ?thesis
    by (intro exI [of _ "new @ (case service of None \<Rightarrow> [] | Some ref \<Rightarrow> [Sd_deallocate ref])"])
      (auto simp: bonjour_discover_def browse_lxi_services_def waited_def lxi_services_def numeral_eq_Suc
        split: option.split)
qed

end
