(* ===== verification/Cygwin_dnssd.thy ===== *)
theory Cygwin_dnssd
  imports Dns_sd
begin

text \<open>
  Discovery over DNS-SD on Cygwin, \<^verbatim>\<open>src/src/cygwin_dnssd.c\<close>: the functions of \<^verbatim>\<open>dnssd.dll\<close> are loaded at run
  time into five static pointers and called through them; the callbacks and the loop are a copy of
  those for Bonjour, with a table of service types of their own. A call through a pointer that is
  null is a fault. Sockets are those of Windows, whose \<^verbatim>\<open>FD_SET\<close> does not index by descriptor; the timeout is a
  constant here, so that every wait starts with all of it.
\<close>

definition lxi_services :: "(string \<times> string) list" where
  "lxi_services =
     [(''_lxi._tcp.'', ''lxi''),
      (''_vxi-11._tcp.'', ''vxi-11''),
      (''_scpi-raw._tcp.'', ''scpi-raw''),
      (''_scpi-telnet._tcp.'', ''scpi-telnet''),
      (''_hislip._tcp.'', ''hislip'')]"

section \<open>The library\<close>

text \<open>The static pointers: which of them are not null.\<close>

record dll =
  hDnssdDLL :: bool
  DNSServiceBrowse_Dll :: bool
  DNSServiceResolve_Dll :: bool
  DNSServiceProcessResult_Dll :: bool
  DNSServiceRefDeallocate_Dll :: bool
  DNSServiceRefSockFD_Dll :: bool

definition dll_null :: dll where
  "dll_null = \<lparr>hDnssdDLL = False, DNSServiceBrowse_Dll = False, DNSServiceResolve_Dll = False,
     DNSServiceProcessResult_Dll = False, DNSServiceRefDeallocate_Dll = False, DNSServiceRefSockFD_Dll = False\<rparr>"

text \<open>The dynamic linker: whether the library opens and which symbols it has.\<close>

record linker =
  ld_open :: "sd_log \<Rightarrow> bool"
  ld_sym :: "sd_log \<Rightarrow> string \<Rightarrow> bool"

definition ld_dlsym :: "linker \<Rightarrow> string \<Rightarrow> sd_log \<Rightarrow> bool \<times> sd_log" where
  "ld_dlsym ld name l = (ld_sym ld l name, l @ [Sd_dlsym name (ld_sym ld l name)])"

definition error_load :: "sd_log \<Rightarrow> int \<times> dll \<times> sd_log" where
  "error_load l = (-1, dll_null, l @ [Sd_dlclose])"

definition load_cygwin_dnssd_dll :: "linker \<Rightarrow> dll \<Rightarrow> sd_log \<Rightarrow> int \<times> dll \<times> sd_log" where
  "load_cygwin_dnssd_dll ld st l =
     (if hDnssdDLL st then (0, st, l)
      else let ok = ld_open ld l; st = st\<lparr>hDnssdDLL := ok\<rparr>; l = l @ [Sd_dlopen ok] in
      if \<not> ok then (-1, st, l)
      else let (p, l) = ld_dlsym ld ''DNSServiceBrowse'' l; st = st\<lparr>DNSServiceBrowse_Dll := p\<rparr> in
      if \<not> p then error_load l
      else let (p, l) = ld_dlsym ld ''DNSServiceResolve'' l; st = st\<lparr>DNSServiceResolve_Dll := p\<rparr> in
      if \<not> p then error_load l
      else let (p, l) = ld_dlsym ld ''DNSServiceProcessResult'' l; st = st\<lparr>DNSServiceProcessResult_Dll := p\<rparr> in
      if \<not> p then error_load l
      else let (p, l) = ld_dlsym ld ''DNSServiceRefDeallocate'' l; st = st\<lparr>DNSServiceRefDeallocate_Dll := p\<rparr> in
      if \<not> p then error_load l
      else let (p, l) = ld_dlsym ld ''DNSServiceRefSockFD'' l; st = st\<lparr>DNSServiceRefSockFD_Dll := p\<rparr> in
      if \<not> p then error_load l
      else (0, st, l))"

definition call_ptr :: "bool \<Rightarrow> unit c" where
  "call_ptr p = (if p then ret () else fail Null_Deref)"

section \<open>Callbacks\<close>

definition resolve_ip_address :: "dnssd \<Rightarrow> string \<Rightarrow> 16 word \<Rightarrow> sd_log \<Rightarrow> (string option \<times> sd_log) c" where
  "resolve_ip_address sd hostname port l =
     (let port_str = show_nat (unat port);
          (r, servinfo) = sd_getaddrinfo sd l hostname port_str;
          l = l @ [Sd_getaddrinfo hostname port_str r]
      in if 6 < length port_str + 1 then fail Out_Of_Bounds
         else if r \<noteq> 0 then fail Bad_Pointer
         else case servinfo of
                [] \<Rightarrow> ret (None, l)
              | a # _ \<Rightarrow> ret (Some (sd_ntop sd a), l))"

definition resolve_callback ::
    "dnssd \<Rightarrow> lxi_info \<Rightarrow> resolve_reply \<Rightarrow> browse_data option \<Rightarrow> sd_log \<Rightarrow> (browse_data option \<times> sd_log) c" where
  "resolve_callback sd info reply context l =
     (if rr_error reply \<noteq> kDNSServiceErr_NoError then ret (context, l)
      else cbind (resolve_ip_address sd (rr_host reply) (rr_port reply) l)
        (\<lambda>(ip_address, l).
          case context of
            None \<Rightarrow> fail Use_After_Free
          | Some browse_data \<Rightarrow>
              case bd_regtype browse_data of
                None \<Rightarrow> fail Null_Deref
              | Some regtype \<Rightarrow>
                  if \<not> info_service info then fail Null_Deref
                  else let l = l @ [Sd_service ip_address (bd_servicename browse_data)
                                      (service_name lxi_services regtype) (unat (ntohs (rr_port reply)))];
                           l = sd_free (bd_regtype browse_data) l;
                           l = sd_free (bd_servicename browse_data) l
                       in ret (None, l @ [Sd_free])))"

fun resolve_callbacks ::
    "dnssd \<Rightarrow> lxi_info \<Rightarrow> resolve_reply list \<Rightarrow> browse_data option \<Rightarrow> sd_log \<Rightarrow> (browse_data option \<times> sd_log) c" where
  "resolve_callbacks sd info [] context l = ret (context, l)"
| "resolve_callbacks sd info (reply # replies) context l =
     cbind (resolve_callback sd info reply context l)
       (\<lambda>(context, l). resolve_callbacks sd info replies context l)"

definition browse_callback :: "dll \<Rightarrow> dnssd \<Rightarrow> lxi_info \<Rightarrow> browse_reply \<Rightarrow> sd_log \<Rightarrow> sd_log c" where
  "browse_callback st sd info reply l =
     (if br_error reply \<noteq> kDNSServiceErr_NoError then ret l
      else if \<not> info_broadcast info then fail Null_Deref
      else let l = l @ [Sd_broadcast (br_name reply) (sd_if_name sd (br_index reply))];
               allocated = sd_malloc sd l; l = l @ [Sd_alloc allocated]
      in if \<not> allocated then ret l
      else let (servicename, l) = sd_strdup sd (br_name reply) l;
               (regtype, l) = sd_strdup sd (br_regtype reply) l;
               browse_data = \<lparr>bd_servicename = servicename, bd_regtype = regtype\<rparr>
      in cbind (call_ptr (DNSServiceResolve_Dll st)) (\<lambda>_.
           let (error, resolveService) =
                 sd_resolve sd l (br_index reply) (br_name reply) (br_regtype reply) (br_domain reply);
               l = l @ [Sd_resolve (br_name reply) (br_regtype reply) error resolveService]
      in if error \<noteq> kDNSServiceErr_NoError then ret l
      else cbind (call_ptr (DNSServiceProcessResult_Dll st)) (\<lambda>_.
           let (error, replies) = sd_process_resolve sd l resolveService;
               l = l @ [Sd_process resolveService error]
      in cbind (resolve_callbacks sd info replies (Some browse_data) l)
           (\<lambda>(_, l). if error \<noteq> kDNSServiceErr_NoError then ret l
                     else cbind (call_ptr (DNSServiceRefDeallocate_Dll st)) (\<lambda>_.
                            ret (l @ [Sd_deallocate resolveService]))))))"

fun browse_callbacks :: "dll \<Rightarrow> dnssd \<Rightarrow> lxi_info \<Rightarrow> browse_reply list \<Rightarrow> sd_log \<Rightarrow> sd_log c" where
  "browse_callbacks st sd info [] l = ret l"
| "browse_callbacks st sd info (reply # replies) l =
     cbind (browse_callback st sd info reply l) (\<lambda>l. browse_callbacks st sd info replies l)"

section \<open>Discovery\<close>

fun browse_loop ::
    "dll \<Rightarrow> dnssd \<Rightarrow> lxi_info \<Rightarrow> timeval \<Rightarrow> (string \<times> string) list \<Rightarrow> nat option \<Rightarrow> sd_log \<Rightarrow>
     (nat option \<times> sd_log) c" where
  "browse_loop st sd info timeout [] service l = ret (service, l)"
| "browse_loop st sd info timeout ((broadcast_type, name) # services) service l =
     cbind (call_ptr (DNSServiceBrowse_Dll st)) (\<lambda>_.
     let (error, service) = sd_browse sd l broadcast_type;
          l = l @ [Sd_browse broadcast_type error service]
      in if error \<noteq> kDNSServiceErr_NoError then ret (None, l)
      else cbind (call_ptr (DNSServiceRefSockFD_Dll st)) (\<lambda>_.
           let result = fst (sd_select sd l (sd_fd sd service) timeout);
               l = l @ [Sd_select (sd_fd sd service) timeout result]
           in if 0 < result
           then cbind (call_ptr (DNSServiceProcessResult_Dll st)) (\<lambda>_.
                let (error, replies) = sd_process_browse sd l service;
                    l = l @ [Sd_process service error]
                in cbind (browse_callbacks st sd info replies l)
                     (\<lambda>l. if error \<noteq> kDNSServiceErr_NoError then ret (None, l)
                          else browse_loop st sd info timeout services (Some service) l))
           else if result = 0 then browse_loop st sd info timeout services (Some service) l
           else ret (None, l)))"

definition browse_lxi_services :: "dll \<Rightarrow> dnssd \<Rightarrow> lxi_info \<Rightarrow> int \<Rightarrow> sd_log \<Rightarrow> sd_log c" where
  "browse_lxi_services st sd info timeout_ms l =
     cbind (browse_loop st sd info (ms_to_timeval timeout_ms) lxi_services None l)
       (\<lambda>(service, l).
         case service of
           None \<Rightarrow> ret l
         | Some ref \<Rightarrow> cbind (call_ptr (DNSServiceRefDeallocate_Dll st)) (\<lambda>_. ret (l @ [Sd_deallocate ref])))"

definition cygwin_dnssd_discover ::
    "linker \<Rightarrow> dnssd \<Rightarrow> lxi_info \<Rightarrow> int \<Rightarrow> dll \<Rightarrow> sd_log \<Rightarrow> (int \<times> dll \<times> sd_log) c" where
  "cygwin_dnssd_discover ld sd info timeout_ms st l =
     (case load_cygwin_dnssd_dll ld st l of
        (r, st, l) \<Rightarrow>
          if r \<noteq> 0 then ret (-1, st, l)
          else cbind (browse_lxi_services st sd info timeout_ms l) (\<lambda>l. ret (0, st, l)))"

section \<open>The library is loaded whole or not at all\<close>

definition dll_loaded :: "dll \<Rightarrow> bool" where
  "dll_loaded st \<longleftrightarrow> hDnssdDLL st \<and> DNSServiceBrowse_Dll st \<and> DNSServiceResolve_Dll st \<and>
     DNSServiceProcessResult_Dll st \<and> DNSServiceRefDeallocate_Dll st \<and> DNSServiceRefSockFD_Dll st"

definition opens :: "sd_log \<Rightarrow> int" where
  "opens l = (\<Sum>e\<leftarrow>l. case e of Sd_dlopen True \<Rightarrow> 1 | Sd_dlclose \<Rightarrow> -1 | _ \<Rightarrow> 0)"

text \<open>
  C33. The pointers are set together: from a state where the library is loaded whole or not at all,
  loading returns 0 exactly when all five functions are available afterwards, and -1 with all
  pointers null; the library is left open exactly when it is newly loaded, and a second load
  makes no call.
\<close>

theorem load_dll_all_or_nothing:
  assumes "st = dll_null \<or> dll_loaded st"
  shows "\<exists>r st' new. load_cygwin_dnssd_dll ld st l = (r, st', l @ new) \<and>
    (r = 0 \<and> dll_loaded st' \<or> r = -1 \<and> st' = dll_null) \<and>
    opens new = (if r = 0 \<and> st = dll_null then 1 else 0) \<and> (dll_loaded st \<longrightarrow> new = [])"
proof (cases "dll_loaded st")
  case True
  then have "hDnssdDLL st" by (simp add: dll_loaded_def)
  then show ?thesis using True by (auto simp: load_cygwin_dnssd_dll_def opens_def dll_null_def)
next
  case False
  then have st: "st = dll_null" using assms by simp
  show ?thesis
    unfolding st load_cygwin_dnssd_dll_def ld_dlsym_def error_load_def
    by (auto simp: Let_def dll_null_def dll_loaded_def opens_def)
qed

definition full_linker :: linker where
  "full_linker = \<lparr>ld_open = (\<lambda>l. True), ld_sym = (\<lambda>l name. True)\<rparr>"

theorem load_dll_all_or_nothing_witness:
  "\<exists>r st' new. load_cygwin_dnssd_dll full_linker dll_null [] = (r, st', [] @ new) \<and>
    (r = 0 \<and> dll_loaded st' \<or> r = -1 \<and> st' = dll_null) \<and>
    opens new = (if r = 0 \<and> dll_null = dll_null then 1 else 0) \<and> (dll_loaded dll_null \<longrightarrow> new = [])"
  by (rule load_dll_all_or_nothing) simp

end
