(* ===== verification/Mdns.thy ===== *)
theory Mdns
  imports Avahi Bonjour Cygwin_dnssd
begin

text \<open>
  Multicast DNS discovery, \<^verbatim>\<open>src/src/mdns.c\<close>: the build chooses one of the three backends, or none. Their
  static variables are one state. The theorems compare the two DNS-SD backends.
\<close>

datatype mdns_config = HAVE_AVAHI | HAVE_BONJOUR | HAVE_CYGWIN_DNSSD | HAVE_NONE

record mdns_state =
  md_avahi :: avahi_state
  md_dll :: dll
  md_av_log :: av_log
  md_sd_log :: sd_log

text \<open>The libraries of the backends, and the register a function without a result leaves its value in.\<close>

record mdns =
  md_config :: mdns_config
  md_avahi_lib :: avahi
  md_dnssd_lib :: dnssd
  md_linker :: linker
  md_register :: "sd_log \<Rightarrow> int"

definition mdns_start :: mdns_state where
  "mdns_start = \<lparr>md_avahi = avahi_start, md_dll = dll_null, md_av_log = [], md_sd_log = []\<rparr>"

text \<open>
  \<^verbatim>\<open>bonjour_discover\<close> is defined without a result and declared with one; its caller returns whatever
  is in the register.
\<close>

definition mdns_discover :: "mdns \<Rightarrow> lxi_info \<Rightarrow> int \<Rightarrow> mdns_state \<Rightarrow> (int \<times> mdns_state) c" where
  "mdns_discover md info timeout st =
     (case md_config md of
        HAVE_AVAHI \<Rightarrow>
          cbind (avahi_discover (md_avahi_lib md) info timeout (md_avahi st) (md_av_log st))
            (\<lambda>(r, av, l). ret (r, st\<lparr>md_avahi := av, md_av_log := l\<rparr>))
      | HAVE_BONJOUR \<Rightarrow>
          cbind (bonjour_discover (md_dnssd_lib md) info timeout (md_sd_log st))
            (\<lambda>l. ret (md_register md l, st\<lparr>md_sd_log := l\<rparr>))
      | HAVE_CYGWIN_DNSSD \<Rightarrow>
          cbind (cygwin_dnssd_discover (md_linker md) (md_dnssd_lib md) info timeout (md_dll st) (md_sd_log st))
            (\<lambda>(r, dll, l). ret (r, st\<lparr>md_dll := dll, md_sd_log := l\<rparr>))
      | HAVE_NONE \<Rightarrow> ret (0, st))"

section \<open>The two DNS-SD backends agree\<close>

lemma tables_agree: "Cygwin_dnssd.lxi_services = Services.lxi_services"
  by (simp add: Cygwin_dnssd.lxi_services_def Services.lxi_services_def)

lemma resolve_callback_agree:
  "Cygwin_dnssd.resolve_callback sd info reply ctx l = Bonjour.resolve_callback sd info reply ctx l"
  unfolding Cygwin_dnssd.resolve_callback_def Bonjour.resolve_callback_def
    Cygwin_dnssd.resolve_ip_address_def Bonjour.resolve_ip_address_def tables_agree ..

lemma resolve_callbacks_agree:
  "Cygwin_dnssd.resolve_callbacks sd info replies ctx l = Bonjour.resolve_callbacks sd info replies ctx l"
proof (induction replies arbitrary: ctx l)
  case (Cons reply replies)
  show ?case
    unfolding Cygwin_dnssd.resolve_callbacks.simps Bonjour.resolve_callbacks.simps resolve_callback_agree Cons.IH ..
qed simp

lemma loaded_ptrs:
  assumes "dll_loaded st"
  shows "call_ptr (DNSServiceBrowse_Dll st) = ret ()" "call_ptr (DNSServiceRefSockFD_Dll st) = ret ()"
    "call_ptr (DNSServiceProcessResult_Dll st) = ret ()" "call_ptr (DNSServiceResolve_Dll st) = ret ()"
    "call_ptr (DNSServiceRefDeallocate_Dll st) = ret ()"
  using assms by (simp_all add: dll_loaded_def call_ptr_def)

lemma browse_callback_agree:
  assumes "dll_loaded st"
  shows "Cygwin_dnssd.browse_callback st sd info reply l = Bonjour.browse_callback sd info reply l"
  unfolding Cygwin_dnssd.browse_callback_def Bonjour.browse_callback_def resolve_callbacks_agree
    loaded_ptrs [OF assms] cbind_simps ..

lemma browse_callbacks_agree:
  assumes "dll_loaded st"
  shows "Cygwin_dnssd.browse_callbacks st sd info replies l = Bonjour.browse_callbacks sd info replies l"
proof (induction replies arbitrary: l)
  case (Cons reply replies)
  show ?case
    unfolding Cygwin_dnssd.browse_callbacks.simps Bonjour.browse_callbacks.simps
      browse_callback_agree [OF assms] Cons.IH ..
qed simp

text \<open>
  The copies differ in two places: the descriptors Bonjour indexes a set by, and the timeout, which is a
  variable there and a constant on Cygwin. They agree when descriptors fit in a set and waiting leaves the
  timeout alone.
\<close>

definition plain_select :: "dnssd \<Rightarrow> bool" where
  "plain_select sd \<longleftrightarrow> (\<forall>ref. 0 \<le> sd_fd sd ref \<and> sd_fd sd ref < 1024) \<and> (\<forall>l fd tv. snd (sd_select sd l fd tv) = tv)"

lemma browse_loop_agree:
  assumes "dll_loaded st" and "plain_select sd"
  shows "Cygwin_dnssd.browse_loop st sd info timeout services service l =
    Bonjour.browse_loop sd info timeout services service l"
proof (induction services arbitrary: service l)
  case (Cons s services)
  obtain t n where s: "s = (t, n)" by fastforce
  have fd: "FD_SET (sd_fd sd ref) = ret ()" for ref
    using assms(2) by (simp add: plain_select_def FD_SET_def FD_SETSIZE_def)
  have sel: "sd_select sd l' x timeout = (fst (sd_select sd l' x timeout), timeout)" for l' x
    using assms(2) by (simp add: plain_select_def prod_eq_iff)
  show ?case
    unfolding s Cygwin_dnssd.browse_loop.simps Bonjour.browse_loop.simps loaded_ptrs [OF assms(1)] fd cbind_simps
      browse_callbacks_agree [OF assms(1)] Cons.IH
    by (subst (2) sel) (simp only: Let_def prod.case)
qed simp

lemma cygwin_discover_loaded:
  assumes "dll_loaded st" and "plain_select sd"
  shows "cygwin_dnssd_discover ld sd info timeout_ms st l =
    cbind (bonjour_discover sd info timeout_ms l) (\<lambda>l. ret (0, st, l))"
proof -
  have load: "load_cygwin_dnssd_dll ld st l = (0, st, l)"
    using assms(1) by (simp add: load_cygwin_dnssd_dll_def dll_loaded_def)
  have "Cygwin_dnssd.browse_lxi_services st sd info timeout_ms l = bonjour_discover sd info timeout_ms l"
    unfolding Cygwin_dnssd.browse_lxi_services_def bonjour_discover_def Bonjour.browse_lxi_services_def
      browse_loop_agree [OF assms] tables_agree loaded_ptrs [OF assms(1)] cbind_simps ..
  then show ?thesis by (simp add: cygwin_dnssd_discover_def load)
qed

text \<open>
  C32. On Cygwin, discovery does exactly what it does with Bonjour: once the library is loaded whole, the
  two copies of the code make the same calls in the same order and report the same services, for
  every behaviour of the library whose sockets fit in a descriptor set and every \<^verbatim>\<open>select\<close> that leaves its
  timeout alone.
\<close>

theorem cygwin_is_bonjour:
  assumes "dll_loaded st" and "plain_select sd"
  shows "cygwin_dnssd_discover ld sd info timeout_ms st l =
    cbind (bonjour_discover sd info timeout_ms l) (\<lambda>l. ret (0, st, l))"
  using assms by (rule cygwin_discover_loaded)

definition dll_full :: dll where
  "dll_full = \<lparr>hDnssdDLL = True, DNSServiceBrowse_Dll = True, DNSServiceResolve_Dll = True,
     DNSServiceProcessResult_Dll = True, DNSServiceRefDeallocate_Dll = True, DNSServiceRefSockFD_Dll = True\<rparr>"

lemma bench_ready: "dll_loaded dll_full" "plain_select bench_sd"
  by (simp_all add: dll_full_def dll_loaded_def plain_select_def bench_sd_def directory_sd_def)

theorem cygwin_is_bonjour_witness:
  "cygwin_dnssd_discover full_linker bench_sd all_info 1000 dll_full [] =
    cbind (bonjour_discover bench_sd all_info 1000 []) (\<lambda>l. ret (0, dll_full, l))"
  by (rule cygwin_is_bonjour) (rule bench_ready)+

end
