(* ===== verification/Lxi_Discover.thy ===== *)
theory Lxi_Discover
  imports Lxi Vxi11_network Mdns
begin

text \<open>
  The discovery calls of the API, the end of \<^verbatim>\<open>src/src/lxi.c\<close>: a switch on the kind of discovery. The
  state is the history of VXI-11 discovery and the state of multicast DNS discovery.
\<close>

text \<open>\<^verbatim>\<open>lxi_discover_t\<close>; the last constructor is any other value of the C enumeration type.\<close>

datatype lxi_discover_type = DISCOVER_VXI11 | DISCOVER_MDNS | Other_discover int

record discover_state =
  ds_hist :: hist
  ds_mdns :: mdns_state

definition run_vxi11 :: "(hist \<Rightarrow> (int \<times> hist) c) \<Rightarrow> discover_state \<Rightarrow> (int \<times> discover_state) c" where
  "run_vxi11 f st = cbind (f (ds_hist st)) (\<lambda>(_, h). ret (LXI_OK, st\<lparr>ds_hist := h\<rparr>))"

definition run_mdns :: "(mdns_state \<Rightarrow> (int \<times> mdns_state) c) \<Rightarrow> discover_state \<Rightarrow> (int \<times> discover_state) c" where
  "run_mdns f st = cbind (f (ds_mdns st)) (\<lambda>(_, m). ret (LXI_OK, st\<lparr>ds_mdns := m\<rparr>))"

definition lxi_discover ::
    "lan \<Rightarrow> mdns \<Rightarrow> lxi_info \<Rightarrow> int \<Rightarrow> lxi_discover_type \<Rightarrow> discover_state \<Rightarrow> (int \<times> discover_state) c" where
  "lxi_discover net md info timeout type st =
     (case type of
        DISCOVER_VXI11 \<Rightarrow> run_vxi11 (vxi11_discover net info timeout) st
      | DISCOVER_MDNS \<Rightarrow> run_mdns (mdns_discover md info timeout) st
      | Other_discover _ \<Rightarrow> ret (LXI_ERROR, st))"

definition lxi_discover_if ::
    "lan \<Rightarrow> mdns \<Rightarrow> lxi_info \<Rightarrow> string option \<Rightarrow> int \<Rightarrow> lxi_discover_type \<Rightarrow> discover_state \<Rightarrow>
     (int \<times> discover_state) c" where
  "lxi_discover_if net md info ifname timeout type st =
     (case type of
        DISCOVER_VXI11 \<Rightarrow>
          (case ifname of
             None \<Rightarrow> run_vxi11 (vxi11_discover net info timeout) st
           | Some name \<Rightarrow> run_vxi11 (vxi11_discover_if net info name timeout) st)
      | DISCOVER_MDNS \<Rightarrow> run_mdns (mdns_discover md info timeout) st
      | Other_discover _ \<Rightarrow> ret (LXI_ERROR, st))"

text \<open>
  C39. The result of discovery says only whether the kind of discovery is known: for the two kinds,
  \<^verbatim>\<open>lxi_discover\<close> and \<^verbatim>\<open>lxi_discover_if\<close> return \<^verbatim>\<open>LXI_OK\<close> whenever they return, whatever their backend
  reported; for every other value \<^verbatim>\<open>LXI_ERROR\<close>. Without an interface name the second call is the first.
\<close>

theorem lxi_discover_result:
  "(lxi_discover net md info timeout type st = ret (r, st') \<longrightarrow>
      r = (case type of Other_discover _ \<Rightarrow> LXI_ERROR | _ \<Rightarrow> LXI_OK)) \<and>
   (lxi_discover_if net md info ifname timeout type st = ret (r, st') \<longrightarrow>
      r = (case type of Other_discover _ \<Rightarrow> LXI_ERROR | _ \<Rightarrow> LXI_OK)) \<and>
   lxi_discover_if net md info None timeout type st = lxi_discover net md info timeout type st"
  by (auto simp: lxi_discover_def lxi_discover_if_def run_vxi11_def run_mdns_def cbind_ret_iff
      split: lxi_discover_type.splits option.splits)

text \<open>A build with Avahi on a machine whose Avahi daemon is down.\<close>

definition down_mdns :: mdns where
  "down_mdns = \<lparr>md_config = HAVE_AVAHI, md_avahi_lib = demo_avahi\<lparr>av_client_new := (\<lambda>l. None)\<rparr>,
     md_dnssd_lib = bench_sd, md_linker = full_linker, md_register = (\<lambda>l. 0)\<rparr>"

lemma down_discover:
  "lxi_discover (directory_lan lab quiet_posix (\<lambda>t. None)) down_mdns all_info 1000 DISCOVER_MDNS \<lparr>ds_hist = [], ds_mdns = mdns_start\<rparr> =
    ret (LXI_OK, \<lparr>ds_hist = [], ds_mdns = mdns_start\<lparr>md_avahi := avahi_start\<lparr>av_info := all_info\<rparr>,
      md_av_log := [Av_poll_new True, Av_poll_get True, Av_client_new None, Av_poll_free]\<rparr>\<rparr>)"
  by (simp add: lxi_discover_def run_mdns_def mdns_discover_def down_mdns_def demo_avahi_def avahi_discover_def
      avahi_client_callback_def mdns_start_def)

theorem lxi_discover_result_witness:
  "lxi_discover (directory_lan lab quiet_posix (\<lambda>t. None)) down_mdns all_info 1000 DISCOVER_MDNS \<lparr>ds_hist = [], ds_mdns = mdns_start\<rparr> =
    ret (LXI_OK, \<lparr>ds_hist = [], ds_mdns = mdns_start\<lparr>md_avahi := avahi_start\<lparr>av_info := all_info\<rparr>,
      md_av_log := [Av_poll_new True, Av_poll_get True, Av_client_new None, Av_poll_free]\<rparr>\<rparr>) \<and>
    LXI_OK = (case DISCOVER_MDNS of Other_discover _ \<Rightarrow> LXI_ERROR | _ \<Rightarrow> LXI_OK)"
  using lxi_discover_result [of "directory_lan lab quiet_posix (\<lambda>t. None)" down_mdns all_info 1000 DISCOVER_MDNS
      "\<lparr>ds_hist = [], ds_mdns = mdns_start\<rparr>" LXI_OK] down_discover by blast

section \<open>Discovery of VXI-11 instruments\<close>

text \<open>
  C24. Discovery over VXI-11 through the API, when the interfaces can be listed, sockets can be made and configured,
  each answer to a broadcast is read in turn until the wait times out, each host refuses the connection or answers
  \<^verbatim>\<open>*IDN?\<close> in one response that is not empty, not a lone newline and shorter than the buffer, the other remote calls
  succeed and the connecting thread ends before the deadline. Without an interface name both calls return \<^verbatim>\<open>LXI_OK\<close>, query
  every interface with an IPv4 broadcast address once, in order, and call the device callback, if there is one, for
  exactly the hosts that answered and did not refuse the connection, each with its identification. With an interface
  name, \<^verbatim>\<open>lxi_discover_if\<close> announces, queries and reports for exactly the IPv4 interfaces of that name, provided that
  every IPv4 interface has a name and the one asked for a broadcast address, neither of which the code checks. The
  state of multicast DNS discovery does not change.
\<close>

theorem lxi_discover_instruments:
  assumes "idn_network net idn" and "\<forall>host reply. idn host = Some reply \<longrightarrow> proper reply"
    and "answering (l_os net) hosts" and "sockets_work (l_os net)"
    and "px_getifaddrs (l_os net) (ds_hist st) = Some ifas"
  shows "(\<exists>new. lxi_discover net md info timeout DISCOVER_VXI11 st = ret (LXI_OK, st\<lparr>ds_hist := ds_hist st @ new\<rparr>) \<and>
      lxi_discover_if net md info None timeout DISCOVER_VXI11 st = ret (LXI_OK, st\<lparr>ds_hist := ds_hist st @ new\<rparr>) \<and>
      Vxi11_network.reported new =
        concat (map (\<lambda>b. concat (map (entry_of info idn (l_os net)) (hosts b))) (broadcasts ifas)) \<and>
      queried new = broadcasts ifas) \<and>
    (list_all (usable ifname) ifas \<longrightarrow>
      (\<exists>new. lxi_discover_if net md info (Some ifname) timeout DISCOVER_VXI11 st =
          ret (LXI_OK, st\<lparr>ds_hist := ds_hist st @ new\<rparr>) \<and>
        Vxi11_network.reported new =
          concat (map (\<lambda>ifa. concat (map (entry_of info idn (l_os net)) (hosts (the (ifa_broadaddr ifa)))))
            (filter (named ifname) ifas)) \<and>
        queried new = map (\<lambda>ifa. the (ifa_broadaddr ifa)) (filter (named ifname) ifas) \<and>
        announced new = concat (map (announcement info (l_os net)) (filter (named ifname) ifas))))"
proof (intro conjI impI)
  show "\<exists>new. lxi_discover net md info timeout DISCOVER_VXI11 st = ret (LXI_OK, st\<lparr>ds_hist := ds_hist st @ new\<rparr>) \<and>
      lxi_discover_if net md info None timeout DISCOVER_VXI11 st = ret (LXI_OK, st\<lparr>ds_hist := ds_hist st @ new\<rparr>) \<and>
      Vxi11_network.reported new =
        concat (map (\<lambda>b. concat (map (entry_of info idn (l_os net)) (hosts b))) (broadcasts ifas)) \<and>
      queried new = broadcasts ifas"
    using vxi11_discover_found [OF assms, of info timeout]
    by (auto simp: lxi_discover_def lxi_discover_if_def run_vxi11_def)
  assume "list_all (usable ifname) ifas"
  from vxi11_discover_if_found [OF assms this, of info timeout]
  show "\<exists>new. lxi_discover_if net md info (Some ifname) timeout DISCOVER_VXI11 st =
        ret (LXI_OK, st\<lparr>ds_hist := ds_hist st @ new\<rparr>) \<and>
      Vxi11_network.reported new =
        concat (map (\<lambda>ifa. concat (map (entry_of info idn (l_os net)) (hosts (the (ifa_broadaddr ifa)))))
          (filter (named ifname) ifas)) \<and>
      queried new = map (\<lambda>ifa. the (ifa_broadaddr ifa)) (filter (named ifname) ifas) \<and>
      announced new = concat (map (announcement info (l_os net)) (filter (named ifname) ifas))"
    by (auto simp: lxi_discover_if_def run_vxi11_def)
qed

theorem lxi_discover_instruments_witness:
  "\<exists>new. lxi_discover_if (directory_lan lab lab_posix (\<lambda>t. None)) down_mdns lab_info (Some ''eth0'') 1000 DISCOVER_VXI11
      \<lparr>ds_hist = [], ds_mdns = mdns_start\<rparr> = ret (LXI_OK, \<lparr>ds_hist = new, ds_mdns = mdns_start\<rparr>) \<and>
    Vxi11_network.reported new = [(''10.0.0.1'', [65, 44, 66])] \<and> queried new = [0x0A0000FF]"
proof -
  have ifas: "px_getifaddrs (l_os (directory_lan lab lab_posix (\<lambda>t. None)))
      (ds_hist \<lparr>ds_hist = [], ds_mdns = mdns_start\<rparr>) = Some two_ifs"
    by (simp add: lab_posix_def)
  have "filter (named ''eth0'') two_ifs =
      [\<lparr>ifa_name = Some ''eth0'', ifa_family = Some AF_INET, ifa_broadaddr = Some 0x0A0000FF\<rparr>]"
    by (simp add: two_ifs_def named_def AF_INET_def)
  moreover have "concat (map (entry_of lab_info lab lab_posix) (lab_hosts 0x0A0000FF)) = [(''10.0.0.1'', [65, 44, 66])]"
    by (simp add: entry_of_def lab_hosts_def lab_posix_def lab_def lab_info_def id_text_def
        strip_def)
  ultimately show ?thesis
    using lxi_discover_instruments [OF directory.idn_network_axioms lab_proper _ _ ifas, of lab_hosts down_mdns lab_info 1000
        "''eth0''"]
      lab_answering two_ifs_usable by auto
qed

section \<open>Discovery by multicast DNS\<close>

text \<open>What the application has been told of, in the log of the backend the build chose.\<close>

definition services_told :: "mdns \<Rightarrow> mdns_state \<Rightarrow> (string option \<times> string option \<times> string \<times> nat) list" where
  "services_told md m =
     (case md_config md of
        HAVE_AVAHI \<Rightarrow> map (\<lambda>(a, n, t, p). (Some a, Some n, t, unat p)) (reported (md_av_log m))
      | HAVE_NONE \<Rightarrow> []
      | _ \<Rightarrow> told (md_sd_log m))"

text \<open>
  The services a build finds, by what its library does: Avahi resolves them before it is asked to quit, in a
  process that has not run a discovery before; a DNS-SD network offers them under the types of the table, and on Cygwin the
  library has been loaded whole; a build without a backend finds none.
\<close>

inductive finds :: "mdns \<Rightarrow> mdns_state \<Rightarrow> (string option \<times> string option \<times> string \<times> nat) list \<Rightarrow> bool" for md m where
  avahi: "md_config md = HAVE_AVAHI \<Longrightarrow> avahi_up (md_avahi_lib md) c \<Longrightarrow> avahi_fresh (md_avahi m) \<Longrightarrow>
    \<forall>l t. av_browser_new (md_avahi_lib md) l t \<noteq> None \<Longrightarrow>
    \<forall>l. av_calls (md_avahi_lib md) l = calls \<Longrightarrow> \<forall>l. av_client_calls (md_avahi_lib md) l = states \<Longrightarrow>
    AVAHI_CLIENT_FAILURE \<notin> set states \<Longrightarrow>
    finds md m (map (\<lambda>(a, n, t, p). (Some a, Some n, t, unat p))
      (concat (map resolved (takeWhile (\<lambda>call. \<not> call_quits call) calls))))"
| bonjour: "md_config md = HAVE_BONJOUR \<Longrightarrow> sd_network (md_dnssd_lib md) offers place addr \<Longrightarrow>
    finds md m (concat (map (\<lambda>(t, n). map (sd_network.service_entry (md_dnssd_lib md) place addr) (offers t))
      Services.lxi_services))"
| cygwin: "md_config md = HAVE_CYGWIN_DNSSD \<Longrightarrow> dll_loaded (md_dll m) \<Longrightarrow> plain_select (md_dnssd_lib md) \<Longrightarrow>
    sd_network (md_dnssd_lib md) offers place addr \<Longrightarrow>
    finds md m (concat (map (\<lambda>(t, n). map (sd_network.service_entry (md_dnssd_lib md) place addr) (offers t))
      Services.lxi_services))"
| none: "md_config md = HAVE_NONE \<Longrightarrow> finds md m []"

lemma mdns_discover_told:
  assumes "finds md m services" and "info_broadcast info" and "info_service info"
  shows "\<exists>r m'. mdns_discover md info timeout m = ret (r, m') \<and> services_told md m' = services_told md m @ services"
  using assms(1)
proof cases
  case (avahi c calls states)
  have "None \<notin> set (browsers (md_avahi_lib md) c (md_av_log m))"
    unfolding browsers_def using avahi(5) by (rule offered_made)
  then obtain st' log where "avahi_discover (md_avahi_lib md) info timeout (md_avahi m) (md_av_log m) =
      ret (0, st', md_av_log m @ log)"
    "reported log = (if info_service info \<and> AVAHI_CLIENT_FAILURE \<notin> set states
      then concat (map resolved (takeWhile (\<lambda>call. \<not> call_quits call) calls)) else [])"
    using avahi_discover_told [OF avahi(3,4,6,7), of "md_av_log m" info timeout] by auto
  then show ?thesis using avahi(1,2,8) assms(3) by (simp add: mdns_discover_def services_told_def)
next
  case (bonjour offers place addr)
  then show ?thesis
    using bonjour_discover_found [OF bonjour(3) assms(2,3), of timeout "md_sd_log m"]
    by (auto simp: mdns_discover_def services_told_def)
next
  case (cygwin offers place addr)
  then show ?thesis
    using bonjour_discover_found [OF cygwin(5) assms(2,3), of timeout "md_sd_log m"]
    by (auto simp: mdns_discover_def services_told_def cygwin_discover_loaded [OF cygwin(3,4)])
next
  case none
  then show ?thesis by (simp add: mdns_discover_def services_told_def)
qed

text \<open>
  C25. Discovery by multicast DNS through the API, for each of the four builds, when the application has registered a
  broadcast and a service callback and the build's library works: with Avahi, this is the first discovery of the
  process, the main loop object, the client and every browser can be made and the client does not fail; with Bonjour,
  the network meets the contract \<open>sd_network\<close> (every operation succeeds, its socket fits in a descriptor set and each
  service offered is answered once and has an address); on Cygwin, moreover, the library has been loaded whole and
  waiting leaves the timeout alone. Then \<^verbatim>\<open>lxi_discover\<close> and \<^verbatim>\<open>lxi_discover_if\<close> on any interface name return \<^verbatim>\<open>LXI_OK\<close> and the
  application is told of exactly the services that Avahi resolved before it was asked to quit, or that the network
  offers under the five types, behind those it was told of before; in a build without a backend, of none. The
  state of VXI-11 discovery does not change.
\<close>

theorem lxi_discover_services:
  assumes "finds md (ds_mdns st) services" and "info_broadcast info" and "info_service info"
  shows "\<exists>m'. lxi_discover net md info timeout DISCOVER_MDNS st = ret (LXI_OK, st\<lparr>ds_mdns := m'\<rparr>) \<and>
    lxi_discover_if net md info ifname timeout DISCOVER_MDNS st = ret (LXI_OK, st\<lparr>ds_mdns := m'\<rparr>) \<and>
    services_told md m' = services_told md (ds_mdns st) @ services"
  using mdns_discover_told [OF assms, of timeout]
  by (auto simp: lxi_discover_def lxi_discover_if_def run_mdns_def)

text \<open>The builds on a bench with one oscilloscope.\<close>

definition bench_mdns :: "mdns_config \<Rightarrow> mdns" where
  "bench_mdns config = \<lparr>md_config = config, md_avahi_lib = demo_avahi, md_dnssd_lib = bench_sd,
     md_linker = full_linker, md_register = (\<lambda>l. 0)\<rparr>"

lemma bench_finds: "finds (bench_mdns HAVE_AVAHI) mdns_start [(Some ''10.0.0.7'', Some ''scope'', ''lxi'', 80)]"
proof -
  have "finds (bench_mdns HAVE_AVAHI) mdns_start (map (\<lambda>(a, n, t, p). (Some a, Some n, t, unat p))
      (concat (map resolved (takeWhile (\<lambda>call. \<not> call_quits call) (av_calls demo_avahi [])))))"
    by (rule finds.avahi [where c = 1 and states = "[AVAHI_CLIENT_OTHER]"])
      (use demo_avahi_ready in \<open>simp_all add: bench_mdns_def mdns_start_def\<close>, simp_all add: demo_avahi_def)
  then show ?thesis by (simp add: demo_avahi_def pretty_type_def)
qed

theorem lxi_discover_services_witness:
  "\<exists>m'. lxi_discover (directory_lan lab quiet_posix (\<lambda>t. None)) (bench_mdns HAVE_AVAHI) all_info 1000 DISCOVER_MDNS
      \<lparr>ds_hist = [], ds_mdns = mdns_start\<rparr> = ret (LXI_OK, \<lparr>ds_hist = [], ds_mdns = mdns_start\<rparr>\<lparr>ds_mdns := m'\<rparr>) \<and>
    lxi_discover_if (directory_lan lab quiet_posix (\<lambda>t. None)) (bench_mdns HAVE_AVAHI) all_info (Some ''eth0'') 1000
      DISCOVER_MDNS \<lparr>ds_hist = [], ds_mdns = mdns_start\<rparr> =
      ret (LXI_OK, \<lparr>ds_hist = [], ds_mdns = mdns_start\<rparr>\<lparr>ds_mdns := m'\<rparr>) \<and>
    services_told (bench_mdns HAVE_AVAHI) m' =
      services_told (bench_mdns HAVE_AVAHI) (ds_mdns \<lparr>ds_hist = [], ds_mdns = mdns_start\<rparr>) @
      [(Some ''10.0.0.7'', Some ''scope'', ''lxi'', 80)]"
  by (rule lxi_discover_services) (simp_all add: bench_finds all_info_def)

end
