(* ===== verification/Timedjoin.thy ===== *)
theory Timedjoin
  imports Environ
begin

text \<open>
  The interleavings of \<^verbatim>\<open>_pthread_timedjoin\<close> and \<^verbatim>\<open>_pthread_waiter\<close> in \<^verbatim>\<open>src/src/vxi11.c\<close>: the calling
  thread waits on a condition variable for a helper that joins the target thread and then, under
  the mutex, sets \<^verbatim>\<open>joined\<close>. The caller cancels and joins the helper with the mutex still locked. A
  state has the program counters of the three threads, the owner of the mutex and the shared
  variables; \<^verbatim>\<open>pthread_join\<close> is a cancellation point, \<^verbatim>\<open>pthread_mutex_lock\<close> is not. The wait rejects a deadline
  that is not a valid time, as a negative timeout can give, with EINVAL at once and without giving up the mutex. The
  theorems: the result is right whenever the call returns, and the call may never return.
\<close>

datatype main_pc = M_call | M_wait | M_woken int | M_test int | M_cancel int | M_join int | M_done int

datatype waiter_pc = W_join | W_lock | W_set | W_unlock | W_signal | W_done | W_cancelled

datatype owner = Main_thread | Waiter_thread

record tj =
  tj_main :: main_pc
  tj_waiter :: waiter_pc
  tj_exited :: bool
  tj_mutex :: "owner option"
  tj_joined :: bool
  tj_cancelled :: bool
  tj_valid :: bool

text \<open>
  The caller has locked the mutex, created the helper and is about to call \<^verbatim>\<open>pthread_cond_timedwait\<close>, with a deadline
  that is valid or not.
\<close>

definition tj_start :: "bool \<Rightarrow> tj" where
  "tj_start v = \<lparr>tj_main = M_call, tj_waiter = W_join, tj_exited = False, tj_mutex = Some Main_thread, tj_joined = False,
     tj_cancelled = False, tj_valid = v\<rparr>"

inductive tj_step :: "tj \<Rightarrow> tj \<Rightarrow> bool" where
  target_exits: "\<not> tj_exited s \<Longrightarrow> tj_step s (s\<lparr>tj_exited := True\<rparr>)"
| waits: "tj_main s = M_call \<Longrightarrow> tj_valid s \<Longrightarrow> tj_step s (s\<lparr>tj_main := M_wait, tj_mutex := None\<rparr>)"
| rejected: "tj_main s = M_call \<Longrightarrow> \<not> tj_valid s \<Longrightarrow> tj_step s (s\<lparr>tj_main := M_test EINVAL\<rparr>)"
| wakes: "tj_main s = M_wait \<Longrightarrow> r = 0 \<or> r = ETIMEDOUT \<Longrightarrow> tj_step s (s\<lparr>tj_main := M_woken r\<rparr>)"
| relocks: "tj_main s = M_woken r \<Longrightarrow> tj_mutex s = None \<Longrightarrow>
    tj_step s (s\<lparr>tj_main := M_test r, tj_mutex := Some Main_thread\<rparr>)"
| waits_again: "tj_main s = M_test r \<Longrightarrow> \<not> tj_joined s \<and> r \<noteq> ETIMEDOUT \<Longrightarrow>
    tj_step s (s\<lparr>tj_main := M_call\<rparr>)"
| leaves: "tj_main s = M_test r \<Longrightarrow> tj_joined s \<or> r = ETIMEDOUT \<Longrightarrow> tj_step s (s\<lparr>tj_main := M_cancel r\<rparr>)"
| cancels: "tj_main s = M_cancel r \<Longrightarrow> tj_step s (s\<lparr>tj_main := M_join r, tj_cancelled := True\<rparr>)"
| joins: "tj_main s = M_join r \<Longrightarrow> tj_waiter s = W_done \<or> tj_waiter s = W_cancelled \<Longrightarrow>
    tj_step s (s\<lparr>tj_main := M_done (if tj_joined s then 0 else r)\<rparr>)"
| waiter_joined: "tj_waiter s = W_join \<Longrightarrow> tj_exited s \<Longrightarrow> tj_step s (s\<lparr>tj_waiter := W_lock\<rparr>)"
| waiter_cancelled: "tj_waiter s = W_join \<Longrightarrow> tj_cancelled s \<Longrightarrow> tj_step s (s\<lparr>tj_waiter := W_cancelled\<rparr>)"
| waiter_locks: "tj_waiter s = W_lock \<Longrightarrow> tj_mutex s = None \<Longrightarrow>
    tj_step s (s\<lparr>tj_waiter := W_set, tj_mutex := Some Waiter_thread\<rparr>)"
| waiter_sets: "tj_waiter s = W_set \<Longrightarrow> tj_step s (s\<lparr>tj_waiter := W_unlock, tj_joined := True\<rparr>)"
| waiter_unlocks: "tj_waiter s = W_unlock \<Longrightarrow> tj_step s (s\<lparr>tj_waiter := W_signal, tj_mutex := None\<rparr>)"
| waiter_signals: "tj_waiter s = W_signal \<Longrightarrow> tj_step s (s\<lparr>tj_waiter := W_done\<rparr>)"

inductive tj_reach :: "tj \<Rightarrow> bool" where
  start: "tj_reach (tj_start v)"
| step: "tj_reach s \<Longrightarrow> tj_step s s' \<Longrightarrow> tj_reach s'"

text \<open>
  The invariant: the mutex is held by the thread whose program counter says so, \<^verbatim>\<open>joined\<close> is set
  exactly when the helper is past setting it, which it reaches only after the target exited, and
  the caller leaves the loop only with one of the two reasons.
\<close>

definition main_holds :: "main_pc \<Rightarrow> bool" where
  "main_holds m \<longleftrightarrow> (case m of M_wait \<Rightarrow> False | M_woken _ \<Rightarrow> False | _ \<Rightarrow> True)"

definition mutex_inv :: "tj \<Rightarrow> bool" where
  "mutex_inv s \<longleftrightarrow>
     (main_holds (tj_main s) \<longleftrightarrow> tj_mutex s = Some Main_thread) \<and>
     (tj_waiter s = W_set \<or> tj_waiter s = W_unlock \<longleftrightarrow> tj_mutex s = Some Waiter_thread)"

definition joined_inv :: "tj \<Rightarrow> bool" where
  "joined_inv s \<longleftrightarrow>
     (tj_joined s \<longleftrightarrow> tj_waiter s \<in> {W_unlock, W_signal, W_done}) \<and>
     (tj_waiter s \<notin> {W_join, W_cancelled} \<longrightarrow> tj_exited s)"

definition wait_result :: "int \<Rightarrow> bool" where
  "wait_result r \<longleftrightarrow> r = 0 \<or> r = ETIMEDOUT"

definition result_inv :: "tj \<Rightarrow> bool" where
  "result_inv s \<longleftrightarrow>
     (case tj_main s of
        M_call \<Rightarrow> True
      | M_wait \<Rightarrow> True
      | M_woken r \<Rightarrow> wait_result r
      | M_test r \<Rightarrow> wait_result r \<or> \<not> tj_valid s
      | M_cancel r \<Rightarrow> wait_result r \<and> (tj_joined s \<or> r = ETIMEDOUT)
      | M_join r \<Rightarrow> wait_result r \<and> (tj_joined s \<or> r = ETIMEDOUT)
      | M_done r \<Rightarrow> wait_result r \<and> tj_waiter s \<in> {W_done, W_cancelled} \<and> (r = 0 \<longleftrightarrow> tj_joined s))"

text \<open>With a deadline that is not valid the caller goes round the loop, and the helper stays in front of the mutex.\<close>

definition spin_inv :: "tj \<Rightarrow> bool" where
  "spin_inv s \<longleftrightarrow> tj_valid s \<or>
     (tj_main s = M_call \<or> tj_main s = M_test EINVAL) \<and> (tj_waiter s = W_join \<or> tj_waiter s = W_lock) \<and>
     \<not> tj_joined s \<and> \<not> tj_cancelled s"

definition tj_inv :: "tj \<Rightarrow> bool" where
  "tj_inv s \<longleftrightarrow> mutex_inv s \<and> joined_inv s \<and> result_inv s \<and> spin_inv s"

lemma main_holds_simps [simp]:
  "\<not> main_holds M_wait" "\<not> main_holds (M_woken r)" "main_holds (M_test r)" "main_holds (M_cancel r)"
  "main_holds (M_join r)" "main_holds (M_done r)" "main_holds M_call"
  by (simp_all add: main_holds_def)

lemma mutex_step: "tj_step s s' \<Longrightarrow> mutex_inv s \<Longrightarrow> mutex_inv s'"
  by (induction rule: tj_step.induct) (auto simp: mutex_inv_def)

lemma joined_step: "tj_step s s' \<Longrightarrow> joined_inv s \<Longrightarrow> joined_inv s'"
  by (induction rule: tj_step.induct) (auto simp: joined_inv_def)

lemma wait_result_simps: "wait_result 0" "wait_result ETIMEDOUT" "ETIMEDOUT \<noteq> 0" "EINVAL \<noteq> ETIMEDOUT"
  "ETIMEDOUT \<noteq> EINVAL"
  by (simp_all add: wait_result_def ETIMEDOUT_def EINVAL_def)

lemma spin_step: "tj_step s s' \<Longrightarrow> mutex_inv s \<Longrightarrow> spin_inv s \<Longrightarrow> spin_inv s'"
  by (induction rule: tj_step.induct) (auto simp: spin_inv_def mutex_inv_def wait_result_simps)

lemma result_step: "tj_step s s' \<Longrightarrow> joined_inv s \<Longrightarrow> spin_inv s \<Longrightarrow> result_inv s \<Longrightarrow> result_inv s'"
proof (induction rule: tj_step.induct)
  case (waiter_sets s)
  then show ?case by (cases "tj_main s") (auto simp: joined_inv_def result_inv_def)
next
  case (joins s r)
  then show ?case by (auto simp: result_inv_def wait_result_simps)
next
  case (wakes s r)
  then show ?case by (auto simp: result_inv_def wait_result_simps)
next
  case (leaves s r)
  then show ?case by (auto simp: result_inv_def spin_inv_def wait_result_simps)
qed (auto simp: result_inv_def split: main_pc.splits)

lemma tj_step_inv:
  assumes "tj_step s s'" and "tj_inv s"
  shows "tj_inv s'"
  using mutex_step [OF assms(1)] joined_step [OF assms(1)] spin_step [OF assms(1)] result_step [OF assms(1)] assms(2)
  unfolding tj_inv_def by simp

lemma tj_start_inv: "tj_inv (tj_start v)"
  by (simp add: tj_start_def tj_inv_def mutex_inv_def joined_inv_def result_inv_def spin_inv_def)

lemma tj_reach_inv: "tj_reach s \<Longrightarrow> tj_inv s"
  by (induction rule: tj_reach.induct) (rule tj_start_inv, rule tj_step_inv)

text \<open>
  C17. When the timed join returns, its result is right in every interleaving: it is 0 or ETIMEDOUT, 0
  exactly when the target was joined, and the target has then exited, so its status can be read;
  and the helper has ended, so nothing refers to the arguments on the caller's stack any more.
\<close>

theorem timedjoin_result:
  assumes "tj_reach s" and "tj_main s = M_done r"
  shows "(r = 0 \<or> r = ETIMEDOUT) \<and> (r = 0 \<longleftrightarrow> tj_joined s) \<and> (r = 0 \<longrightarrow> tj_exited s) \<and>
    (tj_waiter s = W_done \<or> tj_waiter s = W_cancelled)"
  using tj_reach_inv [OF assms(1)] assms(2) by (auto simp: tj_inv_def joined_inv_def result_inv_def wait_result_def)

text \<open>The end of a run in which the deadline passes and the target never exits.\<close>

definition tj_expired :: tj where
  "tj_expired = \<lparr>tj_main = M_done ETIMEDOUT, tj_waiter = W_cancelled, tj_exited = False,
     tj_mutex = Some Main_thread, tj_joined = False, tj_cancelled = True, tj_valid = True\<rparr>"

abbreviation tj_begin :: tj where "tj_begin \<equiv> tj_start True"

lemma tj_run_tests: "tj_reach (tj_begin\<lparr>tj_main := M_test ETIMEDOUT\<rparr>)"
proof -
  have 0: "tj_reach (tj_begin\<lparr>tj_main := M_wait, tj_mutex := None\<rparr>)"
    by (rule tj_reach.step [OF tj_reach.start tj_step.waits]) (simp_all add: tj_start_def)
  have 1: "tj_reach (tj_begin\<lparr>tj_main := M_woken ETIMEDOUT, tj_mutex := None\<rparr>)"
    using tj_reach.step [OF 0 tj_step.wakes [of _ ETIMEDOUT]] by (simp add: tj_start_def)
  show ?thesis
    using tj_reach.step [OF 1 tj_step.relocks [of _ ETIMEDOUT]] by (simp add: tj_start_def)
qed

lemma tj_run_expired: "tj_reach tj_expired"
proof -
  have 3: "tj_reach (tj_begin\<lparr>tj_main := M_cancel ETIMEDOUT\<rparr>)"
    using tj_reach.step [OF tj_run_tests tj_step.leaves [of _ ETIMEDOUT]] by (simp add: tj_start_def)
  have 4: "tj_reach (tj_begin\<lparr>tj_main := M_join ETIMEDOUT, tj_cancelled := True\<rparr>)"
    using tj_reach.step [OF 3 tj_step.cancels [of _ ETIMEDOUT]] by (simp add: tj_start_def)
  have 5: "tj_reach (tj_begin\<lparr>tj_main := M_join ETIMEDOUT, tj_waiter := W_cancelled, tj_cancelled := True\<rparr>)"
    using tj_reach.step [OF 4 tj_step.waiter_cancelled] by (simp add: tj_start_def)
  show ?thesis
    using tj_reach.step [OF 5 tj_step.joins [of _ ETIMEDOUT]] by (simp add: tj_start_def tj_expired_def)
qed

theorem timedjoin_result_witness:
  "tj_reach tj_expired \<and> tj_main tj_expired = M_done ETIMEDOUT \<and> \<not> tj_joined tj_expired \<and>
    (tj_waiter tj_expired = W_done \<or> tj_waiter tj_expired = W_cancelled)"
proof -
  have fin: "tj_main tj_expired = M_done ETIMEDOUT" by (simp add: tj_expired_def)
  show ?thesis
    using timedjoin_result [OF tj_run_expired fin] tj_run_expired fin wait_result_simps(3) by blast
qed

text \<open>The end of a run in which the target exits behind the deadline.\<close>

definition tj_stuck :: tj where
  "tj_stuck = \<lparr>tj_main = M_join ETIMEDOUT, tj_waiter = W_lock, tj_exited = True,
     tj_mutex = Some Main_thread, tj_joined = False, tj_cancelled = True, tj_valid = True\<rparr>"

lemma tj_run_stuck: "tj_reach tj_stuck"
proof -
  have 3: "tj_reach (tj_begin\<lparr>tj_main := M_test ETIMEDOUT, tj_exited := True\<rparr>)"
    using tj_reach.step [OF tj_run_tests tj_step.target_exits] by (simp add: tj_start_def)
  have 4: "tj_reach (tj_begin\<lparr>tj_main := M_test ETIMEDOUT, tj_exited := True, tj_waiter := W_lock\<rparr>)"
    using tj_reach.step [OF 3 tj_step.waiter_joined] by (simp add: tj_start_def)
  have 5: "tj_reach (tj_begin\<lparr>tj_main := M_cancel ETIMEDOUT, tj_exited := True, tj_waiter := W_lock\<rparr>)"
    using tj_reach.step [OF 4 tj_step.leaves [of _ ETIMEDOUT]] by (simp add: tj_start_def)
  show ?thesis
    using tj_reach.step [OF 5 tj_step.cancels [of _ ETIMEDOUT]] by (simp add: tj_start_def tj_stuck_def)
qed

lemma tj_stuck_final: "\<not> tj_step tj_stuck s'"
  by (auto simp: tj_stuck_def elim: tj_step.cases)

text \<open>
  C37. The timed join can block for ever: if the target exits while the deadline passes, the helper waits
  for the mutex, where it cannot be cancelled, and the caller, which holds the mutex, waits for
  the helper. Such a state is reachable, the caller has not returned in it, and no thread can take
  a step.
\<close>

theorem timedjoin_deadlock:
  "\<exists>s. tj_reach s \<and> tj_main s = M_join ETIMEDOUT \<and> tj_waiter s = W_lock \<and> (\<forall>s'. \<not> tj_step s s')"
  using tj_run_stuck tj_stuck_final by (intro exI [of _ tj_stuck]) (simp add: tj_stuck_def)

section \<open>When the call can return\<close>

text \<open>
  The doomed states: the helper is blocked on the mutex, and the caller holds the mutex on its way
  to joining the helper, since it left the loop or is about to leave it after the deadline; or the deadline is not
  valid, so that every wait returns EINVAL at once, with the mutex held.
\<close>

fun on_way_out :: "main_pc \<Rightarrow> bool" where
  "on_way_out (M_test r) = (r = ETIMEDOUT)"
| "on_way_out (M_cancel r) = True"
| "on_way_out (M_join r) = True"
| "on_way_out _ = False"

definition doomed :: "tj \<Rightarrow> bool" where
  "doomed s \<longleftrightarrow> tj_waiter s = W_lock \<and> on_way_out (tj_main s) \<or> \<not> tj_valid s"

definition can_return :: "tj \<Rightarrow> bool" where
  "can_return s \<longleftrightarrow> (\<exists>s' r. tj_step\<^sup>*\<^sup>* s s' \<and> tj_main s' = M_done r)"

lemma can_return_step: "tj_step s s' \<Longrightarrow> can_return s' \<Longrightarrow> can_return s"
  unfolding can_return_def by (meson converse_rtranclp_into_rtranclp)

lemma can_return_done: "tj_main s = M_done r \<Longrightarrow> can_return s"
  unfolding can_return_def by blast

text \<open>Doom is final: the mutex stays with the caller, so the helper never moves.\<close>

lemma doomed_step:
  assumes "tj_step s s'" and "tj_inv s" and "doomed s"
  shows "doomed s'"
  using assms
  by (induction rule: tj_step.induct)
    (auto simp: doomed_def tj_inv_def mutex_inv_def joined_inv_def elim: on_way_out.elims)

lemma doomed_steps:
  assumes "tj_step\<^sup>*\<^sup>* s s'" and "tj_inv s" and "doomed s"
  shows "tj_inv s' \<and> doomed s'"
  using assms by (induction rule: rtranclp_induct) (auto dest: tj_step_inv doomed_step)

text \<open>
  In every other state some thread can go on towards the return without dooming the call: the helper
  whenever it can, the caller otherwise. The distance to the return goes down with each of those steps.
\<close>

fun waiter_distance :: "waiter_pc \<Rightarrow> nat" where
  "waiter_distance W_join = 5"
| "waiter_distance W_lock = 4"
| "waiter_distance W_set = 3"
| "waiter_distance W_unlock = 2"
| "waiter_distance W_signal = 1"
| "waiter_distance _ = 0"

fun main_distance :: "main_pc \<Rightarrow> nat" where
  "main_distance (M_woken r) = (if r = ETIMEDOUT then 5 else 9)"
| "main_distance (M_test r) = (if r = ETIMEDOUT then 4 else 8)"
| "main_distance M_wait = 6"
| "main_distance M_call = 7"
| "main_distance (M_cancel r) = 3"
| "main_distance (M_join r) = 2"
| "main_distance (M_done r) = 0"

definition distance :: "tj \<Rightarrow> nat" where
  "distance s = 10 * waiter_distance (tj_waiter s) + main_distance (tj_main s)"

lemma cancelled_reach: "tj_reach s \<Longrightarrow> tj_main s = M_join r \<Longrightarrow> tj_cancelled s"
proof (induction arbitrary: r rule: tj_reach.induct)
  case start
  then show ?case by (simp add: tj_start_def)
next
  case (step s s')
  from step.hyps(2) step.IH step.prems show ?case by cases auto
qed

text \<open>The steps of the helper and of the caller, each towards the return.\<close>

definition closer :: "tj \<Rightarrow> bool" where
  "closer s \<longleftrightarrow> (\<exists>s'. tj_step s s' \<and> \<not> doomed s' \<and> distance s' < distance s)"

lemma closerI: "tj_step s s' \<Longrightarrow> \<not> doomed s' \<Longrightarrow> distance s' < distance s \<Longrightarrow> closer s"
  unfolding closer_def by blast

lemma helper_closer:
  assumes "tj_waiter s \<in> {W_set, W_unlock, W_signal} \<or> tj_waiter s = W_lock \<and> tj_mutex s = None" and "tj_valid s"
  shows "closer s"
proof -
  consider "tj_waiter s = W_set" | "tj_waiter s = W_unlock" | "tj_waiter s = W_signal"
    | "tj_waiter s = W_lock" "tj_mutex s = None"
    using assms(1) by auto
  then show ?thesis
  proof cases
    case 1
    then show ?thesis by (intro closerI [OF tj_step.waiter_sets]) (simp_all add: doomed_def distance_def assms(2))
  next
    case 2
    then show ?thesis by (intro closerI [OF tj_step.waiter_unlocks]) (simp_all add: doomed_def distance_def assms(2))
  next
    case 3
    then show ?thesis by (intro closerI [OF tj_step.waiter_signals]) (simp_all add: doomed_def distance_def assms(2))
  next
    case 4
    then show ?thesis by (intro closerI [OF tj_step.waiter_locks]) (simp_all add: doomed_def distance_def assms(2))
  qed
qed

lemma caller_closer:
  assumes "tj_waiter s \<in> {W_join, W_done, W_cancelled}" and "mutex_inv s"
    and "\<And>r. tj_main s = M_join r \<Longrightarrow> tj_cancelled s" and "\<And>r. tj_main s \<noteq> M_done r" and "tj_valid s"
  shows "closer s"
proof -
  have w: "tj_waiter s \<noteq> W_lock" "tj_valid s" using assms(1,5) by auto
  show ?thesis
  proof (cases "tj_main s")
    case M_call
    then show ?thesis using w
      by (intro closerI [OF tj_step.waits [of s]]) (simp_all add: doomed_def distance_def)
  next
    case M_wait
    then show ?thesis using w
      by (intro closerI [OF tj_step.wakes [of s ETIMEDOUT]]) (simp_all add: doomed_def distance_def)
  next
    case (M_woken r)
    then have "tj_mutex s \<noteq> Some Main_thread" "tj_mutex s \<noteq> Some Waiter_thread"
      using assms(1,2) by (auto simp: mutex_inv_def)
    then have "tj_mutex s = None" by (metis not_None_eq owner.exhaust)
    then show ?thesis using w M_woken
      by (intro closerI [OF tj_step.relocks [of s r]]) (simp_all add: doomed_def distance_def)
  next
    case (M_test r)
    show ?thesis
    proof (cases "tj_joined s \<or> r = ETIMEDOUT")
      case True
      then show ?thesis using w M_test
        by (intro closerI [OF tj_step.leaves [of s r]]) (simp_all add: doomed_def distance_def)
    next
      case False
      then show ?thesis using w M_test
        by (intro closerI [OF tj_step.waits_again [of s r]]) (simp_all add: doomed_def distance_def)
    qed
  next
    case (M_cancel r)
    then show ?thesis using w
      by (intro closerI [OF tj_step.cancels [of s r]]) (simp_all add: doomed_def distance_def)
  next
    case (M_join r)
    show ?thesis
    proof (cases "tj_waiter s = W_join")
      case True
      then show ?thesis using M_join assms(3) w(2)
        by (intro closerI [OF tj_step.waiter_cancelled [of s]]) (simp_all add: doomed_def distance_def)
    next
      case False
      then show ?thesis using M_join assms(1) w
        by (intro closerI [OF tj_step.joins [of s r]]) (auto simp: doomed_def distance_def)
    qed
  qed (use assms(4) in blast)
qed

lemma steps_closer:
  assumes "tj_reach s" and "\<not> doomed s" and "\<And>r. tj_main s \<noteq> M_done r"
  shows "closer s"
proof -
  have inv: "mutex_inv s" "joined_inv s" "result_inv s" using tj_reach_inv [OF assms(1)] by (auto simp: tj_inv_def)
  have valid: "tj_valid s" using assms(2) by (simp add: doomed_def)
  consider (helper) "tj_waiter s \<in> {W_set, W_unlock, W_signal} \<or> tj_waiter s = W_lock \<and> tj_mutex s = None"
    | (caller) "tj_waiter s \<in> {W_join, W_done, W_cancelled}"
    | (blocked) "tj_waiter s = W_lock" "tj_mutex s \<noteq> None"
    by (cases "tj_waiter s") auto
  then show ?thesis
  proof cases
    case helper
    then show ?thesis using valid by (rule helper_closer)
  next
    case caller
    then show ?thesis using caller_closer inv(1) cancelled_reach [OF assms(1)] assms(3) valid by blast
  next
    case blocked
    then have "main_holds (tj_main s)" using inv(1) by (auto simp: mutex_inv_def intro: owner.exhaust)
    then consider "tj_main s = M_call" | r where "tj_main s = M_test r" "r \<noteq> ETIMEDOUT"
      using assms(2,3) blocked by (cases "tj_main s") (auto simp: doomed_def)
    then show ?thesis
    proof cases
      case 1
      then show ?thesis using valid
        by (intro closerI [OF tj_step.waits [of s]]) (simp_all add: doomed_def distance_def)
    next
      case (2 r)
      then show ?thesis using blocked inv(2) valid
        by (intro closerI [OF tj_step.waits_again [of s r]]) (auto simp: doomed_def distance_def joined_inv_def)
    qed
  qed
qed

lemma undoomed_returns: "tj_reach s \<Longrightarrow> \<not> doomed s \<Longrightarrow> can_return s"
proof (induction "distance s" arbitrary: s rule: less_induct)
  case less
  show ?case
  proof (cases "\<exists>r. tj_main s = M_done r")
    case True
    then show ?thesis using can_return_done by blast
  next
    case False
    then obtain s' where "tj_step s s'" "\<not> doomed s'" "distance s' < distance s"
      using steps_closer [OF less.prems] unfolding closer_def by blast
    then show ?thesis using less.hyps less.prems(1) by (blast intro: tj_reach.step can_return_step)
  qed
qed

text \<open>
  C18. Exactly when the timed join still returns: in every reachable state the caller can return, under
  some schedule, unless the helper is blocked on the mutex while the caller, holding the mutex, is on its
  way to joining the helper, or the deadline is not valid; from such a state no schedule returns.
\<close>

theorem timedjoin_returns_iff:
  assumes "tj_reach s"
  shows "(\<exists>s' r. tj_step\<^sup>*\<^sup>* s s' \<and> tj_main s' = M_done r) \<longleftrightarrow> \<not> doomed s"
proof
  assume "\<exists>s' r. tj_step\<^sup>*\<^sup>* s s' \<and> tj_main s' = M_done r"
  then obtain s' r where run: "tj_step\<^sup>*\<^sup>* s s'" "tj_main s' = M_done r" by blast
  show "\<not> doomed s"
  proof
    assume "doomed s"
    then have "doomed s'" "tj_inv s'" using doomed_steps [OF run(1) tj_reach_inv [OF assms]] by blast+
    then show False using run(2) by (auto simp: doomed_def tj_inv_def spin_inv_def)
  qed
next
  assume "\<not> doomed s"
  then show "\<exists>s' r. tj_step\<^sup>*\<^sup>* s s' \<and> tj_main s' = M_done r"
    using undoomed_returns [OF assms] unfolding can_return_def by blast
qed

theorem timedjoin_returns_iff_witness:
  "\<exists>s' r. tj_step\<^sup>*\<^sup>* (tj_start True) s' \<and> tj_main s' = M_done r"
  using timedjoin_returns_iff [OF tj_reach.start [of True]] by (simp add: doomed_def tj_start_def)

end
