(* ===== verification/Vxi11_join.thy ===== *)
theory Vxi11_join
  imports Vxi11 Timedjoin
begin

text \<open>
  The two models of \<^verbatim>\<open>_pthread_timedjoin\<close> agree. The backend uses the function \<open>pthread_timedjoin\<close>, for which
  the parameter \<open>threads\<close> says what each return of the wait finds; \<open>Timedjoin\<close> has the interleavings of the
  three threads. A run of the step relation that logs what each test of the loop finds determines the function's
  result.
\<close>

text \<open>A run with the log of the tests at the foot of the loop: the result of the wait and \<^verbatim>\<open>joined\<close>.\<close>

definition at_test :: "tj \<Rightarrow> tj \<Rightarrow> (int \<times> bool) list" where
  "at_test s s' =
     (case tj_main s of M_test r \<Rightarrow> if tj_main s' = M_test r then [] else [(r, tj_joined s)] | _ \<Rightarrow> [])"

inductive tj_logs :: "(int \<times> bool) list \<Rightarrow> tj \<Rightarrow> bool" where
  start: "tj_logs [] (tj_start v)"
| step: "tj_logs l s \<Longrightarrow> tj_step s s' \<Longrightarrow> tj_logs (l @ at_test s s') s'"

lemma tj_logs_reach: "tj_logs l s \<Longrightarrow> tj_reach s"
  by (induction rule: tj_logs.induct) (auto intro: tj_reach.intros)

text \<open>A test that sends the caller back to the wait.\<close>

definition again :: "int \<times> bool \<Rightarrow> bool" where
  "again t \<longleftrightarrow> \<not> snd t \<and> fst t \<noteq> ETIMEDOUT"

text \<open>
  What the log says of the caller: as long as it is in the loop every test sent it back; behind the loop the
  last one did not, and the flag it found is still the same, since the caller holds the mutex.
\<close>

definition log_inv :: "(int \<times> bool) list \<Rightarrow> tj \<Rightarrow> bool" where
  "log_inv l s \<longleftrightarrow>
     (case tj_main s of
        M_cancel r \<Rightarrow> \<exists>l'. l = l' @ [(r, tj_joined s)] \<and> list_all again l' \<and> \<not> again (r, tj_joined s)
      | M_join r \<Rightarrow> \<exists>l'. l = l' @ [(r, tj_joined s)] \<and> list_all again l' \<and> \<not> again (r, tj_joined s)
      | M_done r \<Rightarrow> \<exists>l' q j. l = l' @ [(q, j)] \<and> list_all again l' \<and> \<not> again (q, j) \<and> r = (if j then 0 else q)
      | _ \<Rightarrow> list_all again l)"

lemma log_inv_same:
  assumes "log_inv l s" and "tj_main s' = tj_main s" and "main_holds (tj_main s) \<Longrightarrow> tj_joined s' = tj_joined s"
  shows "log_inv (l @ at_test s s') s'"
  using assms by (cases "tj_main s") (auto simp: log_inv_def at_test_def)

lemma log_inv_step: "tj_step s s' \<Longrightarrow> tj_inv s \<Longrightarrow> log_inv l s \<Longrightarrow> log_inv (l @ at_test s s') s'"
proof (induction rule: tj_step.induct)
  case (waiter_sets s)
  then have "\<not> main_holds (tj_main s)" by (auto simp: tj_inv_def mutex_inv_def)
  then show ?case using waiter_sets by (intro log_inv_same) simp_all
next
  case (waits_again s r)
  then show ?case by (simp add: log_inv_def at_test_def again_def)
next
  case (leaves s r)
  then show ?case by (simp add: log_inv_def at_test_def again_def)
next
  case (joins s r)
  then obtain l' where "l = l' @ [(r, tj_joined s)]" "list_all again l'" "\<not> again (r, tj_joined s)"
    by (auto simp: log_inv_def)
  then have "\<exists>l' q j. l = l' @ [(q, j)] \<and> list_all again l' \<and> \<not> again (q, j) \<and>
      (if tj_joined s then 0 else r) = (if j then 0 else q)"
    by blast
  then show ?case using joins.hyps(1) by (simp add: log_inv_def at_test_def)
next
  case (waits s)
  then show ?case by (simp add: log_inv_def at_test_def)
next
  case (rejected s)
  then show ?case by (simp add: log_inv_def at_test_def)
next
  case (wakes s r)
  then show ?case by (simp add: log_inv_def at_test_def)
next
  case (relocks s r)
  then show ?case by (simp add: log_inv_def at_test_def)
next
  case (cancels s r)
  then show ?case by (simp add: log_inv_def at_test_def)
qed (intro log_inv_same; simp)+

lemma tj_logs_inv: "tj_logs l s \<Longrightarrow> log_inv l s"
proof (induction rule: tj_logs.induct)
  case start
  show ?case by (simp add: log_inv_def tj_start_def)
next
  case (step l s s')
  then show ?case using log_inv_step tj_reach_inv [OF tj_logs_reach] by blast
qed

lemma timedjoin_loop_runs:
  assumes "\<forall>k < length l. again (th_wait th h ts (n + k))" and "\<not> again (th_wait th h ts (n + length l))"
  shows "timedjoin_loop th ts h n = Some (th_wait th h ts (n + length l))"
  using assms
proof (induction l arbitrary: n)
  case Nil
  then show ?case by (subst timedjoin_loop.simps) (auto simp: again_def split: prod.splits)
next
  case (Cons t l)
  have "timedjoin_loop th ts h (Suc n) = Some (th_wait th h ts (Suc n + length l))"
    using Cons.prems by (intro Cons.IH) force+
  moreover have "again (th_wait th h ts n)" using Cons.prems(1) by force
  ultimately show ?case by (subst timedjoin_loop.simps) (auto simp: again_def split: prod.splits)
qed

lemma timedjoin_loop_log:
  assumes "l = l' @ [(q, j)]" and "list_all again l'" and "\<not> again (q, j)" and "\<forall>k < length l. th_wait th h ts k = l ! k"
  shows "timedjoin_loop th ts h 0 = Some (q, j)"
proof -
  have "again (th_wait th h ts k)" if "k < length l'" for k
    using assms that by (auto simp: nth_append list_all_length)
  moreover have "th_wait th h ts (length l') = (q, j)" using assms(1,4) by auto
  ultimately show ?thesis using timedjoin_loop_runs [of l' th h ts 0] assms(3) by simp
qed

text \<open>
  C19. The function refines the interleavings: take a run of the step relation and any scheduler parameter that gives
  the waits the results and flags the run found in its tests and that says whether the helper is blocked on the mutex.
  When the run has returned with result \<open>r\<close>, the function \<open>pthread_timedjoin\<close> returns \<open>r\<close>; when the run is blocked for
  ever in joining the helper, the function does not return.
\<close>

theorem timedjoin_refines:
  assumes "tj_logs l s" and "th_create_waiter th h = 0" and "\<forall>k < length l. th_wait th h ts k = l ! k"
    and "th_stuck th h ts \<longleftrightarrow> doomed s"
  shows "(tj_main s = M_done r \<longrightarrow> pthread_timedjoin th ts h = ret r) \<and>
    (tj_main s = M_join r \<and> doomed s \<longrightarrow> pthread_timedjoin th ts h = None)"
proof (intro conjI impI)
  note inv = tj_reach_inv [OF tj_logs_reach [OF assms(1)]]
  assume fin: "tj_main s = M_done r"
  then have "\<not> doomed s" using inv by (auto simp: doomed_def tj_inv_def spin_inv_def)
  moreover obtain l' q j where l: "l = l' @ [(q, j)]" "list_all again l'" "\<not> again (q, j)" "r = (if j then 0 else q)"
    using tj_logs_inv [OF assms(1)] fin by (auto simp: log_inv_def)
  ultimately show "pthread_timedjoin th ts h = ret r"
    using timedjoin_loop_log [OF l(1-3) assms(3)] assms(2,4) by (simp add: pthread_timedjoin_def)
next
  note inv = tj_reach_inv [OF tj_logs_reach [OF assms(1)]]
  assume blocked: "tj_main s = M_join r \<and> doomed s"
  then have "\<not> tj_joined s" using inv by (auto simp: doomed_def tj_inv_def spin_inv_def joined_inv_def)
  then obtain l' where l: "l = l' @ [(r, False)]" "list_all again l'" "\<not> again (r, False)"
    using tj_logs_inv [OF assms(1)] blocked by (auto simp: log_inv_def)
  show "pthread_timedjoin th ts h = None"
    using timedjoin_loop_log [OF l assms(3)] assms(2,4) blocked by (simp add: pthread_timedjoin_def)
qed

text \<open>With a deadline that is not valid every test of a run finds EINVAL, and the function goes round its loop for ever.\<close>

lemma tj_logs_invalid: "tj_logs l s \<Longrightarrow> \<not> tj_valid s \<Longrightarrow> set l \<subseteq> {(EINVAL, False)}"
proof (induction rule: tj_logs.induct)
  case (step l s s')
  have "tj_valid s' = tj_valid s" using step.hyps(2) by cases simp_all
  moreover have "spin_inv s" using tj_reach_inv [OF tj_logs_reach [OF step.hyps(1)]] by (simp add: tj_inv_def)
  ultimately show ?case
    using step by (auto simp: at_test_def spin_inv_def split: main_pc.splits if_splits)
qed simp

lemma timedjoin_loop_stops:
  assumes "timedjoin_loop th ts h n = Some x"
  shows "\<exists>k. th_wait th h ts k \<noteq> (EINVAL, False)"
  by (rule timedjoin_loop.raw_induct [OF _ assms]) (force simp: wait_result_simps split: prod.splits if_splits)

lemma timedjoin_invalid:
  assumes "th_create_waiter th h = 0" and "\<forall>k. th_wait th h ts k = (EINVAL, False)"
  shows "pthread_timedjoin th ts h = None"
  using timedjoin_loop_stops [of th ts h 0] assms
  by (cases "timedjoin_loop th ts h 0") (auto simp: pthread_timedjoin_def)

lemma tj_logs_tests: "tj_logs [] (tj_begin\<lparr>tj_main := M_test ETIMEDOUT\<rparr>)"
proof -
  have 0: "tj_logs [] (tj_begin\<lparr>tj_main := M_wait, tj_mutex := None\<rparr>)"
    using tj_logs.step [OF tj_logs.start tj_step.waits] by (simp add: tj_start_def at_test_def)
  have 1: "tj_logs [] (tj_begin\<lparr>tj_main := M_woken ETIMEDOUT, tj_mutex := None\<rparr>)"
    using tj_logs.step [OF 0 tj_step.wakes [of _ ETIMEDOUT]] by (simp add: tj_start_def at_test_def)
  show ?thesis
    using tj_logs.step [OF 1 tj_step.relocks [of _ ETIMEDOUT]] by (simp add: tj_start_def at_test_def)
qed

lemma tj_logs_expired: "tj_logs [(ETIMEDOUT, False)] tj_expired"
proof -
  have 3: "tj_logs [(ETIMEDOUT, False)] (tj_begin\<lparr>tj_main := M_cancel ETIMEDOUT\<rparr>)"
    using tj_logs.step [OF tj_logs_tests tj_step.leaves [of _ ETIMEDOUT]] by (simp add: tj_start_def at_test_def)
  have 4: "tj_logs [(ETIMEDOUT, False)] (tj_begin\<lparr>tj_main := M_join ETIMEDOUT, tj_cancelled := True\<rparr>)"
    using tj_logs.step [OF 3 tj_step.cancels [of _ ETIMEDOUT]] by (simp add: tj_start_def at_test_def)
  have 5: "tj_logs [(ETIMEDOUT, False)]
      (tj_begin\<lparr>tj_main := M_join ETIMEDOUT, tj_waiter := W_cancelled, tj_cancelled := True\<rparr>)"
    using tj_logs.step [OF 4 tj_step.waiter_cancelled] by (simp add: tj_start_def at_test_def)
  show ?thesis
    using tj_logs.step [OF 5 tj_step.joins [of _ ETIMEDOUT]] by (simp add: tj_start_def at_test_def tj_expired_def)
qed

lemma tj_logs_stuck: "tj_logs [(ETIMEDOUT, False)] tj_stuck"
proof -
  have 3: "tj_logs [] (tj_begin\<lparr>tj_main := M_test ETIMEDOUT, tj_exited := True\<rparr>)"
    using tj_logs.step [OF tj_logs_tests tj_step.target_exits] by (simp add: tj_start_def at_test_def)
  have 4: "tj_logs [] (tj_begin\<lparr>tj_main := M_test ETIMEDOUT, tj_exited := True, tj_waiter := W_lock\<rparr>)"
    using tj_logs.step [OF 3 tj_step.waiter_joined] by (simp add: tj_start_def at_test_def)
  have 5: "tj_logs [(ETIMEDOUT, False)]
      (tj_begin\<lparr>tj_main := M_cancel ETIMEDOUT, tj_exited := True, tj_waiter := W_lock\<rparr>)"
    using tj_logs.step [OF 4 tj_step.leaves [of _ ETIMEDOUT]] by (simp add: tj_start_def at_test_def)
  show ?thesis
    using tj_logs.step [OF 5 tj_step.cancels [of _ ETIMEDOUT]] by (simp add: tj_start_def at_test_def tj_stuck_def)
qed

theorem timedjoin_refines_witness:
  "pthread_timedjoin expiring_threads \<lparr>ts_sec = 1, ts_nsec = 0\<rparr> [] = ret ETIMEDOUT \<and>
    pthread_timedjoin (expiring_threads\<lparr>th_stuck := \<lambda>h ts. True\<rparr>) \<lparr>ts_sec = 1, ts_nsec = 0\<rparr> [] = None"
proof
  note defs = expiring_threads_def joining_threads_def doomed_def
  show "pthread_timedjoin expiring_threads \<lparr>ts_sec = 1, ts_nsec = 0\<rparr> [] = ret ETIMEDOUT"
    using timedjoin_refines [OF tj_logs_expired, of expiring_threads "[]" "\<lparr>ts_sec = 1, ts_nsec = 0\<rparr>" ETIMEDOUT]
    by (simp add: defs tj_expired_def)
  show "pthread_timedjoin (expiring_threads\<lparr>th_stuck := \<lambda>h ts. True\<rparr>) \<lparr>ts_sec = 1, ts_nsec = 0\<rparr> [] = None"
    using timedjoin_refines [OF tj_logs_stuck, of "expiring_threads\<lparr>th_stuck := \<lambda>h ts. True\<rparr>" "[]"
        "\<lparr>ts_sec = 1, ts_nsec = 0\<rparr>" ETIMEDOUT]
    by (simp add: defs tj_stuck_def)
qed

end
