(* ===== verification/Vxi11core_types.thy ===== *)
theory Vxi11core_types
  imports Vxi11core_svc Xdr_Mem
begin

text \<open>
  The types of the remote procedures, as the prototypes of \<^verbatim>\<open>src/src/vxi11core.h\<close> declare them, against the
  dispatchers of \<^verbatim>\<open>src/src/vxi11core_svc.c\<close>, which hand a union and routines around behind untyped
  pointers and call each service function through a pointer cast to \<^verbatim>\<open>bool_t (*)(char *, void *, struct svc_req *)\<close>.
  The theorem: the casts are right.
\<close>

datatype obj_type =
    T_void
  | T_Device_Link
  | T_Device_Error
  | T_Create_LinkParms
  | T_Create_LinkResp
  | T_Device_WriteParms
  | T_Device_WriteResp
  | T_Device_ReadParms
  | T_Device_ReadResp
  | T_Device_ReadStbResp
  | T_Device_GenericParms
  | T_Device_RemoteFunc
  | T_Device_EnableSrqParms
  | T_Device_LockParms
  | T_Device_DocmdParms
  | T_Device_DocmdResp

fun type_of :: "rpc_obj \<Rightarrow> obj_type" where
  "type_of Obj_void = T_void"
| "type_of (Obj_Device_Link v) = T_Device_Link"
| "type_of (Obj_Device_Error v) = T_Device_Error"
| "type_of (Obj_Create_LinkParms v) = T_Create_LinkParms"
| "type_of (Obj_Create_LinkResp v) = T_Create_LinkResp"
| "type_of (Obj_Device_WriteParms v) = T_Device_WriteParms"
| "type_of (Obj_Device_WriteResp v) = T_Device_WriteResp"
| "type_of (Obj_Device_ReadParms v) = T_Device_ReadParms"
| "type_of (Obj_Device_ReadResp v) = T_Device_ReadResp"
| "type_of (Obj_Device_ReadStbResp v) = T_Device_ReadStbResp"
| "type_of (Obj_Device_GenericParms v) = T_Device_GenericParms"
| "type_of (Obj_Device_RemoteFunc v) = T_Device_RemoteFunc"
| "type_of (Obj_Device_EnableSrqParms v) = T_Device_EnableSrqParms"
| "type_of (Obj_Device_LockParms v) = T_Device_LockParms"
| "type_of (Obj_Device_DocmdParms v) = T_Device_DocmdParms"
| "type_of (Obj_Device_DocmdResp v) = T_Device_DocmdResp"

text \<open>The prototypes: the types of the argument and of the result of a procedure.\<close>

definition device_async_proto :: "nat \<Rightarrow> (obj_type \<times> obj_type) option" where
  "device_async_proto proc = (if proc = device_abort then Some (T_Device_Link, T_Device_Error) else None)"

definition device_core_proto :: "nat \<Rightarrow> (obj_type \<times> obj_type) option" where
  "device_core_proto proc =
     (if proc = create_link then Some (T_Create_LinkParms, T_Create_LinkResp)
      else if proc = device_write then Some (T_Device_WriteParms, T_Device_WriteResp)
      else if proc = device_read then Some (T_Device_ReadParms, T_Device_ReadResp)
      else if proc = device_readstb then Some (T_Device_GenericParms, T_Device_ReadStbResp)
      else if proc = device_trigger then Some (T_Device_GenericParms, T_Device_Error)
      else if proc = device_clear then Some (T_Device_GenericParms, T_Device_Error)
      else if proc = device_remote then Some (T_Device_GenericParms, T_Device_Error)
      else if proc = device_local then Some (T_Device_GenericParms, T_Device_Error)
      else if proc = device_lock then Some (T_Device_LockParms, T_Device_Error)
      else if proc = device_unlock then Some (T_Device_Link, T_Device_Error)
      else if proc = device_enable_srq then Some (T_Device_EnableSrqParms, T_Device_Error)
      else if proc = device_docmd then Some (T_Device_DocmdParms, T_Device_DocmdResp)
      else if proc = destroy_link then Some (T_Device_Link, T_Device_Error)
      else if proc = create_intr_chan then Some (T_Device_RemoteFunc, T_Device_Error)
      else if proc = destroy_intr_chan then Some (T_void, T_Device_Error)
      else None)"

section \<open>Routines keep types\<close>

text \<open>A routine keeps the type of the object behind its pointer, and accepts only objects of one type.\<close>

definition keeps :: "obj_type \<Rightarrow> rpc_obj xdrproc \<Rightarrow> bool" where
  "keeps t xp \<longleftrightarrow> (\<forall>x obj ok x' obj'. xp x obj = (ok, x', obj') \<longrightarrow> type_of obj = t \<longrightarrow> type_of obj' = t)"

lemma keeps_cast:
  assumes "\<And>v. type_of (wrap v) = t"
  shows "keeps t (xdr_cast view wrap p)"
  using assms unfolding keeps_def xdr_cast_def by (auto split: option.splits prod.splits)

lemma keeps_xdrproc [simp]:
  "keeps T_void xdr_void"
  "keeps T_Device_Link (xdrproc_Device_Link lib)"
  "keeps T_Device_Error (xdrproc_Device_Error lib)"
  "keeps T_Create_LinkParms (xdrproc_Create_LinkParms lib)"
  "keeps T_Create_LinkResp (xdrproc_Create_LinkResp lib)"
  "keeps T_Device_WriteParms (xdrproc_Device_WriteParms lib)"
  "keeps T_Device_WriteResp (xdrproc_Device_WriteResp lib)"
  "keeps T_Device_ReadParms (xdrproc_Device_ReadParms lib)"
  "keeps T_Device_ReadResp (xdrproc_Device_ReadResp lib)"
  "keeps T_Device_ReadStbResp (xdrproc_Device_ReadStbResp lib)"
  "keeps T_Device_GenericParms (xdrproc_Device_GenericParms lib)"
  "keeps T_Device_RemoteFunc (xdrproc_Device_RemoteFunc lib)"
  "keeps T_Device_EnableSrqParms (xdrproc_Device_EnableSrqParms lib)"
  "keeps T_Device_LockParms (xdrproc_Device_LockParms lib)"
  "keeps T_Device_DocmdParms (xdrproc_Device_DocmdParms lib)"
  "keeps T_Device_DocmdResp (xdrproc_Device_DocmdResp lib)"
  by (simp_all add: xdrproc_defs keeps_cast) (simp add: keeps_def xdr_void_def)

text \<open>
  An entry of a dispatch table has the types of a prototype; and a procedure has an entry exactly when it
  has a prototype.
\<close>

fun entry_typed :: "svc_entry option \<Rightarrow> (obj_type \<times> obj_type) option \<Rightarrow> bool" where
  "entry_typed None None = True"
| "entry_typed (Some en) (Some (ta, tr)) = (type_of (se_zero en) = ta \<and> keeps ta (se_xarg en) \<and> keeps tr (se_xres en))"
| "entry_typed _ _ = False"

lemma entry_typed_if:
  "entry_typed a b \<Longrightarrow> entry_typed a' b' \<Longrightarrow> entry_typed (if P then a else a') (if P then b else b')"
  by simp

lemma entries_typed:
  "entry_typed (device_core_entry lib proc) (device_core_proto proc)"
  "entry_typed (device_async_entry lib proc) (device_async_proto proc)"
  unfolding device_core_entry_def device_core_proto_def device_async_entry_def device_async_proto_def
  by (intro entry_typed_if; simp)+

section \<open>The dispatchers keep types\<close>

text \<open>What is assumed outside: arguments are decoded by the routine passed, and service functions keep their prototypes.\<close>

definition decodes :: "svc \<Rightarrow> bool" where
  "decodes sv \<longleftrightarrow> (\<forall>l xa z. \<exists>x. sv_getargs sv l xa z = (fst (xa x z), snd (snd (xa x z))))"

definition services_typed :: "svc \<Rightarrow> (nat \<Rightarrow> (obj_type \<times> obj_type) option) \<Rightarrow> bool" where
  "services_typed sv proto \<longleftrightarrow>
     (\<forall>proc ta tr l a. proto proc = Some (ta, tr) \<longrightarrow> type_of a = ta \<longrightarrow> type_of (snd (sv_local sv proc l a)) = tr)"

text \<open>The calls and replies of a log, at the types of the prototypes.\<close>

fun event_typed :: "(nat \<Rightarrow> (obj_type \<times> obj_type) option) \<Rightarrow> nat \<Rightarrow> svc_event \<Rightarrow> bool" where
  "event_typed proto rq (Sv_call proc a) = (proc = rq \<and> map_option fst (proto proc) = Some (type_of a))"
| "event_typed proto rq (Sv_reply r) = (map_option snd (proto rq) = Some (type_of r))"
| "event_typed proto rq Sv_noproc = (proto rq = None)"
| "event_typed proto rq _ = True"

lemma decoded_type:
  assumes "decodes sv" and "keeps t xa" and "type_of z = t" and "sv_getargs sv l xa z = (ok, a)"
  shows "type_of a = t"
proof -
  obtain x where "sv_getargs sv l xa z = (fst (xa x z), snd (snd (xa x z)))" using assms(1) unfolding decodes_def by blast
  then show ?thesis using assms(2-4) unfolding keeps_def by (metis prod.collapse snd_conv)
qed

lemma svc_serve_typed:
  assumes "decodes sv" and "services_typed sv proto" and entry: "entry_typed (Some en) (proto proc)"
  shows "\<exists>evs. svc_serve sv en proc l = l @ evs \<and> list_all (event_typed proto proc) evs"
proof -
  obtain ta tr where proto: "proto proc = Some (ta, tr)" using entry by (cases "proto proc") auto
  then have en: "type_of (se_zero en) = ta" "keeps ta (se_xarg en)" using entry by simp_all
  obtain ok a where args: "sv_getargs sv l (se_xarg en) (se_zero en) = (ok, a)" by fastforce
  obtain retval res where loc: "sv_local sv proc l a = (retval, res)" by fastforce
  have a: "type_of a = ta" using decoded_type [OF assms(1) en(2,1) args] .
  then have r: "type_of res = tr" using assms(2) proto loc unfolding services_typed_def by (metis snd_conv)
  show ?thesis
    using args loc a r proto
    by (cases ok; cases "0 < sint retval") (auto simp: svc_serve_def Let_def)
qed


text \<open>A server that decodes from a given stream and answers every procedure with a zero result of its type.\<close>

fun zero_result :: "obj_type \<Rightarrow> rpc_obj" where
  "zero_result T_Device_Error = Obj_Device_Error \<lparr>de_error = 0\<rparr>"
| "zero_result T_Create_LinkResp =
     Obj_Create_LinkResp \<lparr>clr_error = 0, clr_lid = 0, clr_abortPort = 0, clr_maxRecvSize = 0\<rparr>"
| "zero_result T_Device_WriteResp = Obj_Device_WriteResp \<lparr>dwr_error = 0, dwr_size = 0\<rparr>"
| "zero_result T_Device_ReadResp = Obj_Device_ReadResp \<lparr>drr_error = 0, drr_reason = 0, drr_data = zero_opaque\<rparr>"
| "zero_result T_Device_ReadStbResp = Obj_Device_ReadStbResp \<lparr>dsr_error = 0, dsr_stb = 0\<rparr>"
| "zero_result T_Device_DocmdResp = Obj_Device_DocmdResp \<lparr>ddr_error = 0, ddr_data_out = zero_opaque\<rparr>"
| "zero_result _ = Obj_void"

definition result_type :: "nat \<Rightarrow> obj_type" where
  "result_type proc = (case device_core_proto proc of None \<Rightarrow> T_Device_Error | Some (_, tr) \<Rightarrow> tr)"

definition zero_svc :: "XDR \<Rightarrow> svc" where
  "zero_svc x =
     \<lparr>sv_getargs = (\<lambda>l xa z. (fst (xa x z), snd (snd (xa x z)))),
      sv_local = (\<lambda>proc l a. (1, zero_result (result_type proc))),
      sv_sendreply = (\<lambda>_ _ _. True), sv_freeargs = (\<lambda>_ _ _. True), sv_freeresult = (\<lambda>_ _ _. True)\<rparr>"

lemma core_result_zero: "device_core_proto proc = Some (ta, tr) \<Longrightarrow> type_of (zero_result tr) = tr"
  unfolding device_core_proto_def by (simp split: if_splits)

lemma zero_svc_typed: "decodes (zero_svc x)" "services_typed (zero_svc x) device_core_proto"
  "services_typed (zero_svc x) device_async_proto"
proof -
  have abort: "result_type device_abort = T_Device_Error"
    by (simp add: result_type_def device_core_proto_def proc_numbers)
  show "decodes (zero_svc x)" by (auto simp: decodes_def zero_svc_def)
  show "services_typed (zero_svc x) device_core_proto"
    by (auto simp: zero_svc_def services_typed_def result_type_def core_result_zero)
  show "services_typed (zero_svc x) device_async_proto"
    using abort by (auto simp: zero_svc_def services_typed_def device_async_proto_def split: if_splits)
qed

definition request :: XDR where
  "request = \<lparr>x_op = XDR_DECODE, x_buf = replicate 64 0, x_pos = 0\<rparr>"


end
