(* ===== verification/Xdr_Reader.thy ===== *)
theory Xdr_Reader
  imports Vxi11core_types
begin

text \<open>
  The XDR routines of \<^verbatim>\<open>src/src/vxi11core_xdr.c\<close> on input from the network, which may be anything: too short,
  with counts that lie, or not a message of the protocol at all. The locale \<open>xdr_reader\<close> says what a routine, or
  a part of one, did when it accepted its input. The theorems: what is accepted was
  inside the stream, its length is that of the layout of the object read, and counts are within their
  bounds; and the dispatchers refuse every request shorter than the fixed part of its layout.
\<close>

section \<open>Readers\<close>

text \<open>
  When a routine accepts, it has consumed some \<open>n\<close> bytes, all of them inside the stream, and \<open>R\<close> relates the
  object read and \<open>n\<close>.
\<close>

locale xdr_reader =
  fixes proc :: "'a xdrproc" and R :: "'a \<Rightarrow> nat \<Rightarrow> bool"
  assumes reads: "x_op x = XDR_DECODE \<Longrightarrow> proc x v0 = (True, x', v) \<Longrightarrow>
    \<exists>n. x' = skip x n \<and> n \<le> length (pending x) \<and> R v n"

text \<open>The part of a routine that reads a fixed number of units.\<close>

abbreviation units :: "'a xdrproc \<Rightarrow> nat \<Rightarrow> bool" where
  "units p k \<equiv> xdr_reader p (\<lambda>_ n. n = 4 * k)"

named_theorems read_intros \<open>how readers compose\<close>

lemma xdr_reader_cong: "xdr_reader p R \<Longrightarrow> (\<And>v n. R v n \<Longrightarrow> R' v n) \<Longrightarrow> xdr_reader p R'"
  unfolding xdr_reader_def by blast

lemma xdr_reader_xthen:
  assumes f: "units f k" and g: "xdr_reader g R"
  shows "xdr_reader (xthen f g) (\<lambda>v n. \<exists>m. R v m \<and> n = 4 * k + m)"
proof
  fix x v0 x' v
  assume op: "x_op x = XDR_DECODE" and run: "xthen f g x v0 = (True, x', v)"
  then obtain x1 v1 where 1: "f x v0 = (True, x1, v1)" and 2: "g x1 v1 = (True, x', v)"
    by (auto simp: xthen_def split: prod.splits if_splits)
  have x1: "x1 = skip x (4 * k)" "4 * k \<le> length (pending x)"
    using xdr_reader.reads [OF f op 1] by blast+
  then have "x_op x1 = XDR_DECODE" using op by simp
  then obtain m where "x' = skip x1 m" "m \<le> length (pending x1)" "R v m"
    using xdr_reader.reads [OF g _ 2] by blast
  then show "\<exists>n. x' = skip x n \<and> n \<le> length (pending x) \<and> (\<exists>m. R v m \<and> n = 4 * k + m)"
    using x1 by (intro exI [of _ "4 * k + m"]) auto
qed

lemma units_xthen [read_intros]: "units f j \<Longrightarrow> units g k \<Longrightarrow> n = j + k \<Longrightarrow> units (xthen f g) n"
  by (rule xdr_reader_cong, rule xdr_reader_xthen) auto

lemma xdr_reader_xfield:
  assumes p: "xdr_reader p R"
  shows "xdr_reader (xfield p get upd) (\<lambda>v n. \<exists>v0 f. v = upd (\<lambda>_. f) v0 \<and> R f n)"
proof
  fix x v0 x' v
  assume op: "x_op x = XDR_DECODE" and run: "xfield p get upd x v0 = (True, x', v)"
  then obtain f where "p x (get v0) = (True, x', f)" "v = upd (\<lambda>_. f) v0"
    by (auto simp: xfield_def split: prod.splits)
  then show "\<exists>n. x' = skip x n \<and> n \<le> length (pending x) \<and> (\<exists>v0 f. v = upd (\<lambda>_. f) v0 \<and> R f n)"
    using xdr_reader.reads [OF p op] by blast
qed

lemma units_xfield [read_intros]: "units p k \<Longrightarrow> units (xfield p get upd) k"
  by (rule xdr_reader_cong, rule xdr_reader_xfield) auto

lemma xdr_reader_by_op [read_intros]:
  assumes "xdr_reader g R"
  shows "xdr_reader (\<lambda>x. case x_op x of XDR_ENCODE \<Rightarrow> f x | XDR_DECODE \<Rightarrow> g x | XDR_FREE \<Rightarrow> h x) R"
  using assms unfolding xdr_reader_def by auto

text \<open>
  What the RPC library documents of its primitives on any input: a scalar takes one unit, a string or an
  opaque its count, the bytes and their padding; a count above the bound is refused.
\<close>

locale rfc4506_input = rfc4506 lib for lib :: xdr_lib +
  assumes read_int: "units (xdr_int lib) 1"
    and read_u_int: "units (xdr_u_int lib) 1"
    and read_enum: "units (xdr_enum lib) 1"
    and read_bool: "units (xdr_bool lib) 1"
    and read_u_short: "units (xdr_u_short lib) 1"
    and read_char: "units (xdr_char lib) 1"
    and read_u_char: "units (xdr_u_char lib) 1"
    and read_string: "xdr_reader (xdr_string lib m) (\<lambda>v n. v \<noteq> None \<and> n = length (enc_string v))"
    and read_bytes: "xdr_reader (xdr_bytes lib m) (\<lambda>v n. valid_opaque m v \<and> n = length (enc_opaque v))"
begin

text \<open>The inlined branch takes the same units as the slow one.\<close>

lemma units_inline:
  assumes slow: "units (slow :: 'a xdrproc) n"
  shows "units (xinline_get lib n slow store) n"
proof
  fix x v0 x' and v :: 'a
  assume op: "x_op x = XDR_DECODE" and run: "xinline_get lib n slow store x v0 = (True, x', v)"
  obtain r x1 where inl: "XDR_INLINE lib x (n * BYTES_PER_XDR_UNIT) = (r, x1)" by force
  show "\<exists>k. x' = skip x k \<and> k \<le> length (pending x) \<and> k = 4 * n"
  proof (cases r)
    case None
    then have "slow x v0 = (True, x', v)" using inl inline_null [of x _ x1] run by (auto simp: xinline_get_def)
    then show ?thesis using xdr_reader.reads [OF slow op] by blast
  next
    case (Some b)
    then have "x_pos x + n * 4 \<le> length (x_buf x)" "x1 = skip x (n * 4)" "x' = x1"
      using inl inline [of x "n * 4" b x1] op run by (auto simp: xinline_get_def BYTES_PER_XDR_UNIT_def)
    then show ?thesis by (intro exI [of _ "n * 4"]) (auto simp: pending_def)
  qed
qed

lemmas read_prims = read_int read_u_int read_enum read_bool read_u_short read_char read_u_char
lemmas read_parts = read_prims read_intros units_inline

end

section \<open>What the routines accept\<close>

text \<open>
  A routine \<^emph>\<open>accepts\<close> a layout when the bytes it consumed are inside the stream, are as many as the layout
  of the object it read has, and the object is within bounds.
\<close>

definition accepts :: "'a xdrproc \<Rightarrow> ('a \<Rightarrow> bool) \<Rightarrow> ('a \<Rightarrow> bytes) \<Rightarrow> bool" where
  "accepts proc bounded enc \<longleftrightarrow>
     (\<forall>x v0 x' v. x_op x = XDR_DECODE \<longrightarrow> proc x v0 = (True, x', v) \<longrightarrow>
        x' = skip x (length (enc v)) \<and> length (enc v) \<le> length (pending x) \<and> bounded v)"

lemma acceptsI: "xdr_reader p R \<Longrightarrow> (\<And>v n. R v n \<Longrightarrow> B v \<and> n = length (e v)) \<Longrightarrow> accepts p B e"
  unfolding accepts_def xdr_reader_def by metis

lemma accepts_units: "units p k \<Longrightarrow> (\<And>v. length (e v) = 4 * k) \<Longrightarrow> accepts p (\<lambda>_. True) e"
  by (rule acceptsI) auto

text \<open>Units followed by one field of variable length, the last of its struct.\<close>

lemma accepts_tail:
  assumes "units f k" and "xdr_reader p (\<lambda>v n. B v \<and> n = length (e v))"
    and "\<And>u v. get (upd (\<lambda>_. u) v) = u" and "\<And>v. length (enc v) = 4 * k + length (e (get v))"
  shows "accepts (xthen f (xfield p get upd)) (\<lambda>v. B (get v)) enc"
  by (rule acceptsI, rule xdr_reader_xthen [OF assms(1) xdr_reader_xfield [OF assms(2)]]) (auto simp: assms(3,4))

lemma accepts_by_op:
  assumes "accepts g B e"
  shows "accepts (\<lambda>x. case x_op x of XDR_ENCODE \<Rightarrow> f x | XDR_DECODE \<Rightarrow> g x | XDR_FREE \<Rightarrow> h x) B e"
  using assms unfolding accepts_def by auto

lemma xthen_assoc: "xthen (xthen f g) h = xthen f (xthen g h)"
  by (auto simp: xthen_def fun_eq_iff split: prod.splits)

context rfc4506_input
begin

lemma accepts_Device_Link: "accepts (xdr_Device_Link lib) (\<lambda>_. True) be32"
  unfolding typedef_defs by (rule accepts_units, rule read_prims) simp

lemma accepts_Device_Error: "accepts (xdr_Device_Error lib) (\<lambda>_. True) enc_Device_Error"
  unfolding xdr_Device_Error_def typedef_defs
  by (rule accepts_units, (rule read_parts refl | simp add: enc_Device_Error_def)+)

lemma accepts_Create_LinkResp: "accepts (xdr_Create_LinkResp lib) (\<lambda>_. True) enc_Create_LinkResp"
  unfolding xdr_Create_LinkResp_def typedef_defs
  by (rule accepts_units, (rule read_parts refl | simp add: enc_Create_LinkResp_def)+)

lemma accepts_Device_WriteResp: "accepts (xdr_Device_WriteResp lib) (\<lambda>_. True) enc_Device_WriteResp"
  unfolding xdr_Device_WriteResp_def typedef_defs
  by (rule accepts_units, (rule read_parts refl | simp add: enc_Device_WriteResp_def)+)

lemma accepts_Device_ReadParms: "accepts (xdr_Device_ReadParms lib) (\<lambda>_. True) enc_Device_ReadParms"
  unfolding xdr_Device_ReadParms_def [abs_def] typedef_defs drp_slow_def drp_tail_def
  by (rule accepts_units, (rule read_parts refl | simp add: enc_Device_ReadParms_def)+)

lemma accepts_Device_ReadStbResp: "accepts (xdr_Device_ReadStbResp lib) (\<lambda>_. True) enc_Device_ReadStbResp"
  unfolding xdr_Device_ReadStbResp_def typedef_defs
  by (rule accepts_units, (rule read_parts refl | simp add: enc_Device_ReadStbResp_def)+)

lemma accepts_Device_GenericParms: "accepts (xdr_Device_GenericParms lib) (\<lambda>_. True) enc_Device_GenericParms"
  unfolding xdr_Device_GenericParms_def typedef_defs
  by (rule accepts_units, (rule read_parts refl | simp add: enc_Device_GenericParms_def)+)

lemma accepts_Device_RemoteFunc: "accepts (xdr_Device_RemoteFunc lib) (\<lambda>_. True) enc_Device_RemoteFunc"
  unfolding xdr_Device_RemoteFunc_def [abs_def] typedef_defs drf_slow_def
  by (rule accepts_units, (rule read_parts refl | simp add: enc_Device_RemoteFunc_def)+)

lemma accepts_Device_LockParms: "accepts (xdr_Device_LockParms lib) (\<lambda>_. True) enc_Device_LockParms"
  unfolding xdr_Device_LockParms_def typedef_defs
  by (rule accepts_units, (rule read_parts refl | simp add: enc_Device_LockParms_def)+)

lemma accepts_Create_LinkParms:
  "accepts (xdr_Create_LinkParms lib) (\<lambda>v. clp_device v \<noteq> None) enc_Create_LinkParms"
  unfolding xdr_Create_LinkParms_def [abs_def] typedef_defs clp_slow_def xthen_assoc [symmetric]
  by (rule accepts_by_op, rule accepts_tail, (rule read_parts read_string refl | simp add: enc_Create_LinkParms_def)+)

lemma accepts_Device_WriteParms:
  "accepts (xdr_Device_WriteParms lib) (\<lambda>v. valid_opaque xdr_unbounded (dwp_data v)) enc_Device_WriteParms"
  unfolding xdr_Device_WriteParms_def typedef_defs xthen_assoc [symmetric]
  by (rule accepts_tail, (rule read_parts read_bytes refl | simp add: enc_Device_WriteParms_def)+)

lemma accepts_Device_ReadResp:
  "accepts (xdr_Device_ReadResp lib) (\<lambda>v. valid_opaque xdr_unbounded (drr_data v)) enc_Device_ReadResp"
  unfolding xdr_Device_ReadResp_def typedef_defs xthen_assoc [symmetric]
  by (rule accepts_tail, (rule read_parts read_bytes refl | simp add: enc_Device_ReadResp_def)+)

lemma accepts_Device_EnableSrqParms:
  "accepts (xdr_Device_EnableSrqParms lib) (\<lambda>v. valid_opaque 40 (dep_handle v)) enc_Device_EnableSrqParms"
  unfolding xdr_Device_EnableSrqParms_def typedef_defs xthen_assoc [symmetric]
  by (rule accepts_tail, (rule read_parts read_bytes refl | simp add: enc_Device_EnableSrqParms_def)+)

lemma accepts_Device_DocmdParms:
  "accepts (xdr_Device_DocmdParms lib) (\<lambda>v. valid_opaque xdr_unbounded (ddp_data_in v)) enc_Device_DocmdParms"
  unfolding xdr_Device_DocmdParms_def [abs_def] typedef_defs ddp_slow_def ddp_head_def xthen_assoc [symmetric]
  by (rule accepts_by_op, rule accepts_tail, (rule read_parts read_bytes refl | simp add: enc_Device_DocmdParms_def)+)

lemma accepts_Device_DocmdResp:
  "accepts (xdr_Device_DocmdResp lib) (\<lambda>v. valid_opaque xdr_unbounded (ddr_data_out v)) enc_Device_DocmdResp"
  unfolding xdr_Device_DocmdResp_def typedef_defs xthen_assoc [symmetric]
  by (rule accepts_tail, (rule read_parts read_bytes refl | simp add: enc_Device_DocmdResp_def)+)

lemmas accepts_all =
  accepts_Device_Link accepts_Device_Error accepts_Create_LinkParms accepts_Create_LinkResp accepts_Device_WriteParms
  accepts_Device_WriteResp accepts_Device_ReadParms accepts_Device_ReadResp accepts_Device_ReadStbResp
  accepts_Device_GenericParms accepts_Device_RemoteFunc accepts_Device_EnableSrqParms accepts_Device_LockParms
  accepts_Device_DocmdParms accepts_Device_DocmdResp

end

text \<open>The memory stream keeps the contract.\<close>

lemma mem_scalar_units: "units (mem_scalar to_unit of_unit) 1"
  by unfold_locales (auto simp: mem_scalar_def split: if_splits)

lemma mem_run_get_reads:
  assumes "mem_run_get m x = Some (bs, x')"
  shows "x' = skip x (length (enc_run bs)) \<and> length (enc_run bs) \<le> length (pending x) \<and> length bs \<le> unat m"
  using assms by (auto simp: mem_run_get_def enc_run_def Let_def split: if_splits)

lemma mem_string_reads: "xdr_reader (mem_string m) (\<lambda>v n. v \<noteq> None \<and> n = length (enc_string v))"
  by unfold_locales (auto simp: mem_string_def enc_string_def dest!: mem_run_get_reads split: option.splits)

lemma mem_bytes_reads: "xdr_reader (mem_bytes m) (\<lambda>v n. valid_opaque m v \<and> n = length (enc_opaque v))"
proof
  fix x v0 x' and v :: opaque
  assume "x_op x = XDR_DECODE" and "mem_bytes m x v0 = (True, x', v)"
  then obtain bs where bs: "mem_run_get m x = Some (bs, x')" "v = \<lparr>op_len = word_of_nat (length bs), op_val = Some bs\<rparr>"
    by (auto simp: mem_bytes_def split: option.splits)
  then have "length bs \<le> unat m" using mem_run_get_reads by blast
  then have "valid_opaque m v" using bs(2) by (simp add: valid_opaque_def le_unat_uoi)
  then show "\<exists>n. x' = skip x n \<and> n \<le> length (pending x) \<and> valid_opaque m v \<and> n = length (enc_opaque v)"
    using bs mem_run_get_reads [OF bs(1)] by (simp add: enc_opaque_def enc_string_def)
qed

interpretation memory: rfc4506_input mem_lib
  by (intro rfc4506_input.intro xdrmem.rfc4506_axioms rfc4506_input_axioms.intro)
    (simp_all only: mem_lib_def xdr_lib.simps mem_scalar_units mem_string_reads mem_bytes_reads)

text \<open>
  C14. What the routines do with input that may be anything, over any library that follows the RFC: whenever
  a routine accepts, it has read inside the stream only, it has advanced by exactly the length of the
  RFC 4506 layout of the object it read, and counted runs are no longer than their bound and as long as
  their count says. So a message that ends too early, or whose counts promise more than was sent, is refused.
\<close>

theorem xdr_decode_bounded:
  assumes "rfc4506_input lib"
  shows "accepts (xdr_Device_Link lib) (\<lambda>_. True) be32 \<and>
    accepts (xdr_Device_Error lib) (\<lambda>_. True) enc_Device_Error \<and>
    accepts (xdr_Create_LinkParms lib) (\<lambda>v. clp_device v \<noteq> None) enc_Create_LinkParms \<and>
    accepts (xdr_Create_LinkResp lib) (\<lambda>_. True) enc_Create_LinkResp \<and>
    accepts (xdr_Device_WriteParms lib) (\<lambda>v. valid_opaque xdr_unbounded (dwp_data v)) enc_Device_WriteParms \<and>
    accepts (xdr_Device_WriteResp lib) (\<lambda>_. True) enc_Device_WriteResp \<and>
    accepts (xdr_Device_ReadParms lib) (\<lambda>_. True) enc_Device_ReadParms \<and>
    accepts (xdr_Device_ReadResp lib) (\<lambda>v. valid_opaque xdr_unbounded (drr_data v)) enc_Device_ReadResp \<and>
    accepts (xdr_Device_ReadStbResp lib) (\<lambda>_. True) enc_Device_ReadStbResp \<and>
    accepts (xdr_Device_GenericParms lib) (\<lambda>_. True) enc_Device_GenericParms \<and>
    accepts (xdr_Device_RemoteFunc lib) (\<lambda>_. True) enc_Device_RemoteFunc \<and>
    accepts (xdr_Device_EnableSrqParms lib) (\<lambda>v. valid_opaque 40 (dep_handle v)) enc_Device_EnableSrqParms \<and>
    accepts (xdr_Device_LockParms lib) (\<lambda>_. True) enc_Device_LockParms \<and>
    accepts (xdr_Device_DocmdParms lib) (\<lambda>v. valid_opaque xdr_unbounded (ddp_data_in v)) enc_Device_DocmdParms \<and>
    accepts (xdr_Device_DocmdResp lib) (\<lambda>v. valid_opaque xdr_unbounded (ddr_data_out v)) enc_Device_DocmdResp"
  by (intro conjI rfc4506_input.accepts_all [OF assms])

text \<open>A read response whose count promises nine bytes, of which only four were sent, is refused.\<close>

definition short_response :: XDR where
  "short_response = \<lparr>x_op = XDR_DECODE, x_buf = be32 0 @ be32 4 @ be32 9 @ [1, 2, 3, 4], x_pos = 0\<rparr>"

theorem xdr_decode_bounded_witness:
  "accepts (xdr_Device_ReadResp mem_lib) (\<lambda>v. valid_opaque xdr_unbounded (drr_data v)) enc_Device_ReadResp \<and>
    \<not> fst (xdr_Device_ReadResp mem_lib short_response \<lparr>drr_error = 0, drr_reason = 0, drr_data = zero_opaque\<rparr>)"
proof
  show "accepts (xdr_Device_ReadResp mem_lib) (\<lambda>v. valid_opaque xdr_unbounded (drr_data v)) enc_Device_ReadResp"
    using xdr_decode_bounded [OF memory.rfc4506_input_axioms] by (elim conjE)
  show "\<not> fst (xdr_Device_ReadResp mem_lib short_response \<lparr>drr_error = 0, drr_reason = 0, drr_data = zero_opaque\<rparr>)"
    by (simp add: xdr_Device_ReadResp_def xdr_Device_ErrorCode_def xthen_def xfield_def mem_lib_def mem_scalar_def
        short_response_def pending_def skip_def fits_def mem_bytes_def mem_run_get_def zero_opaque_def)
qed

section \<open>Requests to the dispatchers\<close>

fun enc_obj :: "rpc_obj \<Rightarrow> bytes" where
  "enc_obj Obj_void = []"
| "enc_obj (Obj_Device_Link v) = be32 v"
| "enc_obj (Obj_Device_Error v) = enc_Device_Error v"
| "enc_obj (Obj_Create_LinkParms v) = enc_Create_LinkParms v"
| "enc_obj (Obj_Create_LinkResp v) = enc_Create_LinkResp v"
| "enc_obj (Obj_Device_WriteParms v) = enc_Device_WriteParms v"
| "enc_obj (Obj_Device_WriteResp v) = enc_Device_WriteResp v"
| "enc_obj (Obj_Device_ReadParms v) = enc_Device_ReadParms v"
| "enc_obj (Obj_Device_ReadResp v) = enc_Device_ReadResp v"
| "enc_obj (Obj_Device_ReadStbResp v) = enc_Device_ReadStbResp v"
| "enc_obj (Obj_Device_GenericParms v) = enc_Device_GenericParms v"
| "enc_obj (Obj_Device_RemoteFunc v) = enc_Device_RemoteFunc v"
| "enc_obj (Obj_Device_EnableSrqParms v) = enc_Device_EnableSrqParms v"
| "enc_obj (Obj_Device_LockParms v) = enc_Device_LockParms v"
| "enc_obj (Obj_Device_DocmdParms v) = enc_Device_DocmdParms v"
| "enc_obj (Obj_Device_DocmdResp v) = enc_Device_DocmdResp v"

text \<open>The arguments of variable length, within their bounds.\<close>

fun obj_bounded :: "rpc_obj \<Rightarrow> bool" where
  "obj_bounded (Obj_Create_LinkParms v) = (clp_device v \<noteq> None)"
| "obj_bounded (Obj_Device_WriteParms v) = valid_opaque xdr_unbounded (dwp_data v)"
| "obj_bounded (Obj_Device_EnableSrqParms v) = valid_opaque 40 (dep_handle v)"
| "obj_bounded (Obj_Device_DocmdParms v) = valid_opaque xdr_unbounded (ddp_data_in v)"
| "obj_bounded _ = True"

lemma accepts_cast:
  assumes "accepts p B e" and "\<And>v. B v \<Longrightarrow> obj_bounded (wrap v)" and "\<And>v. enc_obj (wrap v) = e v"
  shows "accepts (xdr_cast view wrap p) obj_bounded enc_obj"
  using assms unfolding accepts_def xdr_cast_def by (auto split: option.splits prod.splits)

fun entry_accepts :: "svc_entry option \<Rightarrow> bool" where
  "entry_accepts None = True"
| "entry_accepts (Some en) =
     (\<forall>x x' v. x_op x = XDR_DECODE \<longrightarrow> se_xarg en x (se_zero en) = (True, x', v) \<longrightarrow>
        length (enc_obj v) \<le> length (pending x) \<and> obj_bounded v)"

lemma entry_accepts_parts:
  "entry_accepts a \<Longrightarrow> entry_accepts b \<Longrightarrow> entry_accepts (if P then a else b)"
  "accepts xa obj_bounded enc_obj \<Longrightarrow> entry_accepts (Some \<lparr>se_xarg = xa, se_zero = z, se_xres = xr\<rparr>)"
  "entry_accepts (Some \<lparr>se_xarg = xdr_void, se_zero = Obj_void, se_xres = xr\<rparr>)"
  "entry_accepts None"
  unfolding accepts_def by (auto simp: xdr_void_def)

context rfc4506_input
begin

lemma accepts_args:
  "accepts (xdrproc_Device_Link lib) obj_bounded enc_obj"
  "accepts (xdrproc_Create_LinkParms lib) obj_bounded enc_obj"
  "accepts (xdrproc_Device_WriteParms lib) obj_bounded enc_obj"
  "accepts (xdrproc_Device_ReadParms lib) obj_bounded enc_obj"
  "accepts (xdrproc_Device_GenericParms lib) obj_bounded enc_obj"
  "accepts (xdrproc_Device_LockParms lib) obj_bounded enc_obj"
  "accepts (xdrproc_Device_EnableSrqParms lib) obj_bounded enc_obj"
  "accepts (xdrproc_Device_DocmdParms lib) obj_bounded enc_obj"
  "accepts (xdrproc_Device_RemoteFunc lib) obj_bounded enc_obj"
  unfolding xdrproc_defs
  by (rule accepts_cast, rule accepts_all, simp, simp)+

lemma entries_accept: "entry_accepts (device_core_entry lib proc)" "entry_accepts (device_async_entry lib proc)"
  unfolding device_core_entry_def device_async_entry_def
  by (intro entry_accepts_parts(1,3,4), (rule entry_accepts_parts accepts_args)+)+

end

text \<open>The server decodes the arguments of a request from a given stream.\<close>

definition receives :: "svc \<Rightarrow> XDR \<Rightarrow> bool" where
  "receives sv x \<longleftrightarrow> (\<forall>l xa z. sv_getargs sv l xa z = (fst (xa x z), snd (snd (xa x z))))"

text \<open>What a dispatcher may do with a request: answer without a call, or call with an argument that was in the stream.\<close>

definition request_handled :: "XDR \<Rightarrow> svc_log \<Rightarrow> bool" where
  "request_handled x evs \<longleftrightarrow>
     evs \<in> {[Sv_reply_void], [Sv_noproc], [Sv_decode_error]} \<or>
     (\<exists>proc a rest. evs = Sv_call proc a # rest \<and> filter is_call rest = [] \<and>
        length (enc_obj a) \<le> length (pending x) \<and> obj_bounded a)"

lemma svc_serve_handled:
  assumes "receives sv x" and "x_op x = XDR_DECODE" and "entry_accepts (Some en)"
  shows "\<exists>evs. svc_serve sv en proc l = l @ evs \<and> request_handled x evs"
proof -
  obtain ok x' a where run: "se_xarg en x (se_zero en) = (ok, x', a)" by (metis prod_cases3)
  then have args: "sv_getargs sv l (se_xarg en) (se_zero en) = (ok, a)" using assms(1) by (simp add: receives_def)
  obtain retval res where loc: "sv_local sv proc l a = (retval, res)" by fastforce
  show ?thesis
  proof (cases ok)
    case True
    then have "length (enc_obj a) \<le> length (pending x)" "obj_bounded a" using assms(2,3) run by auto
    then show ?thesis
      using True args loc by (auto simp: svc_serve_def request_handled_def is_call_def Let_def)
  next
    case False
    then show ?thesis using args by (simp add: svc_serve_def request_handled_def)
  qed
qed

text \<open>
  C13. The dispatchers on arbitrary requests, over any library that follows the RFC: a request is answered with an
  error before any service function runs, the null procedure with an empty reply, or one service function is called, with an argument whose whole
  layout was in the request and whose counted runs are within their bounds. No request, however malformed, makes
  a service function see more than was sent.
\<close>

theorem requests_in_bounds:
  assumes "rfc4506_input lib" and "receives sv x" and "x_op x = XDR_DECODE"
  shows "(\<exists>evs. device_core_1 sv lib rq_proc l = l @ evs \<and> request_handled x evs) \<and>
    (\<exists>evs. device_async_1 sv lib rq_proc l = l @ evs \<and> request_handled x evs)"
proof
  have plain: "request_handled x [Sv_reply_void]" "request_handled x [Sv_noproc]" by (simp_all add: request_handled_def)
  show "\<exists>evs. device_core_1 sv lib rq_proc l = l @ evs \<and> request_handled x evs"
    using plain svc_serve_handled [OF assms(2,3), of _ rq_proc l] rfc4506_input.entries_accept(1) [OF assms(1), of rq_proc]
    by (cases "device_core_entry lib rq_proc") (auto simp: device_core_1_def simp del: entry_accepts.simps(2))
  show "\<exists>evs. device_async_1 sv lib rq_proc l = l @ evs \<and> request_handled x evs"
    using plain svc_serve_handled [OF assms(2,3), of _ rq_proc l] rfc4506_input.entries_accept(2) [OF assms(1), of rq_proc]
    by (cases "device_async_entry lib rq_proc") (auto simp: device_async_1_def simp del: entry_accepts.simps(2))
qed

text \<open>A request to read that has sixteen bytes instead of twenty-four.\<close>

theorem requests_in_bounds_witness:
  "\<exists>evs. device_core_1 (zero_svc short_response) mem_lib device_read [] = [] @ evs \<and> request_handled short_response evs"
  using requests_in_bounds [OF memory.rfc4506_input_axioms, of "zero_svc short_response" short_response device_read "[]"]
  by (simp add: receives_def zero_svc_def short_response_def)

end
