(* ===== verification/Spec2Isabelle.thy ===== *)
theory Spec2Isabelle
  imports Lxi_Mutex Lxi_Raw Lxi_Discover Vxi11_join Xdr_Reader
begin

text \<open>
  A verification of liblxi, the C library that finds LXI instruments on a network and exchanges
  messages with them over raw TCP or VXI-11 (ONC RPC).

  \<^bold>\<open>The program.\<close> \<^verbatim>\<open>src/src/lxi.c\<close> is the API: a static table of 1024 sessions guarded by a mutex. A session
  has flags, a pointer to the data of its protocol and four function pointers, which
  \<^verbatim>\<open>lxi_connect\<close> sets to the functions of \<^verbatim>\<open>tcp.c\<close> or \<^verbatim>\<open>vxi11.c\<close>; \<^verbatim>\<open>lxi_send\<close>, \<^verbatim>\<open>lxi_receive\<close> and \<^verbatim>\<open>lxi_disconnect\<close> go
  through them. \<^verbatim>\<open>vxi11.c\<close> calls the client stubs of \<^verbatim>\<open>vxi11core_clnt.c\<close>, which hand the XDR routines of
  \<^verbatim>\<open>vxi11core_xdr.c\<close> for the structs of \<^verbatim>\<open>vxi11core.h\<close> to the RPC library; \<^verbatim>\<open>vxi11core_svc.c\<close> is the server
  side of the same protocol. Discovery is a broadcast in \<^verbatim>\<open>vxi11.c\<close>, or multicast DNS: \<^verbatim>\<open>mdns.c\<close> calls \<^verbatim>\<open>avahi.c\<close>,
  \<^verbatim>\<open>bonjour.c\<close> or \<^verbatim>\<open>cygwin_dnssd.c\<close>, as the build decides.

  \<^bold>\<open>How C is modelled.\<close> A function is a HOL function of its arguments and of the state it uses. Its outcome
  (\<open>'a c\<close> of Prelude) is a value, a fault (null pointer, access out of bounds, use after free, double free,
  wrong or uninitialised pointer) or \<open>None\<close>, not returning. Loops whose end depends on the outside
  are \<open>partial_function (option)\<close>, so that returning is something to prove, and it is proved where a
  theorem says that a call returns; there is no fuel. Buffers are byte lists with explicit bounds. C integers are HOL integers where the
  code does not depend on their width and words where it does (the wire formats, and the unsigned
  sums of \<^verbatim>\<open>vxi11_receive\<close>); an \<^verbatim>\<open>int\<close> that the theorems bound by \<open>2 ^ 31\<close> is bounded for this reason.
  Everything outside the repository is a parameter: the operating system
  (\<open>posix\<close>), the RPC library (\<open>rpc\<close>), its XDR primitives (\<open>xdr_lib\<close>), the scheduler (\<open>threads\<close>), the XML library,
  Avahi, DNS-SD and the dynamic linker. A call asks the parameter, which sees the history so far,
  and appends an event to the history; a theorem for all parameters is one for all
  behaviours of the outside. What a theorem needs of the outside is a named predicate
  (\<open>send_bounded\<close>, \<open>recv_bounded\<close>, \<open>send_progress\<close>, \<open>few_files\<close>, \<open>read_bounded\<close>, \<open>join_decided\<close>, \<open>status_memory\<close>, \<open>sockets_work\<close>,
  \<open>answering\<close>, \<open>web_server\<close>, \<open>avahi_up\<close>) or a locale (\<open>rfc4506\<close>, \<open>rfc4506_input\<close>, \<open>dispatched\<close>, \<open>raw_peer\<close>, \<open>idn_network\<close>,
  \<open>sd_network\<close>; \<open>lxi_world\<close> collects what the API relies on), and Peers, Xdr_Mem and the demonstration worlds in the component
  theories show that each can hold. Two of them exclude behaviours of the code itself, which theorems of their own show: \<open>join_decided\<close>
  says that the timed join of a connection ends, by a joined thread or a deadline, and that its helper is not blocked on the
  mutex when it is cancelled (the deadlock of Timedjoin); \<open>read_bounded\<close> that an instrument returns no more than it is asked for, which
  \<^verbatim>\<open>vxi11_receive\<close> does not check.

  \<^bold>\<open>The theories.\<close>
  \<^item> Prelude: outcomes, buffers, big-endian words, the conversion of timeouts. Environ: events,
    histories and the parameters for sockets and RPC. Peers: concrete outside worlds.
  \<^item> Vxi11core (\<^verbatim>\<open>vxi11core.h\<close>), Vxi11core_xdr (\<^verbatim>\<open>vxi11core_xdr.c\<close>), Rpc_Objects, Vxi11core_clnt (\<^verbatim>\<open>vxi11core_clnt.c\<close>)
    and Vxi11core_svc (\<^verbatim>\<open>vxi11core_svc.c\<close>): the generated RPC code, one definition per struct,
    routine, stub and dispatcher. Xdr_Codec has the contract of a codec as a locale, composition of codecs, and
    every routine as an instance; Xdr_Mem a library that meets the contract; Rpc_Loopback joins
    the sixteen stubs and the two dispatchers; Vxi11core_types has the prototypes of the procedures and
    shows that the casts of the dispatchers respect them. Xdr_Reader is about input that no peer of the protocol
    wrote: what every routine makes of arbitrary bytes, as a contract of its own (\<open>xdr_reader\<close>).
  \<^item> Tcp (\<^verbatim>\<open>tcp.c\<close>): \<open>tcp_connect\<close>, \<open>tcp_send\<close>, \<open>tcp_receive\<close> and their loops. Receiving stays in the buffer,
    sending is complete, and where both put the third piece of a transfer.
  \<^item> Vxi11 (\<^verbatim>\<open>vxi11.c\<close>, connection): \<open>vxi11_connect\<close> with its thread and deadline, \<open>vxi11_send\<close>, \<open>vxi11_receive\<close>,
    \<open>vxi11_disconnect\<close>. Timedjoin: the three threads of \<^verbatim>\<open>_pthread_timedjoin\<close> as a step relation, what it returns and
    from which states it can, with the invalid deadline of a negative timeout, which the wait rejects for ever; Vxi11_join: the
    relation against the function \<open>vxi11_connect\<close> uses, which does not return where a run of the relation is blocked for ever.
  \<^item> Backend: the contract between sessions and protocols as the locale \<open>backend\<close>, met by both.
  \<^item> Lxi (\<^verbatim>\<open>lxi.c\<close>, \<^verbatim>\<open>session.h\<close>): table, heap and API. The open handles are an abstract map (\<open>handles\<close>), which the
    operations refine; \<open>lxi_inv\<close> and \<open>data_owned\<close> are the invariants. Lxi_Race: several threads that call the API,
    with the check of a handle, the work of a locked call and the two halves of an unlocked one as atomic steps. Lxi_Mutex: the same threads with \<^verbatim>\<open>session_mutex\<close> explicit and the
    work of a locked call in many steps, between which other threads run: finding the free entry, setting it up, connecting, and in
    \<^verbatim>\<open>lxi_disconnect\<close> the protocol's call, the release of the data and the reset of the entry. That the mutex makes the work
    atomic is a refinement of Lxi_Race. Lxi_Query: a session over VXI-11 through all layers,
    from the API call to the service function behind the dispatcher and back. Lxi_Raw: the same over a raw socket,
    with the peer of Raw_Peer, an operating system whose \<^verbatim>\<open>send\<close> and \<^verbatim>\<open>recv\<close> move a message in at most two pieces.
  \<^item> Vxi11_discover (\<^verbatim>\<open>vxi11.c\<close>, discovery) and Vxi11_network (what it finds on a network of
    instruments, over VXI-11 and over HTTP), Services, Avahi (\<^verbatim>\<open>avahi.c\<close>), Dns_sd, Bonjour (\<^verbatim>\<open>bonjour.c\<close>), Cygwin_dnssd
    (\<^verbatim>\<open>cygwin_dnssd.c\<close>), Mdns (\<^verbatim>\<open>mdns.c\<close>) and Lxi_Discover (the discovery calls of \<^verbatim>\<open>lxi.c\<close>). A discovery by multicast
    DNS is followed to its end with each backend: what the application hears, and which operations stay open.

  \<^bold>\<open>What is shown.\<close> Under the contracts of the outside, sequential programs that use the API are memory safe and every block
  of session data they still hold belongs to an open handle, with the exceptions the theorems name (sockets and the blocks of
  \<^verbatim>\<open>vxi11_connect\<close>'s threads are not counted there); connecting and disconnecting refine a map of handles; the transfer loops return, stay
  in bounds and deliver what they count under the contracts of the outside; the XDR routines are codecs for the
  layouts of RFC 4506 on their fast and slow paths, and reject or bound every malformed input; every stub agrees with the dispatcher, the dispatchers are well typed,
  and a query made of the four API calls delivers the message and the answer, over VXI-11 and over a raw socket; the session mutex makes the
  steps of locked work atomic for threads that own their handles, and these never fault and all return; the timed join gives the right
  result, and can return from every state but its one deadlock, when its deadline is valid; discovery, through the API and on networks that
  meet the stated contracts, queries every interface, or the one asked for, and reports exactly the instruments that
  answer and identify themselves, and by multicast DNS exactly the services the network resolves in time. A second group of theorems shows where
  the code does not do this: a third piece of a transfer, handle 1024 and negative lengths, the races of
  \<^verbatim>\<open>lxi_disconnect\<close>, the deadlock of the timed join, overlong responses, failures \<^verbatim>\<open>tcp_connect\<close> overlooks, a
  service browser that could not be made and is freed, service types that are polled instead of waited for, and resources that are never released, among them
  the block for the result of every thread that connects to an instrument.

  \<^bold>\<open>What is not modelled.\<close> Messages to stderr; the contents of struct padding; cancellation at points
  inside the libraries other than the two the connecting thread can be in; steps of other threads between the calls one
  send or receive makes to the outside (in Lxi_Race and Lxi_Mutex these calls are one step, behind the step that reads the entry,
  but each step may ask a different outside world, so their answers are not tied to the order of the steps). Lengths that overflow \<^verbatim>\<open>int\<close> are
  excluded by hypotheses, not modelled. The vendored header \<^verbatim>\<open>dns_sd.h\<close>, the test programs and the build are not
  modelled.
\<close>

section \<open>The wire format\<close>

text \<open>
  C11. Every XDR routine of \<^verbatim>\<open>vxi11core_xdr.c\<close> is a codec for the layout RFC 4506 gives its type, over any
  library that follows the RFC, on the inlined fast path and on the slow path: it writes exactly
  the bytes of the layout, fails when they do not fit, and reads the object back from them.
\<close>

theorem xdr_routines_are_codecs:
  assumes "rfc4506 lib"
  shows "xdr_codec (xdr_Device_Link lib) (\<lambda>_. True) be32 \<and>
    xdr_codec (xdr_Device_Error lib) (\<lambda>_. True) enc_Device_Error \<and>
    xdr_codec (xdr_Create_LinkParms lib) valid_Create_LinkParms enc_Create_LinkParms \<and>
    xdr_codec (xdr_Create_LinkResp lib) (\<lambda>_. True) enc_Create_LinkResp \<and>
    xdr_codec (xdr_Device_WriteParms lib) valid_Device_WriteParms enc_Device_WriteParms \<and>
    xdr_codec (xdr_Device_WriteResp lib) (\<lambda>_. True) enc_Device_WriteResp \<and>
    xdr_codec (xdr_Device_ReadParms lib) (\<lambda>_. True) enc_Device_ReadParms \<and>
    xdr_codec (xdr_Device_ReadResp lib) valid_Device_ReadResp enc_Device_ReadResp \<and>
    xdr_codec (xdr_Device_ReadStbResp lib) (\<lambda>_. True) enc_Device_ReadStbResp \<and>
    xdr_codec (xdr_Device_GenericParms lib) (\<lambda>_. True) enc_Device_GenericParms \<and>
    xdr_codec (xdr_Device_RemoteFunc lib) (\<lambda>_. True) enc_Device_RemoteFunc \<and>
    xdr_codec (xdr_Device_EnableSrqParms lib) valid_Device_EnableSrqParms enc_Device_EnableSrqParms \<and>
    xdr_codec (xdr_Device_LockParms lib) (\<lambda>_. True) enc_Device_LockParms \<and>
    xdr_codec (xdr_Device_DocmdParms lib) valid_Device_DocmdParms enc_Device_DocmdParms \<and>
    xdr_codec (xdr_Device_DocmdResp lib) valid_Device_DocmdResp enc_Device_DocmdResp"
  by (intro conjI rfc4506.codecs [OF assms])

text \<open>The parameters of a link, written to a memory stream and read back.\<close>

theorem xdr_routines_are_codecs_witness:
  "\<exists>x'. xdr_Create_LinkParms mem_lib \<lparr>x_op = XDR_ENCODE, x_buf = replicate 64 0, x_pos = 0\<rparr> (link_params 7 None) =
      (True, x', link_params 7 None) \<and>
    snd (snd (xdr_Create_LinkParms mem_lib (reread x' 0) zero_Create_LinkParms)) = link_params 7 None"
proof -
  have "xdr_codec (xdr_Create_LinkParms mem_lib) valid_Create_LinkParms enc_Create_LinkParms"
    using xdr_routines_are_codecs [OF xdrmem.rfc4506_axioms] by (elim conjE)
  moreover have "valid_Create_LinkParms (link_params 7 None)"
    by (simp add: valid_Create_LinkParms_def valid_string_def link_params_def be_bool_def default_device_def
        str_bytes_def)
  moreover have "fits \<lparr>x_op = XDR_ENCODE, x_buf = replicate 64 0, x_pos = 0\<rparr> (enc_Create_LinkParms (link_params 7 None))"
    by (simp add: fits_def enc_Create_LinkParms_def link_params_def enc_string_def enc_run_def xdr_pad_def
        default_device_def str_bytes_def)
  ultimately show ?thesis
    using xdr_codec.roundtrip [of _ _ _ "\<lparr>x_op = XDR_ENCODE, x_buf = replicate 64 0, x_pos = 0\<rparr>" "link_params 7 None"
        zero_Create_LinkParms] by fastforce
qed

end
